theory Spec2Isabelle
  imports Complex_Main "HOL-Library.Signed_Division" "HOL-Library.AList" "HOL-Library.Multiset"
begin

section \<open>The Sabouteur game room: data model\<close>

text \<open>
  A shallow embedding of \<^verbatim>\<open>server/index.js\<close> (the authoritative game room) and of the
  role distribution of \<^verbatim>\<open>client/src/game/cards.ts\<close>.  JavaScript numbers that hold
  whole values are \<open>int\<close> or \<open>nat\<close>; the fractional ones (suspicion, progress) are exact
  rationals.  \<^verbatim>\<open>Math.random()\<close>, \<^verbatim>\<open>Date.now()\<close> and \<^verbatim>\<open>uuid()\<close> are
  answers of the environment and are parameters of the functions that ask for them.
\<close>

datatype role = Miner | Saboteur

datatype category = Path | Rockfall | Break | Repair

datatype js_error = TypeError

record connectors =
  north :: bool
  east :: bool
  south :: bool
  west :: bool

record card_def =
  key :: string
  category :: category
  def_connectors :: "connectors option"

record card_instance =
  instanceId :: string
  cardKey :: string
  rotation :: int

subsection \<open>Random choices\<close>

text \<open>
  \<^verbatim>\<open>Math.random()\<close> answers with a number in \<open>[0, 1)\<close>.  A loop that asks once per
  iteration reads its answers from a function of the loop index.
\<close>

definition random_ok :: "(nat \<Rightarrow> rat) \<Rightarrow> bool" where
  "random_ok rnd = (\<forall>i. 0 \<le> rnd i \<and> rnd i < 1)"

text \<open>\<^verbatim>\<open>Math.floor(Math.random() * n)\<close>\<close>

definition random_index :: "rat \<Rightarrow> nat \<Rightarrow> nat" where
  "random_index r n = nat \<lfloor>r * of_nat n\<rfloor>"

text \<open>\<^verbatim>\<open>[xs[i], xs[j]] = [xs[j], xs[i]]\<close>\<close>

definition swap :: "nat \<Rightarrow> nat \<Rightarrow> 'a list \<Rightarrow> 'a list" where
  "swap i j xs = (xs[i := xs ! j])[j := xs ! i]"

text \<open>
  The Fisher-Yates loop \<^verbatim>\<open>for (let i = xs.length - 1; i > 0; i -= 1)\<close>; the first
  argument after the random source is the current \<open>i\<close>.
\<close>

fun shuffle_loop :: "(nat \<Rightarrow> rat) \<Rightarrow> nat \<Rightarrow> 'a list \<Rightarrow> 'a list" where
  "shuffle_loop rnd 0 xs = xs"
| "shuffle_loop rnd (Suc i) xs =
     shuffle_loop rnd i (swap (Suc i) (random_index (rnd (Suc i)) (Suc i + 1)) xs)"

definition shuffle :: "(nat \<Rightarrow> rat) \<Rightarrow> 'a list \<Rightarrow> 'a list" where
  "shuffle rnd xs = shuffle_loop rnd (length xs - 1) xs"

subsection \<open>Role distribution\<close>

definition roleDistribution :: "(nat \<Rightarrow> rat) \<Rightarrow> nat \<Rightarrow> role list" where
  "roleDistribution rnd count' =
     (let saboteurs = (if count' \<ge> 7 then 3 else if count' \<ge> 5 then 2
                       else if count' \<ge> 3 then 1 else (0::nat));
          roles = map (\<lambda>idx. if idx < saboteurs then Saboteur else Miner) [0..<count']
      in shuffle rnd roles)"

text \<open>The copy in \<^verbatim>\<open>client/src/game/cards.ts\<close>.\<close>

definition roleDistribution_client :: "(nat \<Rightarrow> rat) \<Rightarrow> nat \<Rightarrow> role list" where
  "roleDistribution_client rnd playerCount =
     (let saboteurCount = (if playerCount \<ge> 7 then 3 else if playerCount \<ge> 5 then 2
                           else (1::nat));
          arr = map (\<lambda>idx. if idx < saboteurCount then Saboteur else Miner) [0..<playerCount]
      in shuffle rnd arr)"

subsection \<open>Connector rotation\<close>

text \<open>One pass of the loop body of \<^verbatim>\<open>rotateConnectors\<close>.\<close>

definition rotate_once :: "connectors \<Rightarrow> connectors" where
  "rotate_once current =
     \<lparr>north = west current, east = north current, south = east current, west = south current\<rparr>"

primrec rotate_loop :: "nat \<Rightarrow> connectors \<Rightarrow> connectors" where
  "rotate_loop 0 current = current"
| "rotate_loop (Suc n) current = rotate_loop n (rotate_once current)"

text \<open>
  JavaScript's \<^verbatim>\<open>%\<close> takes the sign of the dividend, which is \<open>smod\<close>; the source
  normalises with \<^verbatim>\<open>((rotation % 4) + 4) % 4\<close>.
\<close>

definition rotateConnectors :: "connectors option \<Rightarrow> int \<Rightarrow> connectors option" where
  "rotateConnectors cs rot =
     (case cs of
        None \<Rightarrow> None
      | Some c \<Rightarrow> (let steps = nat (((rot smod 4) + 4) smod 4) in Some (rotate_loop steps c)))"

subsection \<open>Card catalogue and deck\<close>

definition CARD_LIBRARY :: "(string \<times> card_def) list" where
  "CARD_LIBRARY =
     [(''straight'', \<lparr>key = ''straight'', category = Path,
         def_connectors = Some \<lparr>north = False, east = True, south = False, west = True\<rparr>\<rparr>),
      (''straightLong'', \<lparr>key = ''straightLong'', category = Path,
         def_connectors = Some \<lparr>north = True, east = False, south = True, west = False\<rparr>\<rparr>),
      (''straightBranchNorth'', \<lparr>key = ''straightBranchNorth'', category = Path,
         def_connectors = Some \<lparr>north = True, east = True, south = False, west = True\<rparr>\<rparr>),
      (''straightBranchSouth'', \<lparr>key = ''straightBranchSouth'', category = Path,
         def_connectors = Some \<lparr>north = False, east = True, south = True, west = True\<rparr>\<rparr>),
      (''turn'', \<lparr>key = ''turn'', category = Path,
         def_connectors = Some \<lparr>north = True, east = True, south = False, west = False\<rparr>\<rparr>),
      (''cross'', \<lparr>key = ''cross'', category = Path,
         def_connectors = Some \<lparr>north = True, east = True, south = True, west = True\<rparr>\<rparr>),
      (''tee'', \<lparr>key = ''tee'', category = Path,
         def_connectors = Some \<lparr>north = True, east = True, south = True, west = False\<rparr>\<rparr>),
      (''deadendEast'', \<lparr>key = ''deadendEast'', category = Path,
         def_connectors = Some \<lparr>north = False, east = True, south = False, west = False\<rparr>\<rparr>),
      (''deadendNorth'', \<lparr>key = ''deadendNorth'', category = Path,
         def_connectors = Some \<lparr>north = True, east = False, south = False, west = False\<rparr>\<rparr>),
      (''rockfall'', \<lparr>key = ''rockfall'', category = Rockfall, def_connectors = None\<rparr>),
      (''break'', \<lparr>key = ''break'', category = Break, def_connectors = None\<rparr>),
      (''repair'', \<lparr>key = ''repair'', category = Repair, def_connectors = None\<rparr>)]"

definition DECK_TEMPLATE :: "(string \<times> nat) list" where
  "DECK_TEMPLATE =
     [(''straight'', 6), (''straightLong'', 6), (''straightBranchNorth'', 3),
      (''straightBranchSouth'', 3), (''turn'', 8), (''tee'', 6), (''cross'', 4),
      (''deadendEast'', 4), (''deadendNorth'', 4), (''rockfall'', 5), (''break'', 4),
      (''repair'', 6)]"

definition BOARD_ROWS :: nat where "BOARD_ROWS = 7"

definition BOARD_COLUMNS :: nat where "BOARD_COLUMNS = 9"

text \<open>
  \<^verbatim>\<open>generateDeck\<close>: the cards are pushed template entry by template entry, the
  \<open>i\<close>-th push taking the \<open>i\<close>-th answer of \<^verbatim>\<open>uuid()\<close>; then the deck is shuffled.
\<close>

definition generateDeck :: "(nat \<Rightarrow> string) \<Rightarrow> (nat \<Rightarrow> rat) \<Rightarrow> card_instance list" where
  "generateDeck uuids rnd =
     (let keys = concat (map (\<lambda>(k, quantity). replicate quantity k) DECK_TEMPLATE);
          deck = map (\<lambda>(i, k). \<lparr>instanceId = uuids i, cardKey = k, rotation = 0\<rparr>)
                     (enumerate 0 keys)
      in shuffle rnd deck)"

subsection \<open>Board\<close>

datatype tile_type = Empty | Start | Goal | PathTile | Blocked

record board_tile =
  tile_id :: string
  row :: int
  col :: int
  tileType :: tile_type
  tile_connectors :: "connectors option"
  tile_cardKey :: "string option"
  tile_rotation :: "int option"
  revealed :: bool
  ownerId :: "string option"

record board_state =
  rows :: nat
  columns :: nat
  tiles :: "board_tile list"
  winningTeam :: "role option"

text \<open>Decimal rendering of a number inside a template string.\<close>

fun show_nat :: "nat \<Rightarrow> string" where
  "show_nat n =
     (if n < 10 then [''0123456789'' ! n]
      else show_nat (n div 10) @ [''0123456789'' ! (n mod 10)])"

definition tileId :: "nat \<Rightarrow> nat \<Rightarrow> string" where
  "tileId r c = show_nat r @ ''-'' @ show_nat c"

text \<open>\<^verbatim>\<open>Array.prototype.findIndex\<close>, with \<open>None\<close> for \<open>-1\<close>.\<close>

fun find_index_from :: "nat \<Rightarrow> ('a \<Rightarrow> bool) \<Rightarrow> 'a list \<Rightarrow> nat option" where
  "find_index_from i P [] = None"
| "find_index_from i P (x # xs) = (if P x then Some i else find_index_from (Suc i) P xs)"

definition findIndex :: "('a \<Rightarrow> bool) \<Rightarrow> 'a list \<Rightarrow> nat option" where
  "findIndex P xs = find_index_from 0 P xs"

text \<open>
  \<^verbatim>\<open>Object.assign(xs.find(P), fields)\<close>: the first element that satisfies \<open>P\<close> is
  updated in place.
\<close>

definition assign_first :: "('a \<Rightarrow> bool) \<Rightarrow> ('a \<Rightarrow> 'a) \<Rightarrow> 'a list \<Rightarrow> 'a list" where
  "assign_first P f xs = (case findIndex P xs of None \<Rightarrow> xs | Some i \<Rightarrow> xs[i := f (xs ! i)])"

text \<open>
  \<^verbatim>\<open>createBoard\<close>; its argument is the answer of \<^verbatim>\<open>Math.random()\<close> that picks the
  gold goal.  The start tile and the three goal tiles are tiles of the grid, so every
  \<^verbatim>\<open>find\<close> of the source finds its tile.
\<close>

definition empty_tile :: "nat \<Rightarrow> nat \<Rightarrow> board_tile" where
  "empty_tile r c =
     \<lparr>tile_id = tileId r c, row = int r, col = int c, tileType = Empty,
      tile_connectors = None, tile_cardKey = None, tile_rotation = None,
      revealed = False, ownerId = None\<rparr>"

definition createBoard :: "rat \<Rightarrow> board_state" where
  "createBoard r =
     (let goalRows = [1, 3, 5 :: nat];
          goldIndex = random_index r (length goalRows);
          grid = concat (map (\<lambda>r. map (\<lambda>c. empty_tile r c) [0..<BOARD_COLUMNS]) [0..<BOARD_ROWS]);
          withStart = assign_first
            (\<lambda>t. row t = int (BOARD_ROWS div 2) \<and> col t = 0)
            (\<lambda>t. t\<lparr>tileType := Start,
                    tile_connectors := Some \<lparr>north = True, east = True, south = True, west = False\<rparr>,
                    revealed := True\<rparr>) grid;
          withGoals = fold
            (\<lambda>(index, r). assign_first
               (\<lambda>t. row t = int r \<and> col t = int (BOARD_COLUMNS - 1))
               (\<lambda>t. t\<lparr>tileType := Goal,
                       tile_connectors := Some \<lparr>north = True, east = False, south = True, west = True\<rparr>,
                       revealed := False,
                       tile_cardKey := Some (if index = goldIndex then ''gold'' else ''coal'')\<rparr>))
            (enumerate 0 goalRows) withStart
      in \<lparr>rows = BOARD_ROWS, columns = BOARD_COLUMNS, tiles = withGoals, winningTeam = None\<rparr>)"

datatype direction = North | South | East | West

record neighbor_dir =
  dir_key :: direction
  dr :: int
  dc :: int
  opposite :: direction

definition neighbors :: "neighbor_dir list" where
  "neighbors =
     [\<lparr>dir_key = North, dr = -1, dc = 0, opposite = South\<rparr>,
      \<lparr>dir_key = South, dr = 1, dc = 0, opposite = North\<rparr>,
      \<lparr>dir_key = East, dr = 0, dc = 1, opposite = West\<rparr>,
      \<lparr>dir_key = West, dr = 0, dc = -1, opposite = East\<rparr>]"

text \<open>\<^verbatim>\<open>connectors[key]\<close>\<close>

fun connector_at :: "connectors \<Rightarrow> direction \<Rightarrow> bool" where
  "connector_at c North = north c"
| "connector_at c South = south c"
| "connector_at c East = east c"
| "connector_at c West = west c"

definition findTile :: "board_state \<Rightarrow> string \<Rightarrow> board_tile option" where
  "findTile b i = find (\<lambda>t. tile_id t = i) (tiles b)"

text \<open>\<^verbatim>\<open>board.tiles.find((t) => t.row === tile.row + dr && t.col === tile.col + dc)\<close>\<close>

definition neighbor_of :: "board_state \<Rightarrow> board_tile \<Rightarrow> neighbor_dir \<Rightarrow> board_tile option" where
  "neighbor_of b t nb = find (\<lambda>u. row u = row t + dr nb \<and> col u = col t + dc nb) (tiles b)"

subsection \<open>Connectivity\<close>

text \<open>
  The body of the \<^verbatim>\<open>neighbors.forEach\<close> of \<^verbatim>\<open>exploreBoard\<close>: what one direction
  pushes on the queue.  \<open>visited\<close> already holds the tile being expanded.
\<close>

definition explore_push ::
  "board_state \<Rightarrow> board_tile \<Rightarrow> connectors \<Rightarrow> string set \<Rightarrow> neighbor_dir \<Rightarrow> board_tile list" where
  "explore_push b t c visited nb =
     (if \<not> connector_at c (dir_key nb) then []
      else case neighbor_of b t nb of
        None \<Rightarrow> []
      | Some neighbor \<Rightarrow>
          (case tile_connectors neighbor of
             None \<Rightarrow> []
           | Some nc \<Rightarrow>
               if tile_id neighbor \<in> visited then []
               else if connector_at nc (opposite nb) then [neighbor] else []))"

lemma find_in_set: "find P xs = Some x \<Longrightarrow> x \<in> set xs"
  by (induction xs) (auto split: if_splits)

lemma explore_push_subset: "set (explore_push b t c visited nb) \<subseteq> set (tiles b)"
  by (auto simp: explore_push_def neighbor_of_def split: option.splits if_splits
           intro: find_in_set [OF sym])

text \<open>The \<^verbatim>\<open>while (queue.length)\<close> loop of \<^verbatim>\<open>exploreBoard\<close>.\<close>

function explore_loop ::
  "board_state \<Rightarrow> board_tile list \<Rightarrow> string set \<Rightarrow> int \<Rightarrow> int \<times> string set" where
  "explore_loop b [] visited farthestCol = (farthestCol, visited)"
| "explore_loop b (t # queue) visited farthestCol =
     (case tile_connectors t of
        None \<Rightarrow> explore_loop b queue visited farthestCol
      | Some c \<Rightarrow>
          if tile_id t \<in> visited then explore_loop b queue visited farthestCol
          else explore_loop b
                 (queue @ concat (map (explore_push b t c (insert (tile_id t) visited)) neighbors))
                 (insert (tile_id t) visited)
                 (max farthestCol (col t)))"
  by pat_completeness auto

definition explore_measure :: "board_state \<Rightarrow> board_tile list \<Rightarrow> string set \<Rightarrow> nat" where
  "explore_measure b queue visited = card (tile_id ` (set (tiles b) \<union> set queue) - visited)"

lemma explore_measure_skip:
  "explore_measure b queue visited \<le> explore_measure b (t # queue) visited"
  unfolding explore_measure_def by (intro card_mono) auto

lemma explore_measure_visit:
  assumes "tile_id t \<notin> visited" and "set pushed \<subseteq> set (tiles b)"
  shows "explore_measure b (queue @ pushed) (insert (tile_id t) visited)
         < explore_measure b (t # queue) visited"
  unfolding explore_measure_def
proof (intro psubset_card_mono)
  show "finite (tile_id ` (set (tiles b) \<union> set (t # queue)) - visited)" by simp
  have "tile_id t \<in> tile_id ` (set (tiles b) \<union> set (t # queue)) - visited"
    using assms(1) by simp
  moreover have "tile_id t \<notin> tile_id ` (set (tiles b) \<union> set (queue @ pushed)) - insert (tile_id t) visited"
    by simp
  moreover have "tile_id ` (set (tiles b) \<union> set (queue @ pushed)) - insert (tile_id t) visited
        \<subseteq> tile_id ` (set (tiles b) \<union> set (t # queue)) - visited"
    using assms(2) by auto
  ultimately show "tile_id ` (set (tiles b) \<union> set (queue @ pushed)) - insert (tile_id t) visited
        \<subset> tile_id ` (set (tiles b) \<union> set (t # queue)) - visited"
    by blast
qed

lemma explore_pushed_subset:
  "set (concat (map (explore_push b t c visited) nbs)) \<subseteq> set (tiles b)"
  using explore_push_subset by fastforce

termination explore_loop
  apply (relation "measures [\<lambda>(b, queue, visited, far). explore_measure b queue visited,
                           \<lambda>(b, queue, visited, far). length queue]")
     apply simp
  subgoal for b t queue visited farthestCol
    using explore_measure_skip [of b queue visited t] by auto
  subgoal for b t queue visited farthestCol c
    using explore_measure_skip [of b queue visited t] by auto
  subgoal for b t queue visited farthestCol c
    using explore_measure_visit [OF _ explore_pushed_subset, of t visited b queue] by auto
  done

definition exploreBoard :: "board_state \<Rightarrow> int \<times> string set" where
  "exploreBoard b =
     (let startTile = find (\<lambda>t. tileType t = Start) (tiles b)
      in explore_loop b (case startTile of None \<Rightarrow> [] | Some t \<Rightarrow> [t]) {}
           (case startTile of None \<Rightarrow> 0 | Some t \<Rightarrow> col t))"

subsection \<open>Players, metrics and the room\<close>

type_synonym vec3 = "rat \<times> rat \<times> rat"

type_synonym quaternion = "rat \<times> rat \<times> rat \<times> rat"

record player_state =
  player_id :: string
  socketId :: string
  name :: string
  role :: role
  position :: vec3
  player_rotation :: quaternion
  hand :: "card_instance list"
  connected :: bool
  toolBroken :: bool
  suspicion :: rat
  score :: int

record metrics_state =
  deckRemaining :: nat
  progress :: rat
  collapsedTiles :: nat
  suspicionByPlayer :: "string \<rightharpoonup> rat"
  turnsTaken :: nat
  goldByPlayer :: "string \<rightharpoonup> int"
  round_no :: nat
  efficiencyByPlayer :: "string \<rightharpoonup> rat"
  activePlayerId :: "string option"
  turnEndsAt :: "int option"

text \<open>
  The room.  \<open>players\<close> is the JavaScript \<^verbatim>\<open>Map\<close> in insertion order; a player object
  is reached through its key.  \<open>turnTimer\<close> holds the expiry time of the armed timeout.
\<close>

record game_room =
  room_id :: string
  board :: board_state
  players :: "(string \<times> player_state) list"
  deck :: "card_instance list"
  discard :: "card_instance list"
  roundEnded :: bool
  roundNumber :: nat
  metrics :: metrics_state
  turnIndex :: nat
  turnTimer :: "int option"
  lastWinnerId :: "string option"
  lastAwards :: "(string \<rightharpoonup> int) option"
  lastWinners :: "string list option"
  lastWinningTeam :: "role option"

text \<open>What the environment answers during one call into the room.\<close>

record env =
  now :: int
  rand_gold :: rat
  rand_deck :: "nat \<Rightarrow> rat"
  uuids :: "nat \<Rightarrow> string"
  rand_roles :: "nat \<Rightarrow> rat"
  rand_nuggets :: "nat \<Rightarrow> rat"

datatype 'a result = Error string | Success 'a

text \<open>Truthiness of an optional string: \<^verbatim>\<open>null\<close>, \<^verbatim>\<open>undefined\<close> and \<^verbatim>\<open>''\<close> are falsy.\<close>

definition truthy :: "string option \<Rightarrow> bool" where
  "truthy x = (case x of None \<Rightarrow> False | Some v \<Rightarrow> v \<noteq> [])"

text \<open>\<^verbatim>\<open>obj[k] ?? 0\<close> and \<^verbatim>\<open>obj[k] || 0\<close> on an object of numbers.\<close>

definition or_zero :: "'a::zero option \<Rightarrow> 'a" where
  "or_zero x = (case x of None \<Rightarrow> 0 | Some v \<Rightarrow> v)"

definition clearTurnTimer :: "game_room \<Rightarrow> game_room" where
  "clearTurnTimer s = (if turnTimer s \<noteq> None then s\<lparr>turnTimer := None\<rparr> else s)"

definition setTurnTimer :: "env \<Rightarrow> game_room \<Rightarrow> game_room" where
  "setTurnTimer e s =
     (let s1 = clearTurnTimer s
      in if \<not> truthy (activePlayerId (metrics s1)) then s1
         else s1\<lparr>metrics := (metrics s1)\<lparr>turnEndsAt := Some (now e + 60000)\<rparr>,
                 turnTimer := Some (now e + 60000)\<rparr>)"

definition advanceTurn :: "env \<Rightarrow> game_room \<Rightarrow> game_room" where
  "advanceTurn e s =
     (let ids = map fst (players s)
      in if ids = [] then
           clearTurnTimer (s\<lparr>metrics := (metrics s)\<lparr>activePlayerId := None, turnEndsAt := None\<rparr>\<rparr>)
         else
           let currentIdx = (case activePlayerId (metrics s) of
                               None \<Rightarrow> None
                             | Some a \<Rightarrow> findIndex (\<lambda>k. k = a) ids);
               turnIndex0 = (case currentIdx of Some i \<Rightarrow> i | None \<Rightarrow> 0);
               turnIndex1 = (turnIndex0 + 1) mod length ids
           in setTurnTimer e
                (s\<lparr>turnIndex := turnIndex1,
                   metrics := (metrics s)\<lparr>activePlayerId := Some (ids ! turnIndex1)\<rparr>\<rparr>))"

definition maybeDeclareSaboteurWin :: "game_room \<Rightarrow> game_room" where
  "maybeDeclareSaboteurWin s =
     (if winningTeam (board s) = None \<and> deckRemaining (metrics s) = 0
      then s\<lparr>board := (board s)\<lparr>winningTeam := Some Saboteur\<rparr>\<rparr>
      else s)"

subsection \<open>Rewards and the end of a round\<close>

text \<open>
  One award: the player object under key \<open>k\<close> gets the value on its score, and the
  tallies \<^verbatim>\<open>goldByPlayer\<close> and \<^verbatim>\<open>awards\<close> get it under the player's id.
\<close>

definition award_to ::
  "string \<Rightarrow> string \<Rightarrow> int \<Rightarrow>
   (string \<times> player_state) list \<times> (string \<rightharpoonup> int) \<times> (string \<rightharpoonup> int) \<Rightarrow>
   (string \<times> player_state) list \<times> (string \<rightharpoonup> int) \<times> (string \<rightharpoonup> int)" where
  "award_to k pid v st =
     (case st of (ps, gold, awards) \<Rightarrow>
        (AList.map_entry k (\<lambda>p. p\<lparr>score := score p + v\<rparr>) ps,
         gold(pid \<mapsto> or_zero (gold pid) + v),
         awards(pid \<mapsto> or_zero (awards pid) + v)))"

text \<open>
  The order in which miners are dealt nuggets: the miners in join order, rotated so that
  the placer comes first when the placer is a miner.
\<close>

definition miner_order ::
  "string option \<Rightarrow> (string \<times> player_state) list \<Rightarrow> (string \<times> player_state) list" where
  "miner_order placerId miners =
     (if truthy placerId then
        (case findIndex (\<lambda>(k, m). Some (player_id m) = placerId) miners of
           Some startIdx \<Rightarrow> drop startIdx miners @ take startIdx miners
         | None \<Rightarrow> miners)
      else miners)"

text \<open>The \<^verbatim>\<open>nuggetCards.forEach\<close> and the \<^verbatim>\<open>sabos.forEach\<close> of \<^verbatim>\<open>applyRoundRewards\<close>.\<close>

definition deal_nuggets ::
  "(string \<times> player_state) list \<Rightarrow> int list \<Rightarrow>
   (string \<times> player_state) list \<times> (string \<rightharpoonup> int) \<times> (string \<rightharpoonup> int) \<Rightarrow>
   (string \<times> player_state) list \<times> (string \<rightharpoonup> int) \<times> (string \<rightharpoonup> int)" where
  "deal_nuggets order nuggetCards st =
     fold (\<lambda>(idx, v). award_to (fst (order ! (idx mod length order)))
                                (player_id (snd (order ! (idx mod length order)))) v)
          (enumerate 0 nuggetCards) st"

definition pay_saboteurs ::
  "(string \<times> player_state) list \<Rightarrow> int \<Rightarrow>
   (string \<times> player_state) list \<times> (string \<rightharpoonup> int) \<times> (string \<rightharpoonup> int) \<Rightarrow>
   (string \<times> player_state) list \<times> (string \<rightharpoonup> int) \<times> (string \<rightharpoonup> int)" where
  "pay_saboteurs sabos award st = fold (\<lambda>(k, p). award_to k (player_id p) award) sabos st"

text \<open>
  \<^verbatim>\<open>applyRoundRewards\<close>.  With a miner win, players in the room and no miner among
  them, \<^verbatim>\<open>order[idx % order.length]\<close> is \<^verbatim>\<open>undefined\<close> and reading its score
  throws.
\<close>

definition applyRoundRewards ::
  "env \<Rightarrow> string option \<Rightarrow> game_room \<Rightarrow>
   js_error + (game_room \<times> (string \<rightharpoonup> int) \<times> string list)" where
  "applyRoundRewards e placerId s =
     (let gold0 = goldByPlayer (metrics s);
          playersArr = players s;
          miners = filter (\<lambda>(k, p). role p = Miner) playersArr;
          sabos = filter (\<lambda>(k, p). role p = Saboteur) playersArr
      in if winningTeam (board s) = Some Miner then
           let nuggetCards = map (\<lambda>i. 1 + int (random_index (rand_nuggets e i) 3))
                                 [0..<length playersArr];
               order = miner_order placerId miners
           in if nuggetCards \<noteq> [] \<and> order = [] then Inl TypeError
              else
                (case deal_nuggets order nuggetCards (players s, gold0, Map.empty) of
                   (ps, gold, awards) \<Rightarrow>
                     Inr (s\<lparr>players := ps, metrics := (metrics s)\<lparr>goldByPlayer := gold\<rparr>\<rparr>,
                          awards, map (\<lambda>(k, p). player_id p) order))
         else if winningTeam (board s) = Some Saboteur then
           let award = (if length sabos = 1 then 4
                        else if length sabos = 2 \<or> length sabos = 3 then 3 else 2)
           in (case pay_saboteurs sabos award (players s, gold0, Map.empty) of
                 (ps, gold, awards) \<Rightarrow>
                   Inr (s\<lparr>players := ps, metrics := (metrics s)\<lparr>goldByPlayer := gold\<rparr>\<rparr>,
                        awards, map (\<lambda>(k, p). player_id p) sabos))
         else Inr (s\<lparr>metrics := (metrics s)\<lparr>goldByPlayer := gold0\<rparr>\<rparr>, Map.empty, []))"

definition maybeFinishRound :: "env \<Rightarrow> string option \<Rightarrow> game_room \<Rightarrow> js_error + game_room" where
  "maybeFinishRound e placerId s =
     (if roundEnded s then Inr s
      else if winningTeam (board s) \<noteq> None then
        (case applyRoundRewards e placerId (s\<lparr>roundEnded := True, lastWinnerId := placerId\<rparr>) of
           Inl err \<Rightarrow> Inl err
         | Inr (s1, awards, winners) \<Rightarrow>
             Inr (s1\<lparr>lastAwards := Some awards, lastWinners := Some winners,
                     lastWinningTeam := winningTeam (board s1)\<rparr>))
      else Inr s)"

subsection \<open>Drawing cards\<close>

text \<open>
  The loop of \<^verbatim>\<open>drawCards\<close>: \<^verbatim>\<open>deck.pop()\<close> takes the last card of the array and the
  loop stops when the deck is empty.  The result is the deck left and the hand.
\<close>

fun draw_loop ::
  "nat \<Rightarrow> card_instance list \<Rightarrow> card_instance list \<Rightarrow> card_instance list \<times> card_instance list" where
  "draw_loop 0 d h = (d, h)"
| "draw_loop (Suc n) d h = (if d = [] then (d, h) else draw_loop n (butlast d) (h @ [last d]))"

definition drawCards :: "env \<Rightarrow> string \<Rightarrow> nat \<Rightarrow> game_room \<Rightarrow> js_error + game_room" where
  "drawCards e k n s =
     (let h0 = (case map_of (players s) k of None \<Rightarrow> [] | Some p \<Rightarrow> hand p);
          (d, h) = draw_loop n (deck s) h0;
          s1 = s\<lparr>deck := d, players := AList.map_entry k (\<lambda>p. p\<lparr>hand := h\<rparr>) (players s)\<rparr>;
          s2 = s1\<lparr>metrics := (metrics s1)\<lparr>deckRemaining := length (deck s1)\<rparr>\<rparr>
      in maybeFinishRound e None (maybeDeclareSaboteurWin s2))"

subsection \<open>Telemetry\<close>

definition syncBoardTelemetry :: "game_room \<Rightarrow> game_room" where
  "syncBoardTelemetry s =
     (case exploreBoard (board s) of (farthestCol, visited) \<Rightarrow>
        let s1 = s\<lparr>metrics := (metrics s)\<lparr>progress := of_int farthestCol / of_nat (BOARD_COLUMNS - 1)\<rparr>\<rparr>;
            reached = (\<lambda>t. tileType t = Goal \<and> tile_id t \<in> visited);
            b1 = (board s1)
                   \<lparr>tiles := map (\<lambda>t. if reached t then t\<lparr>revealed := True\<rparr> else t) (tiles (board s1)),
                    winningTeam :=
                      (if list_ex (\<lambda>t. reached t \<and> tile_cardKey t = Some ''gold'') (tiles (board s1))
                       then Some Miner else winningTeam (board s1))\<rparr>;
            s2 = maybeDeclareSaboteurWin (s1\<lparr>board := b1\<rparr>)
        in s2\<lparr>metrics := (metrics s2)\<lparr>deckRemaining := length (deck s2)\<rparr>\<rparr>)"

subsection \<open>Joining, leaving, the players' view\<close>

definition initial_suspicion :: "role \<Rightarrow> rat" where
  "initial_suspicion r = (if r = Saboteur then 1 / 2 else 0)"

definition insertPlayer :: "env \<Rightarrow> string \<Rightarrow> string option \<Rightarrow> game_room \<Rightarrow> js_error + game_room" where
  "insertPlayer e sid nm s =
     (let playerCount = length (players s) + 1;
          roles = roleDistribution (rand_roles e) playerCount;
          r = roles ! (playerCount - 1);
          player = \<lparr>player_id = sid, socketId = sid,
                    name = (case nm of None \<Rightarrow> ''Dwarf-'' @ show_nat playerCount
                            | Some v \<Rightarrow> if v \<noteq> [] then v else ''Dwarf-'' @ show_nat playerCount),
                    role = r, position = (0, 8 / 5, 0), player_rotation = (0, 0, 0, 1),
                    hand = [], connected = True, toolBroken = False,
                    suspicion = initial_suspicion r, score = 0\<rparr>;
          s1 = s\<lparr>players := AList.update sid player (players s)\<rparr>;
          s2 = s1\<lparr>metrics := (metrics s1)
                  \<lparr>suspicionByPlayer := (suspicionByPlayer (metrics s1))(player_id player \<mapsto> suspicion player)\<rparr>\<rparr>
      in case drawCards e sid 5 s2 of
           Inl err \<Rightarrow> Inl err
         | Inr s3 \<Rightarrow>
             Inr (if \<not> truthy (activePlayerId (metrics s3))
                  then setTurnTimer e
                         (s3\<lparr>metrics := (metrics s3)\<lparr>activePlayerId := Some sid\<rparr>, turnIndex := 0\<rparr>)
                  else s3))"

definition removePlayer :: "env \<Rightarrow> string \<Rightarrow> game_room \<Rightarrow> game_room" where
  "removePlayer e i s =
     (let s1 = s\<lparr>players := AList.delete i (players s)\<rparr>;
          s2 = s1\<lparr>metrics := (metrics s1)\<lparr>suspicionByPlayer := (suspicionByPlayer (metrics s1))(i := None)\<rparr>\<rparr>
      in if activePlayerId (metrics s2) = Some i then advanceTurn e s2 else s2)"

definition updatePlayerPose :: "string \<Rightarrow> vec3 \<Rightarrow> quaternion \<Rightarrow> game_room \<Rightarrow> game_room" where
  "updatePlayerPose i pos rot s =
     (case map_of (players s) i of
        None \<Rightarrow> s
      | Some p \<Rightarrow> s\<lparr>players := AList.map_entry i (\<lambda>p. p\<lparr>position := pos, player_rotation := rot\<rparr>) (players s)\<rparr>)"

text \<open>A player as the others see it; \<open>snap_role = None\<close> is the string \<^verbatim>\<open>'unknown'\<close>.\<close>

record player_snapshot =
  snap_id :: string
  snap_name :: string
  snap_role :: "role option"
  snap_position :: vec3
  snap_rotation :: quaternion
  snap_connected :: bool
  snap_toolBroken :: bool
  snap_suspicion :: rat
  snap_score :: int

definition serializePlayers :: "game_room \<Rightarrow> string option \<Rightarrow> player_snapshot list" where
  "serializePlayers s requestingId =
     map (\<lambda>(k, player).
            \<lparr>snap_id = player_id player, snap_name = name player,
             snap_role = (if Some (player_id player) = requestingId then Some (role player) else None),
             snap_position = position player, snap_rotation = player_rotation player,
             snap_connected = connected player, snap_toolBroken = toolBroken player,
             snap_suspicion = or_zero (suspicionByPlayer (metrics s) (player_id player)),
             snap_score = score player\<rparr>)
         (players s)"

subsection \<open>Placing a path card\<close>

record card_placement_payload =
  cardInstanceId :: string
  payload_cardKey :: string
  payload_rotation :: int
  targetTileId :: string

record place_success =
  placed_card :: card_instance
  res_roundEnded :: bool
  placerId :: "string option"

text \<open>
  The body of the \<^verbatim>\<open>neighbors.forEach\<close> of \<^verbatim>\<open>placeCard\<close>; the pair is
  \<^verbatim>\<open>(hasValidAttachment, mismatch)\<close>.  A direction whose neighbour is missing or has no
  connectors returns at once.  \<open>connectors\<close> is what \<^verbatim>\<open>rotateConnectors\<close> returned;
  indexing \<^verbatim>\<open>undefined\<close> throws.
\<close>

definition attach_step ::
  "board_state \<Rightarrow> board_tile \<Rightarrow> connectors option \<Rightarrow> neighbor_dir \<Rightarrow> bool \<times> bool \<Rightarrow>
   js_error + bool \<times> bool" where
  "attach_step b t cs nb acc =
     (case neighbor_of b t nb of
        None \<Rightarrow> Inr acc
      | Some neighbor \<Rightarrow>
          (case tile_connectors neighbor of
             None \<Rightarrow> Inr acc
           | Some nc \<Rightarrow>
               (case cs of
                  None \<Rightarrow> Inl TypeError
                | Some c \<Rightarrow>
                    if connector_at c (dir_key nb) \<and> connector_at nc (opposite nb)
                    then Inr (True, snd acc)
                    else if connector_at c (dir_key nb) \<or> connector_at nc (opposite nb)
                    then Inr (fst acc, True)
                    else Inr acc)))"

fun attach_loop ::
  "board_state \<Rightarrow> board_tile \<Rightarrow> connectors option \<Rightarrow> neighbor_dir list \<Rightarrow> bool \<times> bool \<Rightarrow>
   js_error + bool \<times> bool" where
  "attach_loop b t cs [] acc = Inr acc"
| "attach_loop b t cs (nb # nbs) acc =
     (case attach_step b t cs nb acc of
        Inl err \<Rightarrow> Inl err
      | Inr acc' \<Rightarrow> attach_loop b t cs nbs acc')"

text \<open>
  \<^verbatim>\<open>placeCard\<close> after the connection test has passed: the tile, the hand, the discard
  pile and the metrics are updated, a card is drawn, the telemetry recomputed, the turn
  advanced and the end of the round checked.
\<close>

definition place_commit ::
  "env \<Rightarrow> string \<Rightarrow> card_placement_payload \<Rightarrow> card_instance \<Rightarrow> connectors option \<Rightarrow>
   rat \<Rightarrow> bool \<Rightarrow> game_room \<Rightarrow> js_error + (game_room \<times> place_success result)" where
  "place_commit e playerId payload card' cs prevProgress endedBefore s =
     (let s1 = s\<lparr>board := (board s)\<lparr>tiles :=
                 assign_first (\<lambda>t. tile_id t = targetTileId payload)
                   (\<lambda>t. t\<lparr>tileType := PathTile, tile_connectors := cs,
                           tile_cardKey := Some (cardKey card'),
                           tile_rotation := Some (payload_rotation payload),
                           revealed := True, ownerId := Some playerId\<rparr>)
                   (tiles (board s))\<rparr>\<rparr>;
          s2 = s1\<lparr>players := AList.map_entry playerId
                   (\<lambda>p. p\<lparr>hand := filter (\<lambda>c. instanceId c \<noteq> instanceId card') (hand p)\<rparr>)
                   (players s1)\<rparr>;
          s3 = s2\<lparr>discard := discard s2 @ [card']\<rparr>;
          s4 = s3\<lparr>metrics := (metrics s3)\<lparr>turnsTaken := turnsTaken (metrics s3) + 1\<rparr>\<rparr>;
          s5 = s4\<lparr>metrics := (metrics s4)\<lparr>suspicionByPlayer := (suspicionByPlayer (metrics s4))
                   (playerId \<mapsto> max 0 (or_zero (suspicionByPlayer (metrics s4) playerId) - 5 / 100))\<rparr>\<rparr>;
          deltaProgress = progress (metrics s5) - prevProgress;
          s6 = s5\<lparr>metrics := (metrics s5)\<lparr>efficiencyByPlayer := (efficiencyByPlayer (metrics s5))
                   (playerId \<mapsto> or_zero (efficiencyByPlayer (metrics s5) playerId) + deltaProgress)\<rparr>\<rparr>
      in case drawCards e playerId 1 s6 of
           Inl err \<Rightarrow> Inl err
         | Inr s7 \<Rightarrow>
             (case maybeFinishRound e (Some playerId) (advanceTurn e (syncBoardTelemetry s7)) of
                Inl err \<Rightarrow> Inl err
              | Inr s8 \<Rightarrow>
                  let justEnded = (\<not> endedBefore \<and> roundEnded s8)
                  in Inr (s8, Success \<lparr>placed_card = card', res_roundEnded = justEnded,
                                       placerId = (if justEnded then Some playerId else None)\<rparr>)))"

definition placeCard ::
  "env \<Rightarrow> string \<Rightarrow> card_placement_payload \<Rightarrow> game_room \<Rightarrow>
   js_error + (game_room \<times> place_success result)" where
  "placeCard e playerId payload s =
     (if truthy (activePlayerId (metrics s)) \<and> activePlayerId (metrics s) \<noteq> Some playerId
      then Inr (s, Error ''Not your turn'')
      else
        let endedBefore = roundEnded s
        in case map_of (players s) playerId of
             None \<Rightarrow> Inr (s, Error ''Unknown player'')
           | Some player \<Rightarrow>
               if toolBroken player then Inr (s, Error ''Tool broken'')
               else
                 (case find (\<lambda>c. instanceId c = cardInstanceId payload) (hand player) of
                    None \<Rightarrow> Inr (s, Error ''Card not available'')
                  | Some card' \<Rightarrow>
                      (case map_of CARD_LIBRARY (cardKey card') of
                         None \<Rightarrow> Inl TypeError
                       | Some def \<Rightarrow>
                           if category def \<noteq> Path then Inr (s, Error ''Not a path card'')
                           else
                             (case findTile (board s) (targetTileId payload) of
                                None \<Rightarrow> Inr (s, Error ''Invalid tile'')
                              | Some t \<Rightarrow>
                                  if tileType t = Start \<or> tileType t = Goal
                                  then Inr (s, Error ''Invalid tile'')
                                  else if tileType t = PathTile
                                  then Inr (s, Error ''Tile already filled'')
                                  else
                                    let cs = rotateConnectors (def_connectors def) (payload_rotation payload);
                                        prevProgress = progress (metrics s)
                                    in (case attach_loop (board s) t cs neighbors (False, False) of
                                          Inl err \<Rightarrow> Inl err
                                        | Inr (hasValidAttachment, mismatch) \<Rightarrow>
                                            if \<not> hasValidAttachment \<or> mismatch
                                            then Inr (s, Error ''Card does not connect cleanly'')
                                            else place_commit e playerId payload card' cs
                                                   prevProgress endedBefore s)))))"

subsection \<open>Rockfall and tool cards\<close>

text \<open>\<^verbatim>\<open>triggerRockfall\<close> after its checks have passed.\<close>

definition rockfall_commit ::
  "env \<Rightarrow> string \<Rightarrow> string \<Rightarrow> card_instance \<Rightarrow> game_room \<Rightarrow> js_error + (game_room \<times> unit result)" where
  "rockfall_commit e playerId target card' s =
     (let s1 = s\<lparr>board := (board s)\<lparr>tiles :=
                 assign_first (\<lambda>t. tile_id t = target)
                   (\<lambda>t. t\<lparr>tileType := Blocked, tile_connectors := None,
                           tile_cardKey := None, tile_rotation := None\<rparr>)
                   (tiles (board s))\<rparr>\<rparr>;
          s2 = s1\<lparr>players := AList.map_entry playerId
                 (\<lambda>p. p\<lparr>hand := filter (\<lambda>c. instanceId c \<noteq> instanceId card') (hand p)\<rparr>)
                 (players s1)\<rparr>;
          s3 = s2\<lparr>metrics := (metrics s2)
                 \<lparr>collapsedTiles := collapsedTiles (metrics s2) + 1,
                  turnsTaken := turnsTaken (metrics s2) + 1\<rparr>\<rparr>;
          s4 = s3\<lparr>metrics := (metrics s3)\<lparr>suspicionByPlayer := (suspicionByPlayer (metrics s3))
                 (playerId \<mapsto> min 1 (or_zero (suspicionByPlayer (metrics s3) playerId) + 15 / 100))\<rparr>\<rparr>
      in case drawCards e playerId 1 s4 of
           Inl err \<Rightarrow> Inl err
         | Inr s5 \<Rightarrow> Inr (advanceTurn e (syncBoardTelemetry s5), Success ()))"

definition triggerRockfall ::
  "env \<Rightarrow> string \<Rightarrow> string \<Rightarrow> game_room \<Rightarrow> js_error + (game_room \<times> unit result)" where
  "triggerRockfall e playerId target s =
     (if truthy (activePlayerId (metrics s)) \<and> activePlayerId (metrics s) \<noteq> Some playerId
      then Inr (s, Error ''Not your turn'')
      else
        case map_of (players s) playerId of
          None \<Rightarrow> Inr (s, Error ''Unknown player'')
        | Some player \<Rightarrow>
            (case find (\<lambda>c. cardKey c = ''rockfall'') (hand player) of
               None \<Rightarrow> Inr (s, Error ''No rockfall card'')
             | Some card' \<Rightarrow>
                 (case findTile (board s) target of
                    None \<Rightarrow> Inr (s, Error ''Tile is not a tunnel'')
                  | Some t \<Rightarrow>
                      if tileType t \<noteq> PathTile then Inr (s, Error ''Tile is not a tunnel'')
                      else rockfall_commit e playerId target card' s)))"

text \<open>
  \<^verbatim>\<open>applyToolEffect\<close> after its checks have passed.  Any card key other than
  \<^verbatim>\<open>'break'\<close> takes the \<^verbatim>\<open>else\<close> branch, the repair.
\<close>

definition tool_commit ::
  "env \<Rightarrow> string \<Rightarrow> string \<Rightarrow> string \<Rightarrow> card_instance \<Rightarrow> game_room \<Rightarrow>
   js_error + (game_room \<times> unit result)" where
  "tool_commit e actorId targetPlayerId ck card' s =
     (let s1 = (if ck = ''break'' then
                  s\<lparr>players := AList.map_entry targetPlayerId (\<lambda>p. p\<lparr>toolBroken := True\<rparr>) (players s),
                    metrics := (metrics s)\<lparr>suspicionByPlayer := (suspicionByPlayer (metrics s))
                      (actorId \<mapsto> min 1 (or_zero (suspicionByPlayer (metrics s) actorId) + 12 / 100))\<rparr>\<rparr>
                else
                  s\<lparr>players := AList.map_entry targetPlayerId (\<lambda>p. p\<lparr>toolBroken := False\<rparr>) (players s),
                    metrics := (metrics s)\<lparr>suspicionByPlayer := (suspicionByPlayer (metrics s))
                      (actorId \<mapsto> max 0 (or_zero (suspicionByPlayer (metrics s) actorId) - 4 / 100))\<rparr>\<rparr>);
          s2 = s1\<lparr>players := AList.map_entry actorId
                 (\<lambda>p. p\<lparr>hand := filter (\<lambda>c. instanceId c \<noteq> instanceId card') (hand p)\<rparr>)
                 (players s1)\<rparr>
      in case drawCards e actorId 1 s2 of
           Inl err \<Rightarrow> Inl err
         | Inr s3 \<Rightarrow>
             Inr (advanceTurn e
                    (s3\<lparr>metrics := (metrics s3)\<lparr>turnsTaken := turnsTaken (metrics s3) + 1\<rparr>\<rparr>),
                  Success ()))"

definition applyToolEffect ::
  "env \<Rightarrow> string \<Rightarrow> string \<Rightarrow> string \<Rightarrow> game_room \<Rightarrow> js_error + (game_room \<times> unit result)" where
  "applyToolEffect e actorId targetPlayerId ck s =
     (if truthy (activePlayerId (metrics s)) \<and> activePlayerId (metrics s) \<noteq> Some actorId
      then Inr (s, Error ''Not your turn'')
      else
        case (map_of (players s) actorId, map_of (players s) targetPlayerId) of
          (Some actor, Some target) \<Rightarrow>
            (case find (\<lambda>c. cardKey c = ck) (hand actor) of
               None \<Rightarrow> Inr (s, Error ''Card missing'')
             | Some card' \<Rightarrow> tool_commit e actorId targetPlayerId ck card' s)
        | _ \<Rightarrow> Inr (s, Error ''Players missing''))"

subsection \<open>Creating and restarting a room\<close>

definition newGameRoom :: "env \<Rightarrow> string \<Rightarrow> game_room" where
  "newGameRoom e i =
     (let d = generateDeck (uuids e) (rand_deck e)
      in syncBoardTelemetry
           \<lparr>room_id = i, board = createBoard (rand_gold e), players = [], deck = d, discard = [],
            roundEnded = False, roundNumber = 1,
            metrics = \<lparr>deckRemaining = length d, progress = 0, collapsedTiles = 0,
                       suspicionByPlayer = Map.empty, turnsTaken = 0, goldByPlayer = Map.empty,
                       round_no = 1, efficiencyByPlayer = Map.empty, activePlayerId = None,
                       turnEndsAt = None\<rparr>,
            turnIndex = 0, turnTimer = None, lastWinnerId = None, lastAwards = None,
            lastWinners = None, lastWinningTeam = None\<rparr>)"

text \<open>
  The body of the \<^verbatim>\<open>forEach\<close> of \<^verbatim>\<open>resetRoom\<close> for the player under key \<open>k\<close> at
  position \<open>idx\<close>.
\<close>

definition reset_player :: "env \<Rightarrow> role list \<Rightarrow> nat \<times> string \<Rightarrow> game_room \<Rightarrow> js_error + game_room" where
  "reset_player e roles ik s =
     (case ik of (idx, k) \<Rightarrow>
        let r = roles ! idx;
            s1 = s\<lparr>players := AList.map_entry k
                   (\<lambda>p. p\<lparr>role := r, position := (0, 8 / 5, 0), player_rotation := (0, 0, 0, 1),
                           hand := [], connected := True, toolBroken := False,
                           suspicion := initial_suspicion r, score := score p\<rparr>)
                   (players s)\<rparr>;
            s2 = (case map_of (players s1) k of
                    None \<Rightarrow> s1
                  | Some p \<Rightarrow> s1\<lparr>metrics := (metrics s1)\<lparr>suspicionByPlayer :=
                                 (suspicionByPlayer (metrics s1))(player_id p \<mapsto> suspicion p)\<rparr>\<rparr>)
        in drawCards e k 5 s2)"

fun reset_players :: "env \<Rightarrow> role list \<Rightarrow> (nat \<times> string) list \<Rightarrow> game_room \<Rightarrow> js_error + game_room" where
  "reset_players e roles [] s = Inr s"
| "reset_players e roles (ik # iks) s =
     (case reset_player e roles ik s of
        Inl err \<Rightarrow> Inl err
      | Inr s' \<Rightarrow> reset_players e roles iks s')"

definition resetRoom :: "env \<Rightarrow> game_room \<Rightarrow> js_error + game_room" where
  "resetRoom e s =
     (let d = generateDeck (uuids e) (rand_deck e);
          s1 = s\<lparr>board := createBoard (rand_gold e), deck := d, discard := [],
                 roundEnded := False, roundNumber := roundNumber s + 1,
                 lastAwards := Some Map.empty, lastWinnerId := None, lastWinningTeam := None\<rparr>;
          s2 = s1\<lparr>metrics :=
                 \<lparr>deckRemaining = length (deck s1), progress = 0, collapsedTiles = 0,
                  suspicionByPlayer = Map.empty, turnsTaken = 0,
                  goldByPlayer = goldByPlayer (metrics s1), round_no = roundNumber s1,
                  efficiencyByPlayer = Map.empty, activePlayerId = None, turnEndsAt = None\<rparr>\<rparr>;
          s3 = (clearTurnTimer s2)\<lparr>turnIndex := 0\<rparr>;
          roles = roleDistribution (rand_roles e) (length (players s3))
      in case reset_players e roles (enumerate 0 (map fst (players s3))) s3 of
           Inl err \<Rightarrow> Inl err
         | Inr s4 \<Rightarrow>
             let ids = map fst (players s4);
                 s5 = (if ids \<noteq> [] then
                         setTurnTimer e (s4\<lparr>metrics := (metrics s4)\<lparr>activePlayerId := Some (hd ids)\<rparr>\<rparr>)
                       else s4)
             in Inr (syncBoardTelemetry s5))"

subsection \<open>The room as a state machine\<close>

text \<open>
  What the transport asks of a room: the socket handlers \<^verbatim>\<open>ready\<close>,
  \<^verbatim>\<open>disconnect\<close>, \<^verbatim>\<open>playerMove\<close>, \<^verbatim>\<open>placeCard\<close>, \<^verbatim>\<open>rockfall\<close>,
  \<^verbatim>\<open>toolEffect\<close> and \<^verbatim>\<open>restart\<close>, and the turn timeout.
\<close>

datatype action =
    Join string "string option"
  | Leave string
  | Move string vec3 quaternion
  | Place string card_placement_payload
  | Rock string string
  | Tool string string string
  | Restart
  | TurnTimeout

fun step :: "env \<Rightarrow> action \<Rightarrow> game_room \<Rightarrow> js_error + game_room" where
  "step e (Join sid nm) s = insertPlayer e sid nm s"
| "step e (Leave sid) s = Inr (removePlayer e sid s)"
| "step e (Move sid pos rot) s = Inr (updatePlayerPose sid pos rot s)"
| "step e (Place sid payload) s = map_sum id fst (placeCard e sid payload s)"
| "step e (Rock sid target) s = map_sum id fst (triggerRockfall e sid target s)"
| "step e (Tool sid target ck) s = map_sum id fst (applyToolEffect e sid target ck s)"
| "step e Restart s = resetRoom e s"
| "step e TurnTimeout s = Inr (advanceTurn e s)"

fun run :: "(env \<times> action) list \<Rightarrow> game_room \<Rightarrow> js_error + game_room" where
  "run [] s = Inr s"
| "run ((e, a) # rest) s = (case step e a s of Inl err \<Rightarrow> Inl err | Inr s' \<Rightarrow> run rest s')"

section \<open>Notions used to state the properties\<close>

text \<open>The players without their hands and scores: what drawing and rewarding leave alone.\<close>

definition players_core :: "(string \<times> player_state) list \<Rightarrow> (string \<times> player_state) list" where
  "players_core ps = map (\<lambda>(k, p). (k, p\<lparr>hand := [], score := 0\<rparr>)) ps"

definition count_role :: "role \<Rightarrow> role list \<Rightarrow> nat" where
  "count_role r rs = length (filter (\<lambda>x. x = r) rs)"

definition is_success :: "js_error + (game_room \<times> 'a result) \<Rightarrow> bool" where
  "is_success r = (case r of Inr (s, Success x) \<Rightarrow> True | _ \<Rightarrow> False)"

definition is_error :: "js_error + (game_room \<times> 'a result) \<Rightarrow> bool" where
  "is_error r = (case r of Inr (s, Error m) \<Rightarrow> True | _ \<Rightarrow> False)"

text \<open>A concrete environment and the rooms it leads to.\<close>

definition demo_env :: env where
  "demo_env = \<lparr>now = 0, rand_gold = 0, rand_deck = (\<lambda>i. 0),
                uuids = (\<lambda>i. ''card-'' @ show_nat i), rand_roles = (\<lambda>i. 0),
                rand_nuggets = (\<lambda>i. 0)\<rparr>"

definition demo_room :: game_room where
  "demo_room = newGameRoom demo_env ''default-room''"

text \<open>The room after \<^verbatim>\<open>alice\<close> has joined: her hand is one straight tunnel and four repairs.\<close>

definition alice_room :: game_room where
  "alice_room = projr (insertPlayer demo_env ''alice'' None demo_room)"

definition straight_to_3_1 :: card_placement_payload where
  "straight_to_3_1 = \<lparr>cardInstanceId = ''card-0'', payload_cardKey = ''straight'',
                        payload_rotation = 0, targetTileId = ''3-1''\<rparr>"


text \<open>A room whose gold goal is in the middle row, with a tunnel dug from the start to it.\<close>

definition gold_env :: env where
  "gold_env = demo_env\<lparr>rand_gold := 1 / 2\<rparr>"

definition tunnel_board :: board_state where
  "tunnel_board =
     (let b = createBoard (rand_gold gold_env)
      in b\<lparr>tiles :=
             map (\<lambda>t. if row t = 3 \<and> 1 \<le> col t \<and> col t \<le> 7
                       then t\<lparr>tileType := PathTile,
                              tile_connectors := Some \<lparr>north = False, east = True, south = False, west = True\<rparr>,
                              tile_cardKey := Some ''straight'', tile_rotation := Some 0,
                              revealed := True\<rparr>
                       else t)
                 (tiles b)\<rparr>)"

definition tunnel_room :: game_room where
  "tunnel_room = (newGameRoom gold_env ''default-room'')\<lparr>board := tunnel_board\<rparr>"

text \<open>
  The tunnel room with one player, \<^verbatim>\<open>bob\<close>, a saboteur under heavy suspicion who holds a
  rockfall and a break card and whose turn it is.
\<close>

definition bob_room :: game_room where
  "bob_room =
     tunnel_room
       \<lparr>players :=
          [(''bob'', \<lparr>player_id = ''bob'', socketId = ''bob'', name = ''Bob'', role = Saboteur,
              position = (0, 8 / 5, 0), player_rotation = (0, 0, 0, 1),
              hand = [\<lparr>instanceId = ''card-43'', cardKey = ''rockfall'', rotation = 0\<rparr>,
                      \<lparr>instanceId = ''card-48'', cardKey = ''break'', rotation = 0\<rparr>],
              connected = True, toolBroken = False, suspicion = 1 / 2, score = 0\<rparr>)],
        metrics := (metrics tunnel_room)
          \<lparr>suspicionByPlayer := [''bob'' \<mapsto> 19 / 20], activePlayerId := Some ''bob''\<rparr>\<rparr>"

text \<open>
  A room of two players in the middle of a round: \<^verbatim>\<open>ann\<close>, a miner, and \<^verbatim>\<open>ben\<close>, a
  saboteur who has drawn suspicion.  \<^verbatim>\<open>cat_room\<close> is that room once \<^verbatim>\<open>cat\<close> has joined.
\<close>

definition seated :: "string \<Rightarrow> role \<Rightarrow> string \<times> player_state" where
  "seated i r =
     (i, \<lparr>player_id = i, socketId = i, name = i, role = r,
          position = (0, 8 / 5, 0), player_rotation = (0, 0, 0, 1),
          hand = [], connected = True, toolBroken = False,
          suspicion = initial_suspicion r, score = 0\<rparr>)"

definition duo_room :: game_room where
  "duo_room =
     demo_room
       \<lparr>players := [seated ''ann'' Miner, seated ''ben'' Saboteur],
        metrics := (metrics demo_room)
          \<lparr>suspicionByPlayer := [''ann'' \<mapsto> 0, ''ben'' \<mapsto> 77 / 100],
           activePlayerId := Some ''ann''\<rparr>\<rparr>"

definition cat_room :: game_room where
  "cat_room = projr (insertPlayer demo_env ''cat'' None duo_room)"

text \<open>
  The connection test of \<^verbatim>\<open>placeCard\<close>, direction by direction.  A direction attaches
  when its neighbour has connectors and both sides of the edge are open; it is a mismatch
  when its neighbour has connectors and exactly one side is open.
\<close>

definition attaches :: "board_state \<Rightarrow> board_tile \<Rightarrow> connectors \<Rightarrow> neighbor_dir \<Rightarrow> bool" where
  "attaches b t c nb =
     (case neighbor_of b t nb of
        None \<Rightarrow> False
      | Some n \<Rightarrow> (case tile_connectors n of
                     None \<Rightarrow> False
                   | Some nc \<Rightarrow> connector_at c (dir_key nb) \<and> connector_at nc (opposite nb)))"

definition mismatches :: "board_state \<Rightarrow> board_tile \<Rightarrow> connectors \<Rightarrow> neighbor_dir \<Rightarrow> bool" where
  "mismatches b t c nb =
     (case neighbor_of b t nb of
        None \<Rightarrow> False
      | Some n \<Rightarrow> (case tile_connectors n of
                     None \<Rightarrow> False
                   | Some nc \<Rightarrow> connector_at c (dir_key nb) \<noteq> connector_at nc (opposite nb)))"

definition connects_cleanly :: "board_state \<Rightarrow> board_tile \<Rightarrow> connectors \<Rightarrow> bool" where
  "connects_cleanly b t c =
     (list_ex (attaches b t c) neighbors \<and> \<not> list_ex (mismatches b t c) neighbors)"

text \<open>
  The connection test as the specification words it: the far side of an edge counts as
  closed when there is no neighbour (edge of the board) or the neighbour has no
  connectors, and a direction is a mismatch when exactly one side is open.
\<close>

definition neighbor_open :: "board_state \<Rightarrow> board_tile \<Rightarrow> neighbor_dir \<Rightarrow> bool" where
  "neighbor_open b t nb =
     (case neighbor_of b t nb of
        None \<Rightarrow> False
      | Some n \<Rightarrow> (case tile_connectors n of
                     None \<Rightarrow> False
                   | Some nc \<Rightarrow> connector_at nc (opposite nb)))"

definition claimed_mismatch :: "board_state \<Rightarrow> board_tile \<Rightarrow> connectors \<Rightarrow> neighbor_dir \<Rightarrow> bool" where
  "claimed_mismatch b t c nb = (connector_at c (dir_key nb) \<noteq> neighbor_open b t nb)"

definition claimed_connects :: "board_state \<Rightarrow> board_tile \<Rightarrow> connectors \<Rightarrow> bool" where
  "claimed_connects b t c =
     (list_ex (attaches b t c) neighbors \<and> \<not> list_ex (claimed_mismatch b t c) neighbors)"

definition has_miner :: "game_room \<Rightarrow> bool" where
  "has_miner s = list_ex (\<lambda>(k, p). role p = Miner) (players s)"

text \<open>
  The tile a placement writes, and the board with it: the \<^verbatim>\<open>Object.assign(tile, ...)\<close> of
  \<^verbatim>\<open>placeCard\<close>.
\<close>

definition placed_tile ::
  "string \<Rightarrow> card_placement_payload \<Rightarrow> card_instance \<Rightarrow> connectors \<Rightarrow> board_tile \<Rightarrow> board_tile" where
  "placed_tile pid payload crd c t =
     t\<lparr>tileType := PathTile, tile_connectors := Some c, tile_cardKey := Some (cardKey crd),
       tile_rotation := Some (payload_rotation payload), revealed := True, ownerId := Some pid\<rparr>"

definition placed_board ::
  "board_state \<Rightarrow> string \<Rightarrow> card_placement_payload \<Rightarrow> card_instance \<Rightarrow> connectors \<Rightarrow> board_state" where
  "placed_board b pid payload crd c =
     b\<lparr>tiles := assign_first (\<lambda>t. tile_id t = targetTileId payload)
                   (placed_tile pid payload crd c) (tiles b)\<rparr>"

text \<open>The search from the start tile reaches the gold goal.\<close>

definition gold_reached :: "board_state \<Rightarrow> bool" where
  "gold_reached b =
     list_ex (\<lambda>t. tileType t = Goal \<and> tile_id t \<in> snd (exploreBoard b)
                  \<and> tile_cardKey t = Some ''gold'') (tiles b)"

text \<open>
  The rooms in which \<^verbatim>\<open>maybeFinishRound\<close> throws: the round is not settled, the miners
  have won, and the room has players but no miner, so \<^verbatim>\<open>applyRoundRewards\<close> reads the
  score of \<^verbatim>\<open>undefined\<close>.
\<close>

definition settlement_throws :: "game_room \<Rightarrow> bool" where
  "settlement_throws s =
     (\<not> roundEnded s \<and> winningTeam (board s) = Some Miner \<and> players s \<noteq> [] \<and> \<not> has_miner s)"

text \<open>
  The placements during which that happens: in a room without a miner whose round is
  not settled, the miners have won already, or nobody has, the draw leaves a card in the
  deck and the board with the new tile reaches the gold goal.
\<close>

definition placement_slip :: "game_room \<Rightarrow> board_state \<Rightarrow> bool" where
  "placement_slip s b =
     (\<not> has_miner s \<and> \<not> roundEnded s
      \<and> (winningTeam (board s) = Some Miner
         \<or> (winningTeam (board s) = None \<and> 2 \<le> length (deck s) \<and> gold_reached b)))"

text \<open>
  The room a placement hands to \<^verbatim>\<open>drawCards\<close>: the tile written, the card moved from
  the hand to the discard pile, the turn counted and the two metrics of the placer updated.
\<close>

definition place_mutated ::
  "string \<Rightarrow> card_placement_payload \<Rightarrow> card_instance \<Rightarrow> connectors option \<Rightarrow> rat \<Rightarrow> game_room \<Rightarrow> game_room" where
  "place_mutated pid payload c cs pp s =
     s\<lparr>board := (board s)\<lparr>tiles :=
                 assign_first (\<lambda>t. tile_id t = targetTileId payload)
                   (\<lambda>t. t\<lparr>tileType := PathTile, tile_connectors := cs,
                           tile_cardKey := Some (cardKey c),
                           tile_rotation := Some (payload_rotation payload),
                           revealed := True, ownerId := Some pid\<rparr>)
                   (tiles (board s))\<rparr>,
       players := AList.map_entry pid
                   (\<lambda>p. p\<lparr>hand := filter (\<lambda>x. instanceId x \<noteq> instanceId c) (hand p)\<rparr>)
                   (players s),
       discard := discard s @ [c],
       metrics := (metrics s)
         \<lparr>turnsTaken := turnsTaken (metrics s) + 1,
          suspicionByPlayer := (suspicionByPlayer (metrics s))
             (pid \<mapsto> max 0 (or_zero (suspicionByPlayer (metrics s) pid) - 5 / 100)),
          efficiencyByPlayer := (efficiencyByPlayer (metrics s))
             (pid \<mapsto> or_zero (efficiencyByPlayer (metrics s) pid) + (progress (metrics s) - pp))\<rparr>\<rparr>"

text \<open>The hand of each player in the room, by key.\<close>

definition hands_of :: "(string \<times> player_state) list \<Rightarrow> (string \<times> card_instance list) list" where
  "hands_of ps = map (\<lambda>(k, p). (k, hand p)) ps"

text \<open>The score of each player in the room, by key.\<close>

definition player_scores :: "game_room \<Rightarrow> (string \<rightharpoonup> int)" where
  "player_scores s = map_of (map (\<lambda>(k, p). (k, score p)) (players s))"

definition unit_interval :: "rat \<Rightarrow> bool" where
  "unit_interval v = (0 \<le> v \<and> v \<le> 1)"

text \<open>Suspicion values, in the metrics and on the player objects, lie in \<open>[0, 1]\<close>.\<close>

definition suspicion_ok :: "game_room \<Rightarrow> bool" where
  "suspicion_ok s =
     ((\<forall>k v. suspicionByPlayer (metrics s) k = Some v \<longrightarrow> 0 \<le> v \<and> v \<le> 1)
      \<and> list_all (\<lambda>(k, p). 0 \<le> suspicion p \<and> suspicion p \<le> 1) (players s))"

text \<open>Every efficiency entry is zero.\<close>

definition efficiency_zero :: "game_room \<Rightarrow> bool" where
  "efficiency_zero s = (\<forall>k v. efficiencyByPlayer (metrics s) k = Some v \<longrightarrow> v = 0)"

text \<open>
  The keys of the player map are distinct and each player object carries its key as its
  id, as \<^verbatim>\<open>players.set(socket.id, player)\<close> makes them.
\<close>

definition room_wf :: "game_room \<Rightarrow> bool" where
  "room_wf s =
     (distinct (map fst (players s)) \<and> list_all (\<lambda>(k, p). player_id p = k) (players s))"

text \<open>The id, the role and the suspicion of each player, by key.\<close>

definition player_traits ::
  "(string \<times> player_state) list \<Rightarrow> (string \<times> string \<times> role \<times> rat) list" where
  "player_traits ps = map (\<lambda>(k, p). (k, player_id p, role p, suspicion p)) ps"

text \<open>
  The players under the keys \<open>K\<close> have the suspicion their role starts with, on the
  player object and in the metrics.
\<close>

definition fresh_on :: "string set \<Rightarrow> game_room \<Rightarrow> bool" where
  "fresh_on K s =
     list_all (\<lambda>(k, i, r, u). k \<in> K \<longrightarrow>
                 u = initial_suspicion r
                 \<and> suspicionByPlayer (metrics s) k = Some (initial_suspicion r))
              (player_traits (players s))"

text \<open>What an observer reads off a serialized player at the start of a round.\<close>

definition infer_role :: "player_snapshot \<Rightarrow> role" where
  "infer_role v = (if snap_suspicion v = 1 / 2 then Saboteur else Miner)"


section \<open>Properties\<close>

subsection \<open>The example rooms\<close>

lemma alice_room_board: "board alice_room = createBoard 0"
  by code_simp

lemma alice_room_active: "activePlayerId (metrics alice_room) = Some ''alice''"
  by code_simp

lemma alice_room_players:
  "players alice_room =
     [(''alice'', \<lparr>player_id = ''alice'', socketId = ''alice'', name = ''Dwarf-1'', role = Miner,
        position = (0, 8 / 5, 0), player_rotation = (0, 0, 0, 1),
        hand = [\<lparr>instanceId = ''card-0'', cardKey = ''straight'', rotation = 0\<rparr>,
                \<lparr>instanceId = ''card-58'', cardKey = ''repair'', rotation = 0\<rparr>,
                \<lparr>instanceId = ''card-57'', cardKey = ''repair'', rotation = 0\<rparr>,
                \<lparr>instanceId = ''card-56'', cardKey = ''repair'', rotation = 0\<rparr>,
                \<lparr>instanceId = ''card-55'', cardKey = ''repair'', rotation = 0\<rparr>],
        connected = True, toolBroken = False, suspicion = 0, score = 0\<rparr>)]"
  by code_simp

lemma tunnel_room_board: "board tunnel_room = tunnel_board"
  by (simp add: tunnel_room_def)

lemma alice_room_joined:
  "insertPlayer demo_env ''alice'' None demo_room = Inr alice_room"
proof -
  have "\<not> isl (insertPlayer demo_env ''alice'' None demo_room)" by code_simp
  then show ?thesis
    by (cases "insertPlayer demo_env ''alice'' None demo_room") (simp_all add: alice_room_def)
qed

lemma alice_places_straight:
  "is_success (placeCard demo_env ''alice'' straight_to_3_1 alice_room)"
  by code_simp

lemma is_successE:
  assumes "is_success r"
  obtains s x where "r = Inr (s, Success x)"
  using assms by (auto simp: is_success_def split: sum.splits prod.splits result.splits)

subsection \<open>Rotation\<close>

lemma neg_mod4: "(- r) mod 4 = (if r mod 4 = 0 then 0 else 4 - r mod (4::int))"
  by presburger

lemma sub_mod4: "(4 - r) mod 4 = (if r mod 4 = 0 then 0 else 4 - r mod (4::int))"
  by presburger

lemma steps_mod: "nat (((r smod 4) + 4) smod 4) = nat (r mod 4)"
proof -
  have a: "r mod 4 = 0 \<or> r mod 4 = 1 \<or> r mod 4 = 2 \<or> r mod 4 = 3" by presburger
  have b: "r smod 4 = (if r < 0 then - ((- r) mod 4) else r mod 4)"
    by (simp add: signed_modulo_int_def sgn_if)
  have d: "0 \<le> x \<Longrightarrow> x smod 4 = x mod 4" for x :: int
    by (simp add: signed_modulo_int_def sgn_if)
  show ?thesis unfolding b neg_mod4 using a by (auto simp: d)
qed

lemma rotate_loop_add: "rotate_loop (m + n) c = rotate_loop n (rotate_loop m c)"
  by (induction m arbitrary: c) simp_all

lemma rotate_loop_4: "rotate_loop 4 c = c"
  by (simp add: numeral_eq_Suc rotate_once_def)

lemma rotate_loop_mod4: "rotate_loop n c = rotate_loop (n mod 4) c"
proof (induction n rule: less_induct)
  case (less n)
  show ?case
  proof (cases "n < 4")
    case True
    then show ?thesis by simp
  next
    case False
    then have n: "n = 4 + (n - 4)" by simp
    have "rotate_loop n c = rotate_loop (n - 4) (rotate_loop 4 c)"
      by (subst n) (rule rotate_loop_add)
    also have "\<dots> = rotate_loop (n - 4) c" by (simp only: rotate_loop_4)
    also have "\<dots> = rotate_loop ((n - 4) mod 4) c" using False by (intro less) simp
    also have "(n - 4) mod 4 = n mod 4" using False by presburger
    finally show ?thesis .
  qed
qed

lemma steps_sum: "(nat (r mod 4) + nat ((4 - r) mod 4)) mod 4 = 0"
proof -
  have a: "r mod 4 = 0 \<or> r mod 4 = 1 \<or> r mod 4 = 2 \<or> r mod 4 = 3" by presburger
  show ?thesis unfolding sub_mod4 using a by auto
qed

text \<open>
  C7. Rotating by \<open>r\<close> and then by \<open>4 - r\<close> gives back the connector set, rotating by
  four quarter turns is the identity, and the result is undefined exactly when the
  connectors given are undefined.
\<close>

theorem rotateConnectors_roundtrip:
  "rotateConnectors (rotateConnectors c r) (4 - r) = c
   \<and> rotateConnectors c 4 = c
   \<and> (rotateConnectors c r = None \<longleftrightarrow> c = None)"
proof (cases c)
  case None
  then show ?thesis by (simp add: rotateConnectors_def)
next
  case (Some x)
  have "rotate_loop (nat ((4 - r) mod 4)) (rotate_loop (nat (r mod 4)) x)
        = rotate_loop (nat (r mod 4) + nat ((4 - r) mod 4)) x"
    by (simp add: rotate_loop_add)
  also have "\<dots> = rotate_loop ((nat (r mod 4) + nat ((4 - r) mod 4)) mod 4) x"
    by (rule rotate_loop_mod4)
  also have "\<dots> = x" by (simp only: steps_sum rotate_loop.simps)
  finally have rt: "rotate_loop (nat ((4 - r) mod 4)) (rotate_loop (nat (r mod 4)) x) = x" .
  have four: "nat (((4 smod 4) + 4) smod 4) = (0::nat)"
    by (simp add: steps_mod)
  show ?thesis
    using Some rt by (simp add: rotateConnectors_def steps_mod Let_def)
qed

subsection \<open>What rewarding and finishing a round change\<close>

lemma players_core_map_entry_score [simp]:
  "players_core (AList.map_entry k (\<lambda>p. p\<lparr>score := f p\<rparr>) ps) = players_core ps"
  by (induction ps) (auto simp: players_core_def)

lemma players_core_map_entry_hand [simp]:
  "players_core (AList.map_entry k (\<lambda>p. p\<lparr>hand := f p\<rparr>) ps) = players_core ps"
  by (induction ps) (auto simp: players_core_def)

lemma award_to_core [simp]: "players_core (fst (award_to k i v st)) = players_core (fst st)"
  by (cases st) (simp add: award_to_def)

lemma fold_award_core:
  assumes "\<And>x st. \<exists>k i v. f x st = award_to k i v st"
  shows "players_core (fst (fold f xs st)) = players_core (fst st)"
proof (induction xs arbitrary: st)
  case Nil
  show ?case by simp
next
  case (Cons x xs)
  obtain k i v where "f x st = award_to k i v st" using assms by blast
  then show ?case using Cons.IH [of "f x st"] by simp
qed

lemma deal_nuggets_core [simp]:
  "players_core (fst (deal_nuggets order ns st)) = players_core (fst st)"
  unfolding deal_nuggets_def by (rule fold_award_core) auto

lemma pay_saboteurs_core [simp]:
  "players_core (fst (pay_saboteurs sabos award st)) = players_core (fst st)"
  unfolding pay_saboteurs_def by (rule fold_award_core) auto

lemma applyRoundRewards_frame:
  assumes "applyRoundRewards e pl s = Inr (s', aw, ws)"
  shows "s' = s\<lparr>players := players s', metrics := (metrics s)\<lparr>goldByPlayer := goldByPlayer (metrics s')\<rparr>\<rparr>
         \<and> players_core (players s') = players_core (players s)"
proof -
  consider (miner) "winningTeam (board s) = Some Miner"
    | (sab) "winningTeam (board s) = Some Saboteur"
    | (none) "winningTeam (board s) = None"
    by (metis option.exhaust role.exhaust)
  then show ?thesis
  proof cases
    case miner
    let ?ns = "map (\<lambda>i. 1 + int (random_index (rand_nuggets e i) 3)) [0..<length (players s)]"
    let ?ord = "miner_order pl (filter (\<lambda>(k, p). role p = Miner) (players s))"
    let ?st = "deal_nuggets ?ord ?ns (players s, goldByPlayer (metrics s), Map.empty)"
    obtain ps g a where st: "?st = (ps, g, a)" by (cases ?st) auto
    have "players_core (fst ?st) = players_core (players s)" by simp
    with st have core: "players_core ps = players_core (players s)" by simp
    from assms miner st have "s' = s\<lparr>players := ps, metrics := (metrics s)\<lparr>goldByPlayer := g\<rparr>\<rparr>"
      by (simp add: applyRoundRewards_def Let_def split: if_splits)
    with core show ?thesis by simp
  next
    case sab
    let ?sabos = "filter (\<lambda>(k, p). role p = Saboteur) (players s)"
    let ?aw = "if length ?sabos = 1 then 4 else if length ?sabos = 2 \<or> length ?sabos = 3 then 3 else (2::int)"
    let ?st = "pay_saboteurs ?sabos ?aw (players s, goldByPlayer (metrics s), Map.empty)"
    obtain ps g a where st: "?st = (ps, g, a)" by (cases ?st) auto
    have "players_core (fst ?st) = players_core (players s)" by simp
    with st have core: "players_core ps = players_core (players s)" by simp
    from assms sab st have "s' = s\<lparr>players := ps, metrics := (metrics s)\<lparr>goldByPlayer := g\<rparr>\<rparr>"
      by (simp add: applyRoundRewards_def Let_def split: if_splits)
    with core show ?thesis by simp
  next
    case none
    with assms have "s' = s\<lparr>players := players s, metrics := (metrics s)\<lparr>goldByPlayer := goldByPlayer (metrics s)\<rparr>\<rparr>"
      by (simp add: applyRoundRewards_def Let_def)
    then show ?thesis by simp
  qed
qed

lemma find_index_from_bounds:
  "find_index_from n P xs = Some i \<Longrightarrow> n \<le> i \<and> i < n + length xs"
  by (induction xs arbitrary: n) (fastforce split: if_splits)+

lemma findIndex_less: "findIndex P xs = Some i \<Longrightarrow> i < length xs"
  using find_index_from_bounds [of 0 P xs i] by (simp add: findIndex_def)

lemma miner_order_Nil: "miner_order pl ms = [] \<longleftrightarrow> ms = []"
  by (auto simp: miner_order_def split: option.splits dest: findIndex_less)


lemma applyRoundRewards_throws:
  "applyRoundRewards e pl s = Inl err \<longleftrightarrow>
     winningTeam (board s) = Some Miner \<and> players s \<noteq> []
     \<and> filter (\<lambda>(k, p). role p = Miner) (players s) = []"
proof (cases "winningTeam (board s) = Some Miner")
  case True
  then show ?thesis
    by (cases err) (auto simp: applyRoundRewards_def Let_def miner_order_Nil split: prod.splits)
next
  case False
  then show ?thesis
    by (simp add: applyRoundRewards_def Let_def split: prod.splits)
qed

lemma maybeFinishRound_frame:
  assumes "maybeFinishRound e pl s = Inr s'"
  shows "s' = s\<lparr>players := players s', metrics := (metrics s)\<lparr>goldByPlayer := goldByPlayer (metrics s')\<rparr>,
                roundEnded := roundEnded s', lastWinnerId := lastWinnerId s',
                lastAwards := lastAwards s', lastWinners := lastWinners s',
                lastWinningTeam := lastWinningTeam s'\<rparr>
         \<and> players_core (players s') = players_core (players s)
         \<and> (roundEnded s \<longrightarrow> s' = s)
         \<and> (winningTeam (board s) \<noteq> None \<longrightarrow> roundEnded s')"
proof (cases "roundEnded s \<or> winningTeam (board s) = None")
  case True
  with assms have "s' = s" by (auto simp: maybeFinishRound_def split: if_splits)
  with True show ?thesis by auto
next
  case False
  let ?s0 = "s\<lparr>roundEnded := True, lastWinnerId := pl\<rparr>"
  from False assms obtain s1 aw ws where r: "applyRoundRewards e pl ?s0 = Inr (s1, aw, ws)"
    and s': "s' = s1\<lparr>lastAwards := Some aw, lastWinners := Some ws, lastWinningTeam := winningTeam (board s1)\<rparr>"
    by (auto simp: maybeFinishRound_def split: sum.splits)
  note f = applyRoundRewards_frame [OF r]
  from f have s1: "s1 = ?s0\<lparr>players := players s1, metrics := (metrics ?s0)\<lparr>goldByPlayer := goldByPlayer (metrics s1)\<rparr>\<rparr>"
    by (rule conjunct1)
  from f have core: "players_core (players s1) = players_core (players s)" by simp
  have "s' = s\<lparr>players := players s1, metrics := (metrics s)\<lparr>goldByPlayer := goldByPlayer (metrics s1)\<rparr>, roundEnded := True,
                  lastWinnerId := pl, lastAwards := Some aw, lastWinners := Some ws,
                  lastWinningTeam := winningTeam (board s)\<rparr>"
    unfolding s' by (subst s1, subst (3) s1) simp
  then show ?thesis using core False by simp
qed

lemma maybeFinishRound_fields:
  assumes "maybeFinishRound e pl s = Inr s'"
  shows "board s' = board s" and "deck s' = deck s" and "discard s' = discard s"
    and "suspicionByPlayer (metrics s') = suspicionByPlayer (metrics s)"
    and "efficiencyByPlayer (metrics s') = efficiencyByPlayer (metrics s)"
    and "progress (metrics s') = progress (metrics s)"
    and "activePlayerId (metrics s') = activePlayerId (metrics s)"
    and "deckRemaining (metrics s') = deckRemaining (metrics s)"
    and "players_core (players s') = players_core (players s)"
proof -
  note f = maybeFinishRound_frame [OF assms]
  from f have eq: "s' = s\<lparr>players := players s', metrics := (metrics s)\<lparr>goldByPlayer := goldByPlayer (metrics s')\<rparr>,
                roundEnded := roundEnded s', lastWinnerId := lastWinnerId s',
                lastAwards := lastAwards s', lastWinners := lastWinners s',
                lastWinningTeam := lastWinningTeam s'\<rparr>" by (rule conjunct1)
  show "board s' = board s" by (subst eq) simp
  show "deck s' = deck s" by (subst eq) simp
  show "discard s' = discard s" by (subst eq) simp
  show "suspicionByPlayer (metrics s') = suspicionByPlayer (metrics s)" by (subst eq) simp
  show "efficiencyByPlayer (metrics s') = efficiencyByPlayer (metrics s)" by (subst eq) simp
  show "progress (metrics s') = progress (metrics s)" by (subst eq) simp
  show "activePlayerId (metrics s') = activePlayerId (metrics s)" by (subst eq) simp
  show "deckRemaining (metrics s') = deckRemaining (metrics s)" by (subst eq) simp
  show "players_core (players s') = players_core (players s)" using f by simp
qed

lemma maybeFinishRound_ended: "roundEnded s \<Longrightarrow> maybeFinishRound e pl s = Inr s"
  by (simp add: maybeFinishRound_def)

lemma maybeDeclareSaboteurWin_fields [simp]:
  "players (maybeDeclareSaboteurWin s) = players s"
  "metrics (maybeDeclareSaboteurWin s) = metrics s"
  "deck (maybeDeclareSaboteurWin s) = deck s"
  "discard (maybeDeclareSaboteurWin s) = discard s"
  "roundEnded (maybeDeclareSaboteurWin s) = roundEnded s"
  "tiles (board (maybeDeclareSaboteurWin s)) = tiles (board s)"
  by (simp_all add: maybeDeclareSaboteurWin_def)

text \<open>The room handed to \<open>maybeFinishRound\<close> at the end of \<open>drawCards\<close>.\<close>

lemma drawCards_eq:
  "drawCards e k n s =
     maybeFinishRound e None (maybeDeclareSaboteurWin
       (s\<lparr>deck := fst (draw_loop n (deck s) (case map_of (players s) k of None \<Rightarrow> [] | Some p \<Rightarrow> hand p)),
          players := AList.map_entry k
             (\<lambda>p. p\<lparr>hand := snd (draw_loop n (deck s) (case map_of (players s) k of None \<Rightarrow> [] | Some p \<Rightarrow> hand p))\<rparr>)
             (players s),
          metrics := (metrics s)\<lparr>deckRemaining :=
             length (fst (draw_loop n (deck s) (case map_of (players s) k of None \<Rightarrow> [] | Some p \<Rightarrow> hand p)))\<rparr>\<rparr>))"
  by (simp add: drawCards_def Let_def split: prod.splits)

lemma drawCards_fields:
  assumes "drawCards e k n s = Inr s'"
  shows "tiles (board s') = tiles (board s)" and "discard s' = discard s"
    and "suspicionByPlayer (metrics s') = suspicionByPlayer (metrics s)"
    and "efficiencyByPlayer (metrics s') = efficiencyByPlayer (metrics s)"
    and "progress (metrics s') = progress (metrics s)"
    and "activePlayerId (metrics s') = activePlayerId (metrics s)"
    and "players_core (players s') = players_core (players s)"
    and "deckRemaining (metrics s') = length (deck s')"
proof -
  note f = maybeFinishRound_fields [OF assms [unfolded drawCards_eq]]
  show "tiles (board s') = tiles (board s)" using f(1) by simp
  show "discard s' = discard s" using f(3) by simp
  show "suspicionByPlayer (metrics s') = suspicionByPlayer (metrics s)" using f(4) by simp
  show "efficiencyByPlayer (metrics s') = efficiencyByPlayer (metrics s)" using f(5) by simp
  show "progress (metrics s') = progress (metrics s)" using f(6) by simp
  show "activePlayerId (metrics s') = activePlayerId (metrics s)" using f(7) by simp
  show "players_core (players s') = players_core (players s)" using f(9) by simp
  show "deckRemaining (metrics s') = length (deck s')" using f(8) f(2) by simp
qed

lemma drawCards_ended:
  assumes "roundEnded s" and "drawCards e k n s = Inr s'"
  shows "roundEnded s'" and "goldByPlayer (metrics s') = goldByPlayer (metrics s)"
    and "map (\<lambda>(k, p). (k, score p)) (players s') = map (\<lambda>(k, p). (k, score p)) (players s)"
proof -
  let ?s2 = "maybeDeclareSaboteurWin
       (s\<lparr>deck := fst (draw_loop n (deck s) (case map_of (players s) k of None \<Rightarrow> [] | Some p \<Rightarrow> hand p)),
          players := AList.map_entry k
             (\<lambda>p. p\<lparr>hand := snd (draw_loop n (deck s) (case map_of (players s) k of None \<Rightarrow> [] | Some p \<Rightarrow> hand p))\<rparr>)
             (players s),
          metrics := (metrics s)\<lparr>deckRemaining :=
             length (fst (draw_loop n (deck s) (case map_of (players s) k of None \<Rightarrow> [] | Some p \<Rightarrow> hand p)))\<rparr>\<rparr>)"
  have "roundEnded ?s2" using assms(1) by simp
  then have "maybeFinishRound e None ?s2 = Inr ?s2" by (rule maybeFinishRound_ended)
  with assms(2) have s': "s' = ?s2" unfolding drawCards_eq by simp
  have sc: "map (\<lambda>(k, p). (k, score p)) (AList.map_entry k (\<lambda>p. p\<lparr>hand := h\<rparr>) ps)
            = map (\<lambda>(k, p). (k, score p)) ps" for h and ps :: "(string \<times> player_state) list"
    by (induction ps) auto
  show "roundEnded s'" unfolding s' using assms(1) by simp
  show "goldByPlayer (metrics s') = goldByPlayer (metrics s)" unfolding s' by simp
  show "map (\<lambda>(k, p). (k, score p)) (players s') = map (\<lambda>(k, p). (k, score p)) (players s)"
    unfolding s' by (simp add: sc)
qed

subsection \<open>Role distribution\<close>

lemma random_index_le: "0 \<le> r \<Longrightarrow> r < 1 \<Longrightarrow> random_index r (Suc n) \<le> n"
proof -
  assume r: "0 \<le> r" "r < 1"
  have "r * of_nat (Suc n) < of_nat (Suc n)"
    using r by (simp add: mult_less_cancel_right2 del: of_nat_Suc)
  then have "\<lfloor>r * of_nat (Suc n)\<rfloor> < int (Suc n)"
    by (simp add: floor_less_iff del: of_nat_Suc)
  then show ?thesis by (simp add: random_index_def)
qed

lemma mset_swap': "i < length xs \<Longrightarrow> j < length xs \<Longrightarrow> mset (swap i j xs) = mset xs"
  unfolding swap_def by (rule mset_swap)

lemma length_swap [simp]: "length (swap i j xs) = length xs"
  by (simp add: swap_def)

lemma length_shuffle_loop [simp]: "length (shuffle_loop rnd i xs) = length xs"
  by (induction i arbitrary: xs) simp_all

lemma mset_shuffle_loop:
  "random_ok rnd \<Longrightarrow> i < length xs \<Longrightarrow> mset (shuffle_loop rnd i xs) = mset xs"
proof (induction i arbitrary: xs)
  case 0
  then show ?case by simp
next
  case (Suc i)
  from Suc.prems(1) have "random_index (rnd (Suc i)) (Suc (Suc i)) \<le> Suc i"
    by (intro random_index_le) (simp_all add: random_ok_def)
  with Suc.prems(2) have j: "random_index (rnd (Suc i)) (Suc i + 1) < length xs" by simp
  have "mset (shuffle_loop rnd i (swap (Suc i) (random_index (rnd (Suc i)) (Suc i + 1)) xs))
        = mset (swap (Suc i) (random_index (rnd (Suc i)) (Suc i + 1)) xs)"
    using Suc.prems by (intro Suc.IH) simp_all
  also have "\<dots> = mset xs" using Suc.prems(2) j by (rule mset_swap')
  finally show ?case by simp
qed

lemma mset_shuffle: "random_ok rnd \<Longrightarrow> mset (shuffle rnd xs) = mset xs"
  by (cases "xs = []") (simp_all add: shuffle_def mset_shuffle_loop)

lemma length_shuffle [simp]: "length (shuffle rnd xs) = length xs"
  by (simp add: shuffle_def)

lemma count_role_mset: "mset xs = mset ys \<Longrightarrow> count_role r xs = count_role r ys"
  unfolding count_role_def by (metis mset_filter size_mset)

lemma count_role_initial:
  "count_role Saboteur (map (\<lambda>idx. if idx < k then Saboteur else Miner) [0..<n]) = min k n"
proof -
  have "filter (\<lambda>x. x = Saboteur) (map (\<lambda>idx. if idx < k then Saboteur else Miner) [0..<n])
        = map (\<lambda>idx. Saboteur) (filter (\<lambda>idx. idx < k) [0..<n])"
    by (induction n) auto
  moreover have "length (filter (\<lambda>idx. idx < k) [0..<n]) = min k n"
    by (induction n) auto
  ultimately show ?thesis by (simp add: count_role_def)
qed

lemma count_role_total: "count_role Miner rs + count_role Saboteur rs = length rs"
  unfolding count_role_def by (induction rs) (auto, metis role.exhaust)

text \<open>
  C3. For every player count \<open>n\<close>, \<^verbatim>\<open>roleDistribution(n)\<close>, the function that deals the
  roles, returns \<open>n\<close> roles with no saboteur when \<open>n < 3\<close>, one when \<open>n\<close> is 3 or 4, two
  when \<open>n\<close> is 5 or 6 and three when \<open>n \<ge> 7\<close>; every other role is miner.  The answers of
  \<^verbatim>\<open>Math.random()\<close> lie in \<open>[0, 1)\<close>.
\<close>

theorem roleDistribution_quota:
  assumes "random_ok rnd"
  shows "length (roleDistribution rnd n) = n
       \<and> count_role Saboteur (roleDistribution rnd n)
           = (if n < 3 then 0 else if n \<le> 4 then 1 else if n \<le> 6 then 2 else 3)
       \<and> count_role Miner (roleDistribution rnd n)
           = n - count_role Saboteur (roleDistribution rnd n)"
proof -
  have len: "length (roleDistribution rnd n) = n"
    by (simp add: roleDistribution_def Let_def)
  have "count_role Saboteur (roleDistribution rnd n)
        = min (if n \<ge> 7 then 3 else if n \<ge> 5 then 2 else if n \<ge> 3 then 1 else 0) n"
    unfolding roleDistribution_def Let_def
    using count_role_mset [OF mset_shuffle [OF assms]] count_role_initial by metis
  then have sab: "count_role Saboteur (roleDistribution rnd n)
           = (if n < 3 then 0 else if n \<le> 4 then 1 else if n \<le> 6 then 2 else 3)"
    by auto
  from count_role_total [of "roleDistribution rnd n"] len
  show ?thesis using sab by simp
qed

theorem roleDistribution_quota_witness:
  "random_ok (\<lambda>i. 1 / 2)
   \<and> length (roleDistribution (\<lambda>i. 1 / 2) 7) = 7
   \<and> count_role Saboteur (roleDistribution (\<lambda>i. 1 / 2) 7) = 3
   \<and> count_role Miner (roleDistribution (\<lambda>i. 1 / 2) 7) = 4
   \<and> count_role Saboteur (roleDistribution (\<lambda>i. 1 / 2) 3) = 1
   \<and> count_role Miner (roleDistribution (\<lambda>i. 1 / 2) 3) = 2
   \<and> count_role Saboteur (roleDistribution (\<lambda>i. 1 / 2) 2) = 0"
  using roleDistribution_quota [of "\<lambda>i. 1 / 2" 7] roleDistribution_quota [of "\<lambda>i. 1 / 2" 3]
        roleDistribution_quota [of "\<lambda>i. 1 / 2" 2]
  by (simp add: random_ok_def)

text \<open>
  The copy of \<^verbatim>\<open>roleDistribution\<close> in \<^verbatim>\<open>client/src/game/cards.ts\<close>, which nothing calls,
  has the same quota from three players on and deals one saboteur to a room of one or two.
\<close>

lemma roleDistribution_client_count:
  assumes "random_ok rnd"
  shows "count_role Saboteur (roleDistribution_client rnd n)
           = (if n = 0 then 0 else if n \<le> 4 then 1 else if n \<le> 6 then 2 else 3)"
proof -
  have "count_role Saboteur (roleDistribution_client rnd n)
        = min (if n \<ge> 7 then 3 else if n \<ge> 5 then 2 else 1) n"
    unfolding roleDistribution_client_def Let_def
    using count_role_mset [OF mset_shuffle [OF assms]] count_role_initial by metis
  then show ?thesis by auto
qed

subsection \<open>Errors\<close>

lemma place_commit_not_error:
  "place_commit e playerId payload c cs pp eb s \<noteq> Inr (s', Error m)"
  by (simp add: place_commit_def Let_def split: sum.splits)

lemma rockfall_commit_not_error:
  "rockfall_commit e playerId target c s \<noteq> Inr (s', Error m)"
  by (simp add: rockfall_commit_def Let_def split: sum.splits)

lemma tool_commit_not_error:
  "tool_commit e actorId targetPlayerId ck c s \<noteq> Inr (s', Error m)"
  by (simp add: tool_commit_def Let_def split: sum.splits)

lemma placeCard_error:
  "placeCard e pid payload s = Inr (s', Error m) \<Longrightarrow> s' = s"
  by (auto simp: placeCard_def Let_def place_commit_not_error
           split: if_splits option.splits sum.splits prod.splits)

lemma triggerRockfall_error:
  "triggerRockfall e pid target s = Inr (s', Error m) \<Longrightarrow> s' = s"
  by (auto simp: triggerRockfall_def rockfall_commit_not_error
           split: if_splits option.splits)

lemma applyToolEffect_error:
  "applyToolEffect e pid target ck s = Inr (s', Error m) \<Longrightarrow> s' = s"
  by (auto simp: applyToolEffect_def tool_commit_not_error
           split: if_splits option.splits)

text \<open>
  C2. When \<^verbatim>\<open>placeCard\<close>, \<^verbatim>\<open>triggerRockfall\<close> or \<^verbatim>\<open>applyToolEffect\<close> returns an
  error, the room after the call is the room before it, in every field.
\<close>

theorem errors_leave_state_unchanged:
  "(placeCard e playerId payload s = Inr (s1, Error m1) \<longrightarrow> s1 = s)
   \<and> (triggerRockfall e playerId target s = Inr (s2, Error m2) \<longrightarrow> s2 = s)
   \<and> (applyToolEffect e playerId targetPlayerId ck s = Inr (s3, Error m3) \<longrightarrow> s3 = s)"
  using placeCard_error triggerRockfall_error applyToolEffect_error by blast

theorem errors_leave_state_unchanged_witness:
  "placeCard demo_env ''bob'' straight_to_3_1 alice_room
     = Inr (alice_room, Error ''Not your turn'')
   \<and> triggerRockfall demo_env ''alice'' ''3-1'' alice_room
     = Inr (alice_room, Error ''No rockfall card'')
   \<and> applyToolEffect demo_env ''alice'' ''carol'' ''repair'' alice_room
     = Inr (alice_room, Error ''Players missing'')"
proof -
  have m1: "snd (projr (placeCard demo_env ''bob'' straight_to_3_1 alice_room))
            = Error ''Not your turn''"
    by (simp add: placeCard_def alice_room_active truthy_def)
  have m2: "snd (projr (triggerRockfall demo_env ''alice'' ''3-1'' alice_room))
            = Error ''No rockfall card''"
    by (simp add: triggerRockfall_def alice_room_active alice_room_players truthy_def)
  have m3: "snd (projr (applyToolEffect demo_env ''alice'' ''carol'' ''repair'' alice_room))
            = Error ''Players missing''"
    by (simp add: applyToolEffect_def alice_room_active alice_room_players truthy_def)
  have i1: "\<not> isl (placeCard demo_env ''bob'' straight_to_3_1 alice_room)"
    by (simp add: placeCard_def alice_room_active truthy_def)
  have i2: "\<not> isl (triggerRockfall demo_env ''alice'' ''3-1'' alice_room)"
    by (simp add: triggerRockfall_def alice_room_active alice_room_players truthy_def)
  have i3: "\<not> isl (applyToolEffect demo_env ''alice'' ''carol'' ''repair'' alice_room)"
    by (simp add: applyToolEffect_def alice_room_active alice_room_players truthy_def)
  from i1 m1 obtain s1 where r1: "placeCard demo_env ''bob'' straight_to_3_1 alice_room
      = Inr (s1, Error ''Not your turn'')"
    by (cases "placeCard demo_env ''bob'' straight_to_3_1 alice_room") auto
  from i2 m2 obtain s2 where r2: "triggerRockfall demo_env ''alice'' ''3-1'' alice_room
      = Inr (s2, Error ''No rockfall card'')"
    by (cases "triggerRockfall demo_env ''alice'' ''3-1'' alice_room") auto
  from i3 m3 obtain s3 where r3: "applyToolEffect demo_env ''alice'' ''carol'' ''repair'' alice_room
      = Inr (s3, Error ''Players missing'')"
    by (cases "applyToolEffect demo_env ''alice'' ''carol'' ''repair'' alice_room") auto
  from errors_leave_state_unchanged [of demo_env "''bob''" straight_to_3_1 alice_room s1
      "''Not your turn''"] r1
  have "s1 = alice_room" by blast
  moreover from errors_leave_state_unchanged [of demo_env "''alice''" _ alice_room _ _
      "''3-1''" s2 "''No rockfall card''"] r2
  have "s2 = alice_room" by blast
  moreover from errors_leave_state_unchanged [of demo_env "''alice''" _ alice_room _ _ _ _ _
      "''carol''" "''repair''" s3 "''Players missing''"] r3
  have "s3 = alice_room" by blast
  ultimately show ?thesis using r1 r2 r3 by simp
qed

subsection \<open>Drawing and telemetry\<close>

lemma draw_loop_fst: "fst (draw_loop n d h) = take (length d - n) d"
proof (induction n d h rule: draw_loop.induct)
  case (1 d h)
  show ?case by simp
next
  case (2 n d h)
  show ?case
  proof (cases "d = []")
    case True
    then show ?thesis by simp
  next
    case False
    then have "take (length d - Suc n) d = take (length (butlast d) - n) (butlast d)"
      by (simp add: take_butlast)
    with 2 False show ?thesis by simp
  qed
qed

lemma maybeFinishRound_returns:
  assumes "winningTeam (board s) \<noteq> Some Miner"
  shows "\<exists>s'. maybeFinishRound e pl s = Inr s'"
proof (cases "maybeFinishRound e pl s")
  case (Inl err)
  then have "\<exists>err. applyRoundRewards e pl (s\<lparr>roundEnded := True, lastWinnerId := pl\<rparr>) = Inl err"
    by (auto simp: maybeFinishRound_def split: if_splits sum.splits)
  with assms show ?thesis by (simp add: applyRoundRewards_throws)
next
  case (Inr s')
  then show ?thesis by blast
qed

text \<open>
  C5. A draw made while no team has won returns, and when it leaves the deck empty the
  winning team is the saboteurs once the draw is over, whatever triggered the draw.
\<close>

theorem draw_emptying_deck_declares_saboteur_win:
  assumes "winningTeam (board s) = None"
  shows "\<exists>s'. drawCards e k n s = Inr s'
              \<and> deck s' = take (length (deck s) - n) (deck s)
              \<and> (deck s' = [] \<longrightarrow> winningTeam (board s') = Some Saboteur)"
proof -
  let ?h = "case map_of (players s) k of None \<Rightarrow> [] | Some p \<Rightarrow> hand p"
  let ?s1 = "s\<lparr>deck := fst (draw_loop n (deck s) ?h),
          players := AList.map_entry k (\<lambda>p. p\<lparr>hand := snd (draw_loop n (deck s) ?h)\<rparr>) (players s),
          metrics := (metrics s)\<lparr>deckRemaining := length (fst (draw_loop n (deck s) ?h))\<rparr>\<rparr>"
  let ?s2 = "maybeDeclareSaboteurWin ?s1"
  have w: "winningTeam (board ?s2) = (if fst (draw_loop n (deck s) ?h) = [] then Some Saboteur else None)"
    using assms by (simp add: maybeDeclareSaboteurWin_def)
  then have "winningTeam (board ?s2) \<noteq> Some Miner" by simp
  then obtain s' where s': "maybeFinishRound e None ?s2 = Inr s'"
    using maybeFinishRound_returns by blast
  note f = maybeFinishRound_fields [OF s']
  have d: "deck s' = take (length (deck s) - n) (deck s)"
    using f(2) by (simp add: draw_loop_fst)
  have b: "winningTeam (board s') = winningTeam (board ?s2)" using f(1) by simp
  have d': "deck s' = fst (draw_loop n (deck s) ?h)" using f(2) by simp
  have "deck s' = [] \<longrightarrow> winningTeam (board s') = Some Saboteur"
    unfolding b d' w by simp
  with s' d show ?thesis unfolding drawCards_eq by blast
qed

text \<open>
  C4. A goal tile whose id is in the visited set of the search is revealed by the
  recomputation, and when it is the gold goal the recomputation itself declares the
  miners winners.
\<close>

theorem syncBoardTelemetry_reveals_reached_goals:
  assumes "i < length (tiles (board s))"
    and "tileType (tiles (board s) ! i) = Goal"
    and "tile_id (tiles (board s) ! i) \<in> snd (exploreBoard (board s))"
  shows "revealed (tiles (board (syncBoardTelemetry s)) ! i)
       \<and> (tile_cardKey (tiles (board s) ! i) = Some ''gold''
            \<longrightarrow> winningTeam (board (syncBoardTelemetry s)) = Some Miner)"
proof -
  obtain far visited where ex: "exploreBoard (board s) = (far, visited)"
    by (cases "exploreBoard (board s)") auto
  from assms(3) ex have v: "tile_id (tiles (board s) ! i) \<in> visited" by simp
  have mem: "tiles (board s) ! i \<in> set (tiles (board s))" using assms(1) by simp
  have w: "winningTeam (board (maybeDeclareSaboteurWin x)) = Some Miner"
    if "winningTeam (board x) = Some Miner" for x
    using that by (simp add: maybeDeclareSaboteurWin_def)
  have "revealed (tiles (board (syncBoardTelemetry s)) ! i)"
    using assms(1,2) v by (simp add: syncBoardTelemetry_def ex Let_def)
  moreover have "winningTeam (board (syncBoardTelemetry s)) = Some Miner"
    if "tile_cardKey (tiles (board s) ! i) = Some ''gold''"
  proof -
    have "list_ex (\<lambda>t. (tileType t = Goal \<and> tile_id t \<in> visited) \<and> tile_cardKey t = Some ''gold'')
            (tiles (board s))"
      unfolding list_ex_iff using mem assms(2) v that by blast
    then show ?thesis
      by (simp add: syncBoardTelemetry_def ex Let_def w)
  qed
  ultimately show ?thesis by blast
qed

theorem syncBoardTelemetry_reveals_reached_goals_witness:
  "35 < length (tiles (board tunnel_room))
   \<and> tileType (tiles (board tunnel_room) ! 35) = Goal
   \<and> tile_id (tiles (board tunnel_room) ! 35) \<in> snd (exploreBoard (board tunnel_room))
   \<and> tile_cardKey (tiles (board tunnel_room) ! 35) = Some ''gold''
   \<and> \<not> revealed (tiles (board tunnel_room) ! 35)
   \<and> winningTeam (board tunnel_room) = None
   \<and> revealed (tiles (board (syncBoardTelemetry tunnel_room)) ! 35)
   \<and> winningTeam (board (syncBoardTelemetry tunnel_room)) = Some Miner"
proof -
  have h1: "35 < length (tiles tunnel_board)" by code_simp
  have h2: "tileType (tiles tunnel_board ! 35) = Goal" by code_simp
  have h3: "tile_id (tiles tunnel_board ! 35) \<in> snd (exploreBoard tunnel_board)"
    by code_simp
  have h4: "tile_cardKey (tiles tunnel_board ! 35) = Some ''gold''" by code_simp
  have h5: "\<not> revealed (tiles tunnel_board ! 35)" by code_simp
  have h6: "winningTeam tunnel_board = None" by code_simp
  show ?thesis
    using syncBoardTelemetry_reveals_reached_goals [of 35 tunnel_room] h1 h2 h3 h4 h5 h6
    by (simp add: tunnel_room_board)
qed

theorem draw_emptying_deck_declares_saboteur_win_witness:
  "winningTeam (board alice_room) = None
   \<and> drawCards demo_env ''alice'' 54 alice_room = Inr (projr (drawCards demo_env ''alice'' 54 alice_room))
   \<and> deck (projr (drawCards demo_env ''alice'' 54 alice_room)) = []
   \<and> winningTeam (board (projr (drawCards demo_env ''alice'' 54 alice_room))) = Some Saboteur"
proof -
  have h: "winningTeam (board alice_room) = None"
    by (simp add: alice_room_board createBoard_def Let_def)
  have l: "length (deck alice_room) = 54" by code_simp
  from draw_emptying_deck_declares_saboteur_win [OF h, of demo_env "''alice''" 54]
  obtain s' where "drawCards demo_env ''alice'' 54 alice_room = Inr s'"
    and "deck s' = take (length (deck alice_room) - 54) (deck alice_room)"
    and "deck s' = [] \<longrightarrow> winningTeam (board s') = Some Saboteur" by blast
  with h l show ?thesis by simp
qed

subsection \<open>What the turn and the telemetry change\<close>

lemma clearTurnTimer_fields [simp]:
  "players (clearTurnTimer s) = players s" "board (clearTurnTimer s) = board s"
  "deck (clearTurnTimer s) = deck s" "discard (clearTurnTimer s) = discard s"
  "metrics (clearTurnTimer s) = metrics s" "roundEnded (clearTurnTimer s) = roundEnded s"
  by (simp_all add: clearTurnTimer_def)

lemma setTurnTimer_fields [simp]:
  "players (setTurnTimer e s) = players s" "board (setTurnTimer e s) = board s"
  "deck (setTurnTimer e s) = deck s" "discard (setTurnTimer e s) = discard s"
  "roundEnded (setTurnTimer e s) = roundEnded s"
  "suspicionByPlayer (metrics (setTurnTimer e s)) = suspicionByPlayer (metrics s)"
  "efficiencyByPlayer (metrics (setTurnTimer e s)) = efficiencyByPlayer (metrics s)"
  "goldByPlayer (metrics (setTurnTimer e s)) = goldByPlayer (metrics s)"
  "progress (metrics (setTurnTimer e s)) = progress (metrics s)"
  "activePlayerId (metrics (setTurnTimer e s)) = activePlayerId (metrics s)"
  by (simp_all add: setTurnTimer_def Let_def)

lemma advanceTurn_fields [simp]:
  "players (advanceTurn e s) = players s" "board (advanceTurn e s) = board s"
  "deck (advanceTurn e s) = deck s" "discard (advanceTurn e s) = discard s"
  "roundEnded (advanceTurn e s) = roundEnded s"
  "suspicionByPlayer (metrics (advanceTurn e s)) = suspicionByPlayer (metrics s)"
  "efficiencyByPlayer (metrics (advanceTurn e s)) = efficiencyByPlayer (metrics s)"
  "goldByPlayer (metrics (advanceTurn e s)) = goldByPlayer (metrics s)"
  "progress (metrics (advanceTurn e s)) = progress (metrics s)"
  by (simp_all add: advanceTurn_def Let_def)

lemma syncBoardTelemetry_fields [simp]:
  "players (syncBoardTelemetry s) = players s"
  "deck (syncBoardTelemetry s) = deck s" "discard (syncBoardTelemetry s) = discard s"
  "roundEnded (syncBoardTelemetry s) = roundEnded s"
  "suspicionByPlayer (metrics (syncBoardTelemetry s)) = suspicionByPlayer (metrics s)"
  "efficiencyByPlayer (metrics (syncBoardTelemetry s)) = efficiencyByPlayer (metrics s)"
  "goldByPlayer (metrics (syncBoardTelemetry s)) = goldByPlayer (metrics s)"
  "activePlayerId (metrics (syncBoardTelemetry s)) = activePlayerId (metrics s)"
  by (simp_all add: syncBoardTelemetry_def Let_def split: prod.splits)

lemma roles_players_core:
  "map (\<lambda>(k, p). role p) (players_core ps) = map (\<lambda>(k, p). role p) ps"
  by (induction ps) (auto simp: players_core_def)

subsection \<open>Miners in the room and the connection test\<close>

lemma has_miner_iff: "has_miner s \<longleftrightarrow> Miner \<in> set (map (\<lambda>(k, p). role p) (players s))"
  by (force simp: has_miner_def list_ex_iff)

lemma has_miner_core:
  "players_core (players s') = players_core (players s) \<Longrightarrow> has_miner s' = has_miner s"
  unfolding has_miner_iff by (metis roles_players_core)

lemma attach_loop_eq:
  "attach_loop b t (Some c) nbs (hv, mm)
   = Inr (hv \<or> list_ex (attaches b t c) nbs, mm \<or> list_ex (mismatches b t c) nbs)"
proof (induction nbs arbitrary: hv mm)
  case Nil
  show ?case by simp
next
  case (Cons nb nbs)
  show ?case
    by (auto simp: Cons.IH attach_step_def attaches_def mismatches_def split: option.splits)
qed

lemma path_card_has_connectors:
  "map_of CARD_LIBRARY k = Some d \<Longrightarrow> category d = Path \<Longrightarrow> def_connectors d \<noteq> None"
  by (auto simp: CARD_LIBRARY_def split: if_splits)

subsection \<open>What the actions change\<close>

lemma scores_map_entry_hand [simp]:
  "map (\<lambda>(k, p). (k, score p)) (AList.map_entry k (\<lambda>p. p\<lparr>hand := f p\<rparr>) ps)
   = map (\<lambda>(k, p). (k, score p)) ps"
  by (induction ps) auto

lemma place_commit_fields:
  assumes "place_commit e pid payload c cs pp eb s = Inr (s', r)"
  shows "suspicionByPlayer (metrics s')
           = (suspicionByPlayer (metrics s))
               (pid \<mapsto> max 0 (or_zero (suspicionByPlayer (metrics s) pid) - 5 / 100))"
    and "efficiencyByPlayer (metrics s')
           = (efficiencyByPlayer (metrics s))
               (pid \<mapsto> or_zero (efficiencyByPlayer (metrics s) pid) + (progress (metrics s) - pp))"
    and "players_core (players s') = players_core (players s)"
    and "roundEnded s \<Longrightarrow> roundEnded s'"
    and "roundEnded s \<Longrightarrow> goldByPlayer (metrics s') = goldByPlayer (metrics s)"
    and "roundEnded s \<Longrightarrow> map (\<lambda>(k, p). (k, score p)) (players s') = map (\<lambda>(k, p). (k, score p)) (players s)"
proof -
  let ?s1 = "s\<lparr>board := (board s)\<lparr>tiles :=
                 assign_first (\<lambda>t. tile_id t = targetTileId payload)
                   (\<lambda>t. t\<lparr>tileType := PathTile, tile_connectors := cs,
                           tile_cardKey := Some (cardKey c),
                           tile_rotation := Some (payload_rotation payload),
                           revealed := True, ownerId := Some pid\<rparr>)
                   (tiles (board s))\<rparr>\<rparr>"
  let ?s2 = "?s1\<lparr>players := AList.map_entry pid
                   (\<lambda>p. p\<lparr>hand := filter (\<lambda>x. instanceId x \<noteq> instanceId c) (hand p)\<rparr>)
                   (players ?s1)\<rparr>"
  let ?s3 = "?s2\<lparr>discard := discard ?s2 @ [c]\<rparr>"
  let ?s4 = "?s3\<lparr>metrics := (metrics ?s3)\<lparr>turnsTaken := turnsTaken (metrics ?s3) + 1\<rparr>\<rparr>"
  let ?s5 = "?s4\<lparr>metrics := (metrics ?s4)\<lparr>suspicionByPlayer := (suspicionByPlayer (metrics ?s4))
                   (pid \<mapsto> max 0 (or_zero (suspicionByPlayer (metrics ?s4) pid) - 5 / 100))\<rparr>\<rparr>"
  let ?s6 = "?s5\<lparr>metrics := (metrics ?s5)\<lparr>efficiencyByPlayer := (efficiencyByPlayer (metrics ?s5))
                   (pid \<mapsto> or_zero (efficiencyByPlayer (metrics ?s5) pid) + (progress (metrics ?s5) - pp))\<rparr>\<rparr>"
  from assms obtain s7 where s7: "drawCards e pid 1 ?s6 = Inr s7"
    and s8: "maybeFinishRound e (Some pid) (advanceTurn e (syncBoardTelemetry s7)) = Inr s'"
    unfolding place_commit_def Let_def by (auto split: sum.splits)
  note d = drawCards_fields [OF s7]
  note f = maybeFinishRound_fields [OF s8]
  show "suspicionByPlayer (metrics s')
           = (suspicionByPlayer (metrics s))
               (pid \<mapsto> max 0 (or_zero (suspicionByPlayer (metrics s) pid) - 5 / 100))"
    using f(4) d(3) by simp
  show "efficiencyByPlayer (metrics s')
           = (efficiencyByPlayer (metrics s))
               (pid \<mapsto> or_zero (efficiencyByPlayer (metrics s) pid) + (progress (metrics s) - pp))"
    using f(5) d(4) by simp
  show "players_core (players s') = players_core (players s)"
    using f(9) d(7) by simp
  {
    assume re: "roundEnded s"
    then have "roundEnded ?s6" by simp
    note de = drawCards_ended [OF this s7]
    have re7: "roundEnded (advanceTurn e (syncBoardTelemetry s7))" using de(1) by simp
    from maybeFinishRound_ended [OF re7, of e "Some pid"] s8
    have s': "s' = advanceTurn e (syncBoardTelemetry s7)" by simp
    show "roundEnded s'" unfolding s' using de(1) by simp
    show "goldByPlayer (metrics s') = goldByPlayer (metrics s)" unfolding s' using de(2) by simp
    show "map (\<lambda>(k, p). (k, score p)) (players s') = map (\<lambda>(k, p). (k, score p)) (players s)"
      unfolding s' using de(3) by simp
  }
qed

lemma placeCard_cases:
  assumes "placeCard e pid payload s = Inr (s', r)"
  shows "s' = s \<or> (\<exists>c cs. place_commit e pid payload c cs (progress (metrics s)) (roundEnded s) s = Inr (s', r))"
  using assms unfolding placeCard_def Let_def
  by (auto split: if_splits option.splits sum.splits prod.splits)

lemma placeCard_success_commit:
  assumes "placeCard e pid payload s = Inr (s', Success r)"
  shows "\<exists>c cs. place_commit e pid payload c cs (progress (metrics s)) (roundEnded s) s = Inr (s', Success r)"
  using assms unfolding placeCard_def Let_def
  by (auto split: if_splits option.splits sum.splits prod.splits)

lemma scores_map_entry_toolBroken [simp]:
  "map (\<lambda>(k, p). (k, score p)) (AList.map_entry k (\<lambda>p. p\<lparr>toolBroken := b\<rparr>) ps)
   = map (\<lambda>(k, p). (k, score p)) ps"
  by (induction ps) auto

lemma scores_map_entry_pose [simp]:
  "map (\<lambda>(k, p). (k, score p)) (AList.map_entry k (\<lambda>p. p\<lparr>position := a, player_rotation := b\<rparr>) ps)
   = map (\<lambda>(k, p). (k, score p)) ps"
  by (induction ps) auto

lemma suspicions_map_entry_toolBroken [simp]:
  "map (\<lambda>(k, p). (k, suspicion p)) (AList.map_entry k (\<lambda>p. p\<lparr>toolBroken := b\<rparr>) ps)
   = map (\<lambda>(k, p). (k, suspicion p)) ps"
  by (induction ps) auto

lemma suspicions_map_entry_pose [simp]:
  "map (\<lambda>(k, p). (k, suspicion p)) (AList.map_entry k (\<lambda>p. p\<lparr>position := a, player_rotation := b\<rparr>) ps)
   = map (\<lambda>(k, p). (k, suspicion p)) ps"
  by (induction ps) auto

lemma suspicions_players_core:
  "map (\<lambda>(k, p). (k, suspicion p)) (players_core ps) = map (\<lambda>(k, p). (k, suspicion p)) ps"
  by (induction ps) (auto simp: players_core_def)

lemma suspicions_core:
  "players_core ps' = players_core ps
   \<Longrightarrow> map (\<lambda>(k, p). (k, suspicion p)) ps' = map (\<lambda>(k, p). (k, suspicion p)) ps"
  by (metis suspicions_players_core)

lemma rockfall_commit_fields:
  assumes "rockfall_commit e pid target c s = Inr (s', r)"
  shows "suspicionByPlayer (metrics s')
           = (suspicionByPlayer (metrics s))
               (pid \<mapsto> min 1 (or_zero (suspicionByPlayer (metrics s) pid) + 15 / 100))"
    and "efficiencyByPlayer (metrics s') = efficiencyByPlayer (metrics s)"
    and "players_core (players s') = players_core (players s)"
    and "roundEnded s \<Longrightarrow> roundEnded s'"
    and "roundEnded s \<Longrightarrow> goldByPlayer (metrics s') = goldByPlayer (metrics s)"
    and "roundEnded s \<Longrightarrow> player_scores s' = player_scores s"
proof -
  let ?s1 = "s\<lparr>board := (board s)\<lparr>tiles :=
                 assign_first (\<lambda>t. tile_id t = target)
                   (\<lambda>t. t\<lparr>tileType := Blocked, tile_connectors := None,
                           tile_cardKey := None, tile_rotation := None\<rparr>)
                   (tiles (board s))\<rparr>\<rparr>"
  let ?s2 = "?s1\<lparr>players := AList.map_entry pid
                 (\<lambda>p. p\<lparr>hand := filter (\<lambda>x. instanceId x \<noteq> instanceId c) (hand p)\<rparr>)
                 (players ?s1)\<rparr>"
  let ?s3 = "?s2\<lparr>metrics := (metrics ?s2)
                 \<lparr>collapsedTiles := collapsedTiles (metrics ?s2) + 1,
                  turnsTaken := turnsTaken (metrics ?s2) + 1\<rparr>\<rparr>"
  let ?s4 = "?s3\<lparr>metrics := (metrics ?s3)\<lparr>suspicionByPlayer := (suspicionByPlayer (metrics ?s3))
                 (pid \<mapsto> min 1 (or_zero (suspicionByPlayer (metrics ?s3) pid) + 15 / 100))\<rparr>\<rparr>"
  from assms obtain s5 where s5: "drawCards e pid 1 ?s4 = Inr s5"
    and s': "s' = advanceTurn e (syncBoardTelemetry s5)"
    unfolding rockfall_commit_def Let_def by (auto split: sum.splits)
  note d = drawCards_fields [OF s5]
  show "suspicionByPlayer (metrics s')
           = (suspicionByPlayer (metrics s))
               (pid \<mapsto> min 1 (or_zero (suspicionByPlayer (metrics s) pid) + 15 / 100))"
    unfolding s' using d(3) by simp
  show "efficiencyByPlayer (metrics s') = efficiencyByPlayer (metrics s)"
    unfolding s' using d(4) by simp
  show "players_core (players s') = players_core (players s)"
    unfolding s' using d(7) by simp
  {
    assume "roundEnded s"
    then have "roundEnded ?s4" by simp
    note de = drawCards_ended [OF this s5]
    show "roundEnded s'" unfolding s' using de(1) by simp
    show "goldByPlayer (metrics s') = goldByPlayer (metrics s)" unfolding s' using de(2) by simp
    show "player_scores s' = player_scores s"
      unfolding s' using de(3) by (simp add: player_scores_def)
  }
qed

lemma tool_commit_fields:
  assumes "tool_commit e pid target ck c s = Inr (s', r)"
  shows "suspicionByPlayer (metrics s')
           = (suspicionByPlayer (metrics s))
               (pid \<mapsto> (if ck = ''break''
                          then min 1 (or_zero (suspicionByPlayer (metrics s) pid) + 12 / 100)
                          else max 0 (or_zero (suspicionByPlayer (metrics s) pid) - 4 / 100)))"
    and "efficiencyByPlayer (metrics s') = efficiencyByPlayer (metrics s)"
    and "map (\<lambda>(k, p). (k, suspicion p)) (players s') = map (\<lambda>(k, p). (k, suspicion p)) (players s)"
    and "roundEnded s \<Longrightarrow> roundEnded s'"
    and "roundEnded s \<Longrightarrow> goldByPlayer (metrics s') = goldByPlayer (metrics s)"
    and "roundEnded s \<Longrightarrow> player_scores s' = player_scores s"
proof -
  let ?s1 = "(if ck = ''break'' then
                  s\<lparr>players := AList.map_entry target (\<lambda>p. p\<lparr>toolBroken := True\<rparr>) (players s),
                    metrics := (metrics s)\<lparr>suspicionByPlayer := (suspicionByPlayer (metrics s))
                      (pid \<mapsto> min 1 (or_zero (suspicionByPlayer (metrics s) pid) + 12 / 100))\<rparr>\<rparr>
                else
                  s\<lparr>players := AList.map_entry target (\<lambda>p. p\<lparr>toolBroken := False\<rparr>) (players s),
                    metrics := (metrics s)\<lparr>suspicionByPlayer := (suspicionByPlayer (metrics s))
                      (pid \<mapsto> max 0 (or_zero (suspicionByPlayer (metrics s) pid) - 4 / 100))\<rparr>\<rparr>)"
  let ?s2 = "?s1\<lparr>players := AList.map_entry pid
                 (\<lambda>p. p\<lparr>hand := filter (\<lambda>x. instanceId x \<noteq> instanceId c) (hand p)\<rparr>)
                 (players ?s1)\<rparr>"
  from assms obtain s3 where s3: "drawCards e pid 1 ?s2 = Inr s3"
    and s': "s' = advanceTurn e (s3\<lparr>metrics := (metrics s3)\<lparr>turnsTaken := turnsTaken (metrics s3) + 1\<rparr>\<rparr>)"
    unfolding tool_commit_def Let_def by (auto split: sum.splits)
  note d = drawCards_fields [OF s3]
  show "suspicionByPlayer (metrics s')
           = (suspicionByPlayer (metrics s))
               (pid \<mapsto> (if ck = ''break''
                          then min 1 (or_zero (suspicionByPlayer (metrics s) pid) + 12 / 100)
                          else max 0 (or_zero (suspicionByPlayer (metrics s) pid) - 4 / 100)))"
    unfolding s' using d(3) by simp
  show "efficiencyByPlayer (metrics s') = efficiencyByPlayer (metrics s)"
    unfolding s' using d(4) by simp
  have "map (\<lambda>(k, p). (k, suspicion p)) (players s3) = map (\<lambda>(k, p). (k, suspicion p)) (players ?s2)"
    using d(7) by (rule suspicions_core)
  also have "\<dots> = map (\<lambda>(k, p). (k, suspicion p)) (players ?s1)"
    by (rule suspicions_core) simp
  also have "\<dots> = map (\<lambda>(k, p). (k, suspicion p)) (players s)"
    by simp
  finally show "map (\<lambda>(k, p). (k, suspicion p)) (players s') = map (\<lambda>(k, p). (k, suspicion p)) (players s)"
    unfolding s' by simp
  {
    assume re: "roundEnded s"
    then have "roundEnded ?s2" by simp
    note de = drawCards_ended [OF this s3]
    show "roundEnded s'" unfolding s' using de(1) by simp
    show "goldByPlayer (metrics s') = goldByPlayer (metrics s)" unfolding s' using de(2) by simp
    show "player_scores s' = player_scores s"
      unfolding s' using de(3) by (simp add: player_scores_def)
  }
qed

lemma triggerRockfall_cases:
  assumes "triggerRockfall e pid target s = Inr (s', r)"
  shows "s' = s \<or> (\<exists>c. rockfall_commit e pid target c s = Inr (s', r))"
  using assms unfolding triggerRockfall_def
  by (auto split: if_splits option.splits)

lemma applyToolEffect_cases:
  assumes "applyToolEffect e pid target ck s = Inr (s', r)"
  shows "s' = s \<or> (\<exists>c. tool_commit e pid target ck c s = Inr (s', r))"
  using assms unfolding applyToolEffect_def
  by (auto split: if_splits option.splits)

lemma scores_update:
  "map_of (map (\<lambda>(k, p). (k, score p)) (AList.update k v ps))
   = (map_of (map (\<lambda>(k, p). (k, score p)) ps))(k \<mapsto> score v)"
  by (induction ps) (auto simp: fun_eq_iff)

lemma scores_delete:
  "map_of (map (\<lambda>(k, p). (k, score p)) (AList.delete k ps))
   = (map_of (map (\<lambda>(k, p). (k, score p)) ps))(k := None)"
  by (induction ps) (auto simp: fun_eq_iff)

lemma insertPlayer_fields:
  assumes "insertPlayer e sid nm s = Inr s'"
  shows "suspicionByPlayer (metrics s')
           = (suspicionByPlayer (metrics s))
               (sid \<mapsto> initial_suspicion
                  (roleDistribution (rand_roles e) (length (players s) + 1) ! length (players s)))"
    and "efficiencyByPlayer (metrics s') = efficiencyByPlayer (metrics s)"
    and "\<exists>p. players_core (players s') = players_core (AList.update sid p (players s))
             \<and> player_id p = sid \<and> score p = 0
             \<and> role p = roleDistribution (rand_roles e) (length (players s) + 1) ! length (players s)
             \<and> suspicion p = initial_suspicion (role p)"
    and "roundEnded s \<Longrightarrow> roundEnded s'"
    and "roundEnded s \<Longrightarrow> goldByPlayer (metrics s') = goldByPlayer (metrics s)"
    and "roundEnded s \<Longrightarrow> player_scores s' = (player_scores s)(sid \<mapsto> 0)"
proof -
  let ?n = "length (players s) + 1"
  let ?r = "roleDistribution (rand_roles e) ?n ! (?n - 1)"
  let ?p = "\<lparr>player_id = sid, socketId = sid,
                    name = (case nm of None \<Rightarrow> ''Dwarf-'' @ show_nat ?n
                            | Some v \<Rightarrow> if v \<noteq> [] then v else ''Dwarf-'' @ show_nat ?n),
                    role = ?r, position = (0, 8 / 5, 0), player_rotation = (0, 0, 0, 1),
                    hand = [], connected = True, toolBroken = False,
                    suspicion = initial_suspicion ?r, score = 0\<rparr>"
  let ?s1 = "s\<lparr>players := AList.update sid ?p (players s)\<rparr>"
  let ?s2 = "?s1\<lparr>metrics := (metrics ?s1)
                  \<lparr>suspicionByPlayer := (suspicionByPlayer (metrics ?s1))(player_id ?p \<mapsto> suspicion ?p)\<rparr>\<rparr>"
  from assms obtain s3 where s3: "drawCards e sid 5 ?s2 = Inr s3"
    and s': "s' = (if \<not> truthy (activePlayerId (metrics s3))
                  then setTurnTimer e
                         (s3\<lparr>metrics := (metrics s3)\<lparr>activePlayerId := Some sid\<rparr>, turnIndex := 0\<rparr>)
                  else s3)"
    unfolding insertPlayer_def Let_def by (auto split: sum.splits)
  note d = drawCards_fields [OF s3]
  show "suspicionByPlayer (metrics s')
           = (suspicionByPlayer (metrics s))
               (sid \<mapsto> initial_suspicion
                  (roleDistribution (rand_roles e) (length (players s) + 1) ! length (players s)))"
    unfolding s' using d(3) by simp
  show "efficiencyByPlayer (metrics s') = efficiencyByPlayer (metrics s)"
    unfolding s' using d(4) by simp
  have "players_core (players s') = players_core (AList.update sid ?p (players s))"
    unfolding s' using d(7) by simp
  then show "\<exists>p. players_core (players s') = players_core (AList.update sid p (players s))
             \<and> player_id p = sid \<and> score p = 0
             \<and> role p = roleDistribution (rand_roles e) (length (players s) + 1) ! length (players s)
             \<and> suspicion p = initial_suspicion (role p)"
    by (intro exI [of _ ?p]) simp
  {
    assume "roundEnded s"
    then have "roundEnded ?s2" by simp
    note de = drawCards_ended [OF this s3]
    show "roundEnded s'" unfolding s' using de(1) by simp
    show "goldByPlayer (metrics s') = goldByPlayer (metrics s)" unfolding s' using de(2) by simp
    have "player_scores s' = player_scores ?s2"
      unfolding s' using de(3) by (simp add: player_scores_def)
    then show "player_scores s' = (player_scores s)(sid \<mapsto> 0)"
      by (simp add: player_scores_def scores_update)
  }
qed

lemma removePlayer_fields:
  "suspicionByPlayer (metrics (removePlayer e i s)) = (suspicionByPlayer (metrics s))(i := None)"
  "efficiencyByPlayer (metrics (removePlayer e i s)) = efficiencyByPlayer (metrics s)"
  "players (removePlayer e i s) = AList.delete i (players s)"
  "roundEnded (removePlayer e i s) = roundEnded s"
  "goldByPlayer (metrics (removePlayer e i s)) = goldByPlayer (metrics s)"
  "player_scores (removePlayer e i s) = (player_scores s)(i := None)"
  by (simp_all add: removePlayer_def Let_def player_scores_def scores_delete)

lemma updatePlayerPose_fields:
  "metrics (updatePlayerPose i pos rot s) = metrics s"
  "roundEnded (updatePlayerPose i pos rot s) = roundEnded s"
  "player_scores (updatePlayerPose i pos rot s) = player_scores s"
  "map (\<lambda>(k, p). (k, suspicion p)) (players (updatePlayerPose i pos rot s))
   = map (\<lambda>(k, p). (k, suspicion p)) (players s)"
  by (simp_all add: updatePlayerPose_def player_scores_def split: option.splits)

subsection \<open>One settlement per round\<close>

lemma player_scores_advanceTurn [simp]: "player_scores (advanceTurn e s) = player_scores s"
  by (simp add: player_scores_def)









subsection \<open>Efficiency\<close>

lemma reset_player_efficiency:
  assumes "reset_player e roles ik s = Inr s'"
  shows "efficiencyByPlayer (metrics s') = efficiencyByPlayer (metrics s)"
proof -
  obtain idx k where ik: "ik = (idx, k)" by (cases ik)
  from assms obtain s2 where d: "drawCards e k 5 s2 = Inr s'"
    and e2: "efficiencyByPlayer (metrics s2) = efficiencyByPlayer (metrics s)"
    unfolding reset_player_def ik Let_def
    by (auto split: option.splits)
  from drawCards_fields(4) [OF d] e2 show ?thesis by simp
qed

lemma reset_players_efficiency:
  "reset_players e roles iks s = Inr s'
   \<Longrightarrow> efficiencyByPlayer (metrics s') = efficiencyByPlayer (metrics s)"
proof (induction iks arbitrary: s)
  case Nil
  then show ?case by simp
next
  case (Cons ik iks)
  from Cons.prems obtain s1 where a: "reset_player e roles ik s = Inr s1"
    and b: "reset_players e roles iks s1 = Inr s'"
    by (auto split: sum.splits)
  from Cons.IH [OF b] reset_player_efficiency [OF a] show ?case by simp
qed

lemma resetRoom_efficiency:
  assumes "resetRoom e s = Inr s'"
  shows "efficiencyByPlayer (metrics s') = Map.empty"
proof -
  let ?d = "generateDeck (uuids e) (rand_deck e)"
  let ?s1 = "s\<lparr>board := createBoard (rand_gold e), deck := ?d, discard := [],
                 roundEnded := False, roundNumber := roundNumber s + 1,
                 lastAwards := Some Map.empty, lastWinnerId := None, lastWinningTeam := None\<rparr>"
  let ?s2 = "?s1\<lparr>metrics :=
                 \<lparr>deckRemaining = length (deck ?s1), progress = 0, collapsedTiles = 0,
                  suspicionByPlayer = Map.empty, turnsTaken = 0,
                  goldByPlayer = goldByPlayer (metrics ?s1), round_no = roundNumber ?s1,
                  efficiencyByPlayer = Map.empty, activePlayerId = None, turnEndsAt = None\<rparr>\<rparr>"
  let ?s3 = "(clearTurnTimer ?s2)\<lparr>turnIndex := 0\<rparr>"
  from assms obtain s4 where l: "reset_players e (roleDistribution (rand_roles e) (length (players ?s3)))
        (enumerate 0 (map fst (players ?s3))) ?s3 = Inr s4"
    and s': "s' = syncBoardTelemetry
        (if map fst (players s4) \<noteq> [] then
           setTurnTimer e (s4\<lparr>metrics := (metrics s4)\<lparr>activePlayerId := Some (hd (map fst (players s4)))\<rparr>\<rparr>)
         else s4)"
    unfolding resetRoom_def Let_def by (auto split: sum.splits)
  from reset_players_efficiency [OF l] have "efficiencyByPlayer (metrics s4) = Map.empty" by simp
  then show ?thesis unfolding s' by simp
qed

lemma step_efficiency_zero:
  assumes "efficiency_zero s" and "step e a s = Inr s'"
  shows "efficiency_zero s'"
proof (cases a)
  case (Join sid nm)
  with assms(2) have i: "insertPlayer e sid nm s = Inr s'" by simp
  from insertPlayer_fields(2) [OF i] assms(1) show ?thesis by (simp add: efficiency_zero_def)
next
  case (Leave sid)
  with assms(2) have "s' = removePlayer e sid s" by simp
  then show ?thesis using assms(1) by (simp add: efficiency_zero_def removePlayer_fields)
next
  case (Move sid pos rot)
  with assms(2) have "s' = updatePlayerPose sid pos rot s" by simp
  then show ?thesis using assms(1) by (simp add: efficiency_zero_def updatePlayerPose_fields)
next
  case (Place sid payload)
  with assms(2) obtain r where p: "placeCard e sid payload s = Inr (s', r)"
    by (cases "placeCard e sid payload s") auto
  from placeCard_cases [OF p] show ?thesis
  proof
    assume "s' = s"
    with assms(1) show ?thesis by simp
  next
    assume "\<exists>c cs. place_commit e sid payload c cs (progress (metrics s)) (roundEnded s) s = Inr (s', r)"
    then obtain c cs where
      "place_commit e sid payload c cs (progress (metrics s)) (roundEnded s) s = Inr (s', r)" by blast
    from place_commit_fields(2) [OF this] assms(1) show ?thesis
      by (auto simp: efficiency_zero_def or_zero_def split: option.splits if_splits)
  qed
next
  case (Rock sid target)
  with assms(2) obtain r where p: "triggerRockfall e sid target s = Inr (s', r)"
    by (cases "triggerRockfall e sid target s") auto
  from triggerRockfall_cases [OF p] show ?thesis
  proof
    assume "s' = s"
    with assms(1) show ?thesis by simp
  next
    assume "\<exists>c. rockfall_commit e sid target c s = Inr (s', r)"
    then obtain c where "rockfall_commit e sid target c s = Inr (s', r)" by blast
    from rockfall_commit_fields(2) [OF this] assms(1) show ?thesis by (simp add: efficiency_zero_def)
  qed
next
  case (Tool sid target ck)
  with assms(2) obtain r where p: "applyToolEffect e sid target ck s = Inr (s', r)"
    by (cases "applyToolEffect e sid target ck s") auto
  from applyToolEffect_cases [OF p] show ?thesis
  proof
    assume "s' = s"
    with assms(1) show ?thesis by simp
  next
    assume "\<exists>c. tool_commit e sid target ck c s = Inr (s', r)"
    then obtain c where "tool_commit e sid target ck c s = Inr (s', r)" by blast
    from tool_commit_fields(2) [OF this] assms(1) show ?thesis by (simp add: efficiency_zero_def)
  qed
next
  case Restart
  with assms(2) have "resetRoom e s = Inr s'" by simp
  from resetRoom_efficiency [OF this] show ?thesis by (simp add: efficiency_zero_def)
next
  case TurnTimeout
  with assms(2) have "s' = advanceTurn e s" by simp
  then show ?thesis using assms(1) by (simp add: efficiency_zero_def)
qed

lemma run_efficiency_zero:
  "efficiency_zero s \<Longrightarrow> run acts s = Inr s' \<Longrightarrow> efficiency_zero s'"
proof (induction acts arbitrary: s)
  case Nil
  then show ?case by simp
next
  case (Cons ea acts)
  obtain e a where ea: "ea = (e, a)" by (cases ea)
  from Cons.prems(2) ea obtain s1 where s1: "step e a s = Inr s1" and r: "run acts s1 = Inr s'"
    by (auto split: sum.splits)
  from Cons.IH [OF step_efficiency_zero [OF Cons.prems(1) s1] r] show ?case .
qed

lemma newGameRoom_efficiency_zero: "efficiency_zero (newGameRoom e i)"
  by (simp add: efficiency_zero_def newGameRoom_def Let_def)

text \<open>
  C9. A successful \<^verbatim>\<open>placeCard\<close> adds exactly zero to the placer's efficiency entry
  (the progress it subtracts is read before the telemetry is recomputed) and leaves
  every other entry alone; in every room reached from a new room, every efficiency entry
  is zero.
\<close>

theorem placeCard_efficiency_delta_is_zero:
  "(placeCard e pid payload s = Inr (s', Success r) \<longrightarrow>
      efficiencyByPlayer (metrics s')
        = (efficiencyByPlayer (metrics s))(pid \<mapsto> or_zero (efficiencyByPlayer (metrics s) pid) + 0)
      \<and> (\<forall>k. or_zero (efficiencyByPlayer (metrics s') k) = or_zero (efficiencyByPlayer (metrics s) k)))
   \<and> (run acts (newGameRoom e0 i) = Inr s'' \<longrightarrow> efficiency_zero s'')"
proof (intro conjI impI)
  assume p: "placeCard e pid payload s = Inr (s', Success r)"
  from placeCard_success_commit [OF p] obtain c cs where
    "place_commit e pid payload c cs (progress (metrics s)) (roundEnded s) s = Inr (s', Success r)"
    by blast
  from place_commit_fields(2) [OF this]
  show eq: "efficiencyByPlayer (metrics s')
        = (efficiencyByPlayer (metrics s))(pid \<mapsto> or_zero (efficiencyByPlayer (metrics s) pid) + 0)"
    by simp
  show "\<forall>k. or_zero (efficiencyByPlayer (metrics s') k) = or_zero (efficiencyByPlayer (metrics s) k)"
    unfolding eq by (simp add: or_zero_def)
next
  assume "run acts (newGameRoom e0 i) = Inr s''"
  with newGameRoom_efficiency_zero show "efficiency_zero s''"
    by (rule run_efficiency_zero)
qed

theorem placeCard_efficiency_delta_is_zero_witness:
  "is_success (placeCard demo_env ''alice'' straight_to_3_1 alice_room)
   \<and> run [(demo_env, Join ''alice'' None)] (newGameRoom demo_env ''default-room'') = Inr alice_room
   \<and> efficiency_zero alice_room
   \<and> progress (metrics alice_room) = 0
   \<and> progress (metrics (fst (projr (placeCard demo_env ''alice'' straight_to_3_1 alice_room)))) = 1 / 8
   \<and> or_zero (efficiencyByPlayer
        (metrics (fst (projr (placeCard demo_env ''alice'' straight_to_3_1 alice_room)))) ''alice'') = 0"
proof -
  let ?res = "placeCard demo_env ''alice'' straight_to_3_1 alice_room"
  from alice_places_straight obtain s' r where p: "?res = Inr (s', Success r)"
    by (rule is_successE)
  have j: "run [(demo_env, Join ''alice'' None)] (newGameRoom demo_env ''default-room'') = Inr alice_room"
    using alice_room_joined by (simp add: demo_room_def)
  note t = placeCard_efficiency_delta_is_zero
    [of demo_env "''alice''" straight_to_3_1 alice_room s' r
        "[(demo_env, Join ''alice'' None)]" demo_env "''default-room''" alice_room]
  from t j have z: "efficiency_zero alice_room" by blast
  from t p have "\<forall>k. or_zero (efficiencyByPlayer (metrics s') k)
      = or_zero (efficiencyByPlayer (metrics alice_room) k)" by blast
  moreover have "or_zero (efficiencyByPlayer (metrics alice_room) ''alice'') = 0"
    using z by (auto simp: efficiency_zero_def or_zero_def split: option.splits)
  ultimately have e: "or_zero (efficiencyByPlayer (metrics s') ''alice'') = 0" by simp
  have p0: "progress (metrics alice_room) = 0" by code_simp
  have p1: "progress (metrics (fst (projr ?res))) = 1 / 8" by code_simp
  from alice_places_straight j z p0 p1 e p show ?thesis by simp
qed

subsection \<open>Suspicion stays between 0 and 1\<close>

lemma suspicion_ok_iff:
  "suspicion_ok s \<longleftrightarrow>
     (\<forall>k v. suspicionByPlayer (metrics s) k = Some v \<longrightarrow> unit_interval v)
     \<and> list_all (\<lambda>(k, v). unit_interval v) (map (\<lambda>(k, p). (k, suspicion p)) (players s))"
  by (auto simp: suspicion_ok_def unit_interval_def list_all_iff)

lemma unit_interval_or_zero:
  "(\<forall>k v. m k = Some v \<longrightarrow> unit_interval v) \<Longrightarrow> unit_interval (or_zero (m k))"
  by (auto simp: or_zero_def unit_interval_def split: option.splits)

lemma unit_interval_steps:
  assumes "unit_interval v"
  shows "unit_interval (max 0 (v - 5 / 100))" and "unit_interval (max 0 (v - 4 / 100))"
    and "unit_interval (min 1 (v + 15 / 100))" and "unit_interval (min 1 (v + 12 / 100))"
  using assms by (auto simp: unit_interval_def)

lemma unit_interval_initial: "unit_interval (initial_suspicion r)"
  by (simp add: unit_interval_def initial_suspicion_def)

lemma map_upd_all:
  "(\<forall>k v. m k = Some v \<longrightarrow> P v) \<Longrightarrow> P x \<Longrightarrow> (\<forall>k v. (m(j \<mapsto> x)) k = Some v \<longrightarrow> P v)"
  by auto

lemma suspicions_update:
  "map (\<lambda>(k, p). (k, suspicion p)) (AList.update k v ps)
   = AList.update k (suspicion v) (map (\<lambda>(k, p). (k, suspicion p)) ps)"
  by (induction ps) auto

lemma list_all_update:
  "list_all (\<lambda>(k, v). P v) al \<Longrightarrow> P x \<Longrightarrow> list_all (\<lambda>(k, v). P v) (AList.update j x al)"
  by (induction al) auto

lemma list_all_delete:
  "list_all P al \<Longrightarrow> list_all P (AList.delete j al)"
  by (induction al) auto

lemma list_all_map_entry:
  "list_all (\<lambda>(k, p). P p) al \<Longrightarrow> (\<And>p. P (f p)) \<Longrightarrow> list_all (\<lambda>(k, p). P p) (AList.map_entry j f al)"
  by (induction al) auto

lemma place_commit_suspicion_ok:
  assumes "suspicion_ok s" and "place_commit e pid payload c cs pp eb s = Inr (s', r)"
  shows "suspicion_ok s'"
proof -
  note f = place_commit_fields(1,3) [OF assms(2)]
  from assms(1) have a: "\<forall>k v. suspicionByPlayer (metrics s) k = Some v \<longrightarrow> unit_interval v"
    and b: "list_all (\<lambda>(k, v). unit_interval v) (map (\<lambda>(k, p). (k, suspicion p)) (players s))"
    by (simp_all add: suspicion_ok_iff)
  have "unit_interval (max 0 (or_zero (suspicionByPlayer (metrics s) pid) - 5 / 100))"
    by (intro unit_interval_steps unit_interval_or_zero a)
  with a have "\<forall>k v. suspicionByPlayer (metrics s') k = Some v \<longrightarrow> unit_interval v"
    unfolding f(1) by (rule map_upd_all)
  moreover from suspicions_core [OF f(2)] b
  have "list_all (\<lambda>(k, v). unit_interval v) (map (\<lambda>(k, p). (k, suspicion p)) (players s'))" by simp
  ultimately show ?thesis by (simp add: suspicion_ok_iff)
qed

lemma rockfall_commit_suspicion_ok:
  assumes "suspicion_ok s" and "rockfall_commit e pid target c s = Inr (s', r)"
  shows "suspicion_ok s'"
proof -
  note f = rockfall_commit_fields(1,3) [OF assms(2)]
  from assms(1) have a: "\<forall>k v. suspicionByPlayer (metrics s) k = Some v \<longrightarrow> unit_interval v"
    and b: "list_all (\<lambda>(k, v). unit_interval v) (map (\<lambda>(k, p). (k, suspicion p)) (players s))"
    by (simp_all add: suspicion_ok_iff)
  have "unit_interval (min 1 (or_zero (suspicionByPlayer (metrics s) pid) + 15 / 100))"
    by (intro unit_interval_steps unit_interval_or_zero a)
  with a have "\<forall>k v. suspicionByPlayer (metrics s') k = Some v \<longrightarrow> unit_interval v"
    unfolding f(1) by (rule map_upd_all)
  moreover from suspicions_core [OF f(2)] b
  have "list_all (\<lambda>(k, v). unit_interval v) (map (\<lambda>(k, p). (k, suspicion p)) (players s'))" by simp
  ultimately show ?thesis by (simp add: suspicion_ok_iff)
qed

lemma tool_commit_suspicion_ok:
  assumes "suspicion_ok s" and "tool_commit e pid target ck c s = Inr (s', r)"
  shows "suspicion_ok s'"
proof -
  note f = tool_commit_fields(1,3) [OF assms(2)]
  from assms(1) have a: "\<forall>k v. suspicionByPlayer (metrics s) k = Some v \<longrightarrow> unit_interval v"
    and b: "list_all (\<lambda>(k, v). unit_interval v) (map (\<lambda>(k, p). (k, suspicion p)) (players s))"
    by (simp_all add: suspicion_ok_iff)
  have "unit_interval (if ck = ''break''
                          then min 1 (or_zero (suspicionByPlayer (metrics s) pid) + 12 / 100)
                          else max 0 (or_zero (suspicionByPlayer (metrics s) pid) - 4 / 100))"
    using unit_interval_steps [OF unit_interval_or_zero [OF a, of pid]] by simp
  with a have "\<forall>k v. suspicionByPlayer (metrics s') k = Some v \<longrightarrow> unit_interval v"
    unfolding f(1) by (rule map_upd_all)
  moreover from f(2) b
  have "list_all (\<lambda>(k, v). unit_interval v) (map (\<lambda>(k, p). (k, suspicion p)) (players s'))" by simp
  ultimately show ?thesis by (simp add: suspicion_ok_iff)
qed

lemma insertPlayer_suspicion_ok:
  assumes "suspicion_ok s" and "insertPlayer e sid nm s = Inr s'"
  shows "suspicion_ok s'"
proof -
  note f = insertPlayer_fields(1,3) [OF assms(2)]
  from assms(1) have a: "\<forall>k v. suspicionByPlayer (metrics s) k = Some v \<longrightarrow> unit_interval v"
    and b: "list_all (\<lambda>(k, v). unit_interval v) (map (\<lambda>(k, p). (k, suspicion p)) (players s))"
    by (simp_all add: suspicion_ok_iff)
  from a unit_interval_initial
  have "\<forall>k v. suspicionByPlayer (metrics s') k = Some v \<longrightarrow> unit_interval v"
    unfolding f(1) by (rule map_upd_all)
  moreover from f(2) obtain p where
    c: "players_core (players s') = players_core (AList.update sid p (players s))"
    and sp: "suspicion p = initial_suspicion (role p)" by blast
  have "list_all (\<lambda>(k, v). unit_interval v)
          (map (\<lambda>(k, p). (k, suspicion p)) (AList.update sid p (players s)))"
    unfolding suspicions_update using b by (rule list_all_update) (simp add: sp unit_interval_initial)
  with suspicions_core [OF c]
  have "list_all (\<lambda>(k, v). unit_interval v) (map (\<lambda>(k, p). (k, suspicion p)) (players s'))" by simp
  ultimately show ?thesis by (simp add: suspicion_ok_iff)
qed

lemma removePlayer_suspicion_ok:
  assumes "suspicion_ok s"
  shows "suspicion_ok (removePlayer e i s)"
  using assms
  by (auto simp: suspicion_ok_def removePlayer_fields intro: list_all_delete)

lemma updatePlayerPose_suspicion_ok:
  assumes "suspicion_ok s"
  shows "suspicion_ok (updatePlayerPose i pos rot s)"
  using assms by (simp add: suspicion_ok_iff updatePlayerPose_fields)

lemma advanceTurn_suspicion_ok:
  assumes "suspicion_ok s"
  shows "suspicion_ok (advanceTurn e s)"
  using assms by (simp add: suspicion_ok_def)

lemma drawCards_suspicion_ok:
  assumes "suspicion_ok s" and "drawCards e k n s = Inr s'"
  shows "suspicion_ok s'"
  using assms(1) drawCards_fields(3) [OF assms(2)] suspicions_core [OF drawCards_fields(7) [OF assms(2)]]
  by (simp add: suspicion_ok_iff)

lemma reset_player_suspicion_ok:
  assumes "suspicion_ok s" and "reset_player e roles ik s = Inr s'"
  shows "suspicion_ok s'"
proof -
  obtain idx k where ik: "ik = (idx, k)" by (cases ik)
  let ?f = "\<lambda>p. p\<lparr>role := roles ! idx, position := (0, 8 / 5, 0), player_rotation := (0, 0, 0, 1),
                           hand := [], connected := True, toolBroken := False,
                           suspicion := initial_suspicion (roles ! idx), score := score p\<rparr>"
  let ?s1 = "s\<lparr>players := AList.map_entry k ?f (players s)\<rparr>"
  let ?s2 = "(case map_of (players ?s1) k of
                    None \<Rightarrow> ?s1
                  | Some p \<Rightarrow> ?s1\<lparr>metrics := (metrics ?s1)\<lparr>suspicionByPlayer :=
                                 (suspicionByPlayer (metrics ?s1))(player_id p \<mapsto> suspicion p)\<rparr>\<rparr>)"
  from assms(2) have d: "drawCards e k 5 ?s2 = Inr s'"
    unfolding reset_player_def ik Let_def by simp
  from assms(1) have a: "\<forall>k v. suspicionByPlayer (metrics s) k = Some v \<longrightarrow> 0 \<le> v \<and> v \<le> 1"
    and b: "list_all (\<lambda>(k, p). unit_interval (suspicion p)) (players s)"
    by (simp_all add: suspicion_ok_def unit_interval_def)
  have b1: "list_all (\<lambda>(k, p). unit_interval (suspicion p)) (players ?s1)"
    using list_all_map_entry [where P = "\<lambda>p. unit_interval (suspicion p)", OF b, of ?f k]
    by (simp add: unit_interval_initial)
  have ok1: "suspicion_ok ?s1"
    using a b1 by (simp add: suspicion_ok_def unit_interval_def)
  have "suspicion_ok ?s2"
  proof (cases "map_of (players ?s1) k")
    case None
    then show ?thesis using ok1 by simp
  next
    case (Some p)
    then have "(k, p) \<in> set (players ?s1)" by (rule map_of_SomeD)
    with b1 have "unit_interval (suspicion p)" by (auto simp: list_all_iff)
    then show ?thesis
      using Some a b1 by (simp add: suspicion_ok_def unit_interval_def)
  qed
  then show ?thesis using d by (rule drawCards_suspicion_ok)
qed

lemma reset_players_suspicion_ok:
  "suspicion_ok s \<Longrightarrow> reset_players e roles iks s = Inr s' \<Longrightarrow> suspicion_ok s'"
proof (induction iks arbitrary: s)
  case Nil
  then show ?case by simp
next
  case (Cons ik iks)
  from Cons.prems(2) obtain s1 where a: "reset_player e roles ik s = Inr s1"
    and b: "reset_players e roles iks s1 = Inr s'"
    by (auto split: sum.splits)
  from Cons.IH [OF reset_player_suspicion_ok [OF Cons.prems(1) a] b] show ?case .
qed

lemma resetRoom_suspicion_ok:
  assumes "suspicion_ok s" and "resetRoom e s = Inr s'"
  shows "suspicion_ok s'"
proof -
  let ?d = "generateDeck (uuids e) (rand_deck e)"
  let ?s1 = "s\<lparr>board := createBoard (rand_gold e), deck := ?d, discard := [],
                 roundEnded := False, roundNumber := roundNumber s + 1,
                 lastAwards := Some Map.empty, lastWinnerId := None, lastWinningTeam := None\<rparr>"
  let ?s2 = "?s1\<lparr>metrics :=
                 \<lparr>deckRemaining = length (deck ?s1), progress = 0, collapsedTiles = 0,
                  suspicionByPlayer = Map.empty, turnsTaken = 0,
                  goldByPlayer = goldByPlayer (metrics ?s1), round_no = roundNumber ?s1,
                  efficiencyByPlayer = Map.empty, activePlayerId = None, turnEndsAt = None\<rparr>\<rparr>"
  let ?s3 = "(clearTurnTimer ?s2)\<lparr>turnIndex := 0\<rparr>"
  from assms(2) obtain s4 where l: "reset_players e (roleDistribution (rand_roles e) (length (players ?s3)))
        (enumerate 0 (map fst (players ?s3))) ?s3 = Inr s4"
    and s': "s' = syncBoardTelemetry
        (if map fst (players s4) \<noteq> [] then
           setTurnTimer e (s4\<lparr>metrics := (metrics s4)\<lparr>activePlayerId := Some (hd (map fst (players s4)))\<rparr>\<rparr>)
         else s4)"
    unfolding resetRoom_def Let_def by (auto split: sum.splits)
  have "suspicion_ok ?s3" using assms(1) by (simp add: suspicion_ok_def)
  from reset_players_suspicion_ok [OF this l] have "suspicion_ok s4" .
  then show ?thesis unfolding s' by (simp add: suspicion_ok_def)
qed

lemma newGameRoom_suspicion_ok: "suspicion_ok (newGameRoom e i)"
  by (simp add: suspicion_ok_def newGameRoom_def Let_def)

lemma step_suspicion_ok:
  assumes "suspicion_ok s" and "step e a s = Inr s'"
  shows "suspicion_ok s'"
proof (cases a)
  case (Join sid nm)
  with assms show ?thesis by (auto intro: insertPlayer_suspicion_ok)
next
  case (Leave sid)
  with assms show ?thesis by (auto intro: removePlayer_suspicion_ok)
next
  case (Move sid pos rot)
  with assms show ?thesis by (auto intro: updatePlayerPose_suspicion_ok)
next
  case (Place sid payload)
  with assms(2) obtain r where p: "placeCard e sid payload s = Inr (s', r)"
    by (cases "placeCard e sid payload s") auto
  from placeCard_cases [OF p] assms(1) show ?thesis
    by (auto intro: place_commit_suspicion_ok)
next
  case (Rock sid target)
  with assms(2) obtain r where p: "triggerRockfall e sid target s = Inr (s', r)"
    by (cases "triggerRockfall e sid target s") auto
  from triggerRockfall_cases [OF p] assms(1) show ?thesis
    by (auto intro: rockfall_commit_suspicion_ok)
next
  case (Tool sid target ck)
  with assms(2) obtain r where p: "applyToolEffect e sid target ck s = Inr (s', r)"
    by (cases "applyToolEffect e sid target ck s") auto
  from applyToolEffect_cases [OF p] assms(1) show ?thesis
    by (auto intro: tool_commit_suspicion_ok)
next
  case Restart
  with assms show ?thesis by (auto intro: resetRoom_suspicion_ok)
next
  case TurnTimeout
  with assms show ?thesis by (auto intro: advanceTurn_suspicion_ok)
qed

lemma run_suspicion_ok:
  "suspicion_ok s \<Longrightarrow> run acts s = Inr s' \<Longrightarrow> suspicion_ok s'"
proof (induction acts arbitrary: s)
  case Nil
  then show ?case by simp
next
  case (Cons ea acts)
  obtain e a where ea: "ea = (e, a)" by (cases ea)
  from Cons.prems(2) ea obtain s1 where s1: "step e a s = Inr s1" and r: "run acts s1 = Inr s'"
    by (auto split: sum.splits)
  from Cons.IH [OF step_suspicion_ok [OF Cons.prems(1) s1] r] show ?case .
qed

lemma applyToolEffect_success_commit:
  assumes "applyToolEffect e pid target ck s = Inr (s', Success r)"
  shows "\<exists>c. tool_commit e pid target ck c s = Inr (s', Success r)"
  using assms unfolding applyToolEffect_def
  by (auto split: if_splits option.splits)

lemma triggerRockfall_success_commit:
  assumes "triggerRockfall e pid target s = Inr (s', Success r)"
  shows "\<exists>c. rockfall_commit e pid target c s = Inr (s', Success r)"
  using assms unfolding triggerRockfall_def
  by (auto split: if_splits option.splits)

text \<open>
  C8. Every suspicion value of a new room lies in \<open>[0, 1]\<close>, every action keeps all
  of them there, and so does every sequence of actions from a new room.  A placement
  lowers the placer's value by 0.05 and a repair lowers the actor's by 0.04, both floored
  at 0; a rockfall raises the actor's by 0.15 and a break by 0.12, both capped at 1; a
  player who joins starts at 0 or 0.5.
\<close>

theorem suspicion_stays_in_unit_interval:
  "suspicion_ok (newGameRoom e0 i)
   \<and> (suspicion_ok s \<and> step e a s = Inr s' \<longrightarrow> suspicion_ok s')
   \<and> (run acts (newGameRoom e0 i) = Inr s'' \<longrightarrow> suspicion_ok s'')
   \<and> (placeCard e p payload s = Inr (s1, Success r1) \<longrightarrow>
        suspicionByPlayer (metrics s1) p
          = Some (max 0 (or_zero (suspicionByPlayer (metrics s) p) - 5 / 100)))
   \<and> (triggerRockfall e p target s = Inr (s2, Success r2) \<longrightarrow>
        suspicionByPlayer (metrics s2) p
          = Some (min 1 (or_zero (suspicionByPlayer (metrics s) p) + 15 / 100)))
   \<and> (applyToolEffect e p q ck s = Inr (s3, Success r3) \<longrightarrow>
        suspicionByPlayer (metrics s3) p
          = Some (if ck = ''break''
                  then min 1 (or_zero (suspicionByPlayer (metrics s) p) + 12 / 100)
                  else max 0 (or_zero (suspicionByPlayer (metrics s) p) - 4 / 100)))
   \<and> (insertPlayer e p nm s = Inr s4 \<longrightarrow>
        suspicionByPlayer (metrics s4) p = Some 0 \<or> suspicionByPlayer (metrics s4) p = Some (1 / 2))"
proof (intro conjI impI)
  show "suspicion_ok (newGameRoom e0 i)" by (rule newGameRoom_suspicion_ok)
next
  assume "suspicion_ok s \<and> step e a s = Inr s'"
  then show "suspicion_ok s'" using step_suspicion_ok by blast
next
  assume "run acts (newGameRoom e0 i) = Inr s''"
  with newGameRoom_suspicion_ok show "suspicion_ok s''" by (rule run_suspicion_ok)
next
  assume "placeCard e p payload s = Inr (s1, Success r1)"
  from placeCard_success_commit [OF this] obtain c cs where
    "place_commit e p payload c cs (progress (metrics s)) (roundEnded s) s = Inr (s1, Success r1)"
    by blast
  from place_commit_fields(1) [OF this]
  show "suspicionByPlayer (metrics s1) p
          = Some (max 0 (or_zero (suspicionByPlayer (metrics s) p) - 5 / 100))" by simp
next
  assume "triggerRockfall e p target s = Inr (s2, Success r2)"
  from triggerRockfall_success_commit [OF this] obtain c where
    "rockfall_commit e p target c s = Inr (s2, Success r2)" by blast
  from rockfall_commit_fields(1) [OF this]
  show "suspicionByPlayer (metrics s2) p
          = Some (min 1 (or_zero (suspicionByPlayer (metrics s) p) + 15 / 100))" by simp
next
  assume "applyToolEffect e p q ck s = Inr (s3, Success r3)"
  from applyToolEffect_success_commit [OF this] obtain c where
    "tool_commit e p q ck c s = Inr (s3, Success r3)" by blast
  from tool_commit_fields(1) [OF this]
  show "suspicionByPlayer (metrics s3) p
          = Some (if ck = ''break''
                  then min 1 (or_zero (suspicionByPlayer (metrics s) p) + 12 / 100)
                  else max 0 (or_zero (suspicionByPlayer (metrics s) p) - 4 / 100))" by simp
next
  assume "insertPlayer e p nm s = Inr s4"
  from insertPlayer_fields(1) [OF this]
  show "suspicionByPlayer (metrics s4) p = Some 0 \<or> suspicionByPlayer (metrics s4) p = Some (1 / 2)"
    by (simp add: initial_suspicion_def)
qed

theorem suspicion_stays_in_unit_interval_witness:
  "suspicion_ok demo_room
   \<and> step demo_env (Join ''alice'' None) demo_room = Inr alice_room
   \<and> suspicion_ok alice_room
   \<and> suspicionByPlayer (metrics alice_room) ''alice'' = Some 0
   \<and> suspicionByPlayer
        (metrics (fst (projr (placeCard demo_env ''alice'' straight_to_3_1 alice_room)))) ''alice'' = Some 0
   \<and> suspicionByPlayer (metrics bob_room) ''bob'' = Some (19 / 20)
   \<and> suspicionByPlayer
        (metrics (fst (projr (triggerRockfall demo_env ''bob'' ''3-4'' bob_room)))) ''bob'' = Some 1
   \<and> suspicionByPlayer
        (metrics (fst (projr (applyToolEffect demo_env ''bob'' ''bob'' ''break'' bob_room)))) ''bob'' = Some 1"
proof -
  let ?place = "placeCard demo_env ''alice'' straight_to_3_1 alice_room"
  let ?rock = "triggerRockfall demo_env ''bob'' ''3-4'' bob_room"
  let ?tool = "applyToolEffect demo_env ''bob'' ''bob'' ''break'' bob_room"
  from alice_places_straight obtain s1 r1 where p: "?place = Inr (s1, Success r1)"
    by (rule is_successE)
  have "is_success ?rock" by code_simp
  then obtain s2 r2 where k: "?rock = Inr (s2, Success r2)" by (rule is_successE)
  have "is_success ?tool" by code_simp
  then obtain s3 r3 where t: "?tool = Inr (s3, Success r3)" by (rule is_successE)
  have j: "step demo_env (Join ''alice'' None) demo_room = Inr alice_room"
    using alice_room_joined by simp
  have a0: "suspicionByPlayer (metrics alice_room) ''alice'' = Some 0" by code_simp
  have b0: "suspicionByPlayer (metrics bob_room) ''bob'' = Some (19 / 20)"
    by (simp add: bob_room_def)
  note th1 = suspicion_stays_in_unit_interval
    [where ?e0.0 = demo_env and i = "''default-room''" and s = demo_room and e = demo_env
       and a = "Join ''alice'' None" and s' = alice_room]
  note th1' = suspicion_stays_in_unit_interval
    [where s = alice_room and e = demo_env and p = "''alice''" and payload = straight_to_3_1
       and ?s1.0 = s1 and ?r1.0 = r1]
  note th2 = suspicion_stays_in_unit_interval
    [where s = bob_room and e = demo_env and p = "''bob''" and target = "''3-4''"
       and ?s2.0 = s2 and ?r2.0 = r2 and q = "''bob''" and ck = "''break''"
       and ?s3.0 = s3 and ?r3.0 = r3]
  from th1 have d: "suspicion_ok demo_room" by (simp add: demo_room_def)
  from th1 d j have a: "suspicion_ok alice_room" by blast
  from th1' p have "suspicionByPlayer (metrics s1) ''alice''
      = Some (max 0 (or_zero (suspicionByPlayer (metrics alice_room) ''alice'') - 5 / 100))" by blast
  then have e1: "suspicionByPlayer (metrics s1) ''alice'' = Some 0"
    by (simp add: a0 or_zero_def)
  from th2 k have "suspicionByPlayer (metrics s2) ''bob''
      = Some (min 1 (or_zero (suspicionByPlayer (metrics bob_room) ''bob'') + 15 / 100))" by blast
  then have e2: "suspicionByPlayer (metrics s2) ''bob'' = Some 1"
    by (simp add: b0 or_zero_def)
  from th2 t have "suspicionByPlayer (metrics s3) ''bob''
      = Some (if ''break'' = ''break''
              then min 1 (or_zero (suspicionByPlayer (metrics bob_room) ''bob'') + 12 / 100)
              else max 0 (or_zero (suspicionByPlayer (metrics bob_room) ''bob'') - 4 / 100))" by blast
  then have e3: "suspicionByPlayer (metrics s3) ''bob'' = Some 1"
    by (simp add: b0 or_zero_def)
  from d j a a0 b0 e1 e2 e3 p k t show ?thesis by simp
qed

subsection \<open>The connection rule and the commit of a placement\<close>

lemma maybeFinishRound_throws:
  "maybeFinishRound e pl s = Inl err \<longleftrightarrow> settlement_throws s"
proof -
  have a: "applyRoundRewards e pl (s\<lparr>roundEnded := True, lastWinnerId := pl\<rparr>) = Inl err \<longleftrightarrow>
     winningTeam (board s) = Some Miner \<and> players s \<noteq> []
     \<and> filter (\<lambda>(k, p). role p = Miner) (players s) = []"
    by (simp add: applyRoundRewards_throws)
  have b: "filter (\<lambda>(k, p). role p = Miner) (players s) = [] \<longleftrightarrow> \<not> has_miner s"
    by (auto simp: has_miner_def list_ex_iff filter_empty_conv)
  have c: "maybeFinishRound e pl s = Inl err \<longleftrightarrow>
     \<not> roundEnded s \<and> winningTeam (board s) \<noteq> None
     \<and> applyRoundRewards e pl (s\<lparr>roundEnded := True, lastWinnerId := pl\<rparr>) = Inl err"
    by (cases err) (auto simp: maybeFinishRound_def split: sum.splits)
  show ?thesis unfolding c a b settlement_throws_def by auto
qed

lemma maybeFinishRound_idle:
  "\<not> roundEnded s \<Longrightarrow> winningTeam (board s) = None \<Longrightarrow> maybeFinishRound e pl s = Inr s"
  by (simp add: maybeFinishRound_def)

lemma maybeFinishRound_roundEnded:
  assumes "maybeFinishRound e pl s = Inr s'"
  shows "roundEnded s' \<longleftrightarrow> roundEnded s \<or> winningTeam (board s) \<noteq> None"
proof (cases "roundEnded s")
  case True
  with assms show ?thesis by (simp add: maybeFinishRound_ended)
next
  case False
  show ?thesis
  proof (cases "winningTeam (board s) = None")
    case True
    with False assms show ?thesis by (simp add: maybeFinishRound_idle)
  next
    case False
    with maybeFinishRound_frame [OF assms] show ?thesis by blast
  qed
qed

lemma map_entry_Nil_iff [simp]: "AList.map_entry k f ps = [] \<longleftrightarrow> ps = []"
  by (cases ps) auto

lemma winning_maybeDeclare_Miner [simp]:
  "winningTeam (board (maybeDeclareSaboteurWin s)) = Some Miner \<longleftrightarrow> winningTeam (board s) = Some Miner"
  by (simp add: maybeDeclareSaboteurWin_def)

lemma settlement_throws_cong:
  assumes "roundEnded s' = roundEnded s"
    and "winningTeam (board s') = Some Miner \<longleftrightarrow> winningTeam (board s) = Some Miner"
    and "players_core (players s') = players_core (players s)"
  shows "settlement_throws s' = settlement_throws s"
proof -
  have "length (players_core ps) = length ps" for ps
    by (simp add: players_core_def)
  with assms(3) have "length (players s') = length (players s)"
    by metis
  then have "players s' = [] \<longleftrightarrow> players s = []" by auto
  with assms has_miner_core [OF assms(3)] show ?thesis by (simp add: settlement_throws_def)
qed

lemma drawCards_throws: "drawCards e k n s = Inl err \<longleftrightarrow> settlement_throws s"
  unfolding drawCards_eq maybeFinishRound_throws
  by (rule settlement_throws_cong) simp_all

lemma drawCards_result:
  assumes "drawCards e k n s = Inr s'"
  shows "board s' = (board s)\<lparr>winningTeam :=
            (if winningTeam (board s) = None \<and> length (deck s) \<le> n then Some Saboteur
             else winningTeam (board s))\<rparr>"
    and "roundEnded s' \<longleftrightarrow> roundEnded s \<or> winningTeam (board s) \<noteq> None \<or> length (deck s) \<le> n"
    and "deck s' = take (length (deck s) - n) (deck s)"
    and "turnsTaken (metrics s') = turnsTaken (metrics s)"
proof -
  let ?h = "case map_of (players s) k of None \<Rightarrow> [] | Some p \<Rightarrow> hand p"
  let ?s1 = "s\<lparr>deck := fst (draw_loop n (deck s) ?h),
          players := AList.map_entry k (\<lambda>p. p\<lparr>hand := snd (draw_loop n (deck s) ?h)\<rparr>) (players s),
          metrics := (metrics s)\<lparr>deckRemaining := length (fst (draw_loop n (deck s) ?h))\<rparr>\<rparr>"
  let ?x = "maybeDeclareSaboteurWin ?s1"
  from assms have m: "maybeFinishRound e None ?x = Inr s'" unfolding drawCards_eq .
  have bx: "board ?x = (board s)\<lparr>winningTeam :=
            (if winningTeam (board s) = None \<and> length (deck s) \<le> n then Some Saboteur
             else winningTeam (board s))\<rparr>"
    by (simp add: maybeDeclareSaboteurWin_def draw_loop_fst)
  note f = maybeFinishRound_fields [OF m]
  show "board s' = (board s)\<lparr>winningTeam :=
            (if winningTeam (board s) = None \<and> length (deck s) \<le> n then Some Saboteur
             else winningTeam (board s))\<rparr>"
    using f(1) bx by simp
  have "roundEnded s' \<longleftrightarrow> roundEnded ?x \<or> winningTeam (board ?x) \<noteq> None"
    using m by (rule maybeFinishRound_roundEnded)
  then show "roundEnded s' \<longleftrightarrow> roundEnded s \<or> winningTeam (board s) \<noteq> None \<or> length (deck s) \<le> n"
    unfolding bx by auto
  show "deck s' = take (length (deck s) - n) (deck s)"
    using f(2) by (simp add: draw_loop_fst)
  from maybeFinishRound_frame [OF m]
  have "s' = ?x\<lparr>players := players s', metrics := (metrics ?x)\<lparr>goldByPlayer := goldByPlayer (metrics s')\<rparr>,
                roundEnded := roundEnded s', lastWinnerId := lastWinnerId s',
                lastAwards := lastAwards s', lastWinners := lastWinners s',
                lastWinningTeam := lastWinningTeam s'\<rparr>" by (rule conjunct1)
  then have "turnsTaken (metrics s') = turnsTaken (metrics (?x\<lparr>players := players s', metrics := (metrics ?x)\<lparr>goldByPlayer := goldByPlayer (metrics s')\<rparr>,
                roundEnded := roundEnded s', lastWinnerId := lastWinnerId s',
                lastAwards := lastAwards s', lastWinners := lastWinners s',
                lastWinningTeam := lastWinningTeam s'\<rparr>))" by simp
  then have "turnsTaken (metrics s') = turnsTaken (metrics ?x)" by simp
  then show "turnsTaken (metrics s') = turnsTaken (metrics s)" by simp
qed

lemma syncBoardTelemetry_tiles:
  "tiles (board (syncBoardTelemetry s))
   = map (\<lambda>t. if tileType t = Goal \<and> tile_id t \<in> snd (exploreBoard (board s))
               then t\<lparr>revealed := True\<rparr> else t) (tiles (board s))"
  by (simp add: syncBoardTelemetry_def Let_def split: prod.splits)

lemma syncBoardTelemetry_Miner:
  "winningTeam (board (syncBoardTelemetry s)) = Some Miner
   \<longleftrightarrow> gold_reached (board s) \<or> winningTeam (board s) = Some Miner"
  by (simp add: syncBoardTelemetry_def Let_def gold_reached_def conj_assoc split: prod.splits)

lemma syncBoardTelemetry_turnsTaken [simp]:
  "turnsTaken (metrics (syncBoardTelemetry s)) = turnsTaken (metrics s)"
  by (simp add: syncBoardTelemetry_def Let_def split: prod.splits)

lemma advanceTurn_turnsTaken [simp]:
  "turnsTaken (metrics (advanceTurn e s)) = turnsTaken (metrics s)"
  by (simp add: advanceTurn_def setTurnTimer_def Let_def)

lemma board_winning_same [simp]: "b\<lparr>winningTeam := winningTeam b\<rparr> = (b :: board_state)"
  by simp

lemma place_commit_eq:
  "place_commit e pid payload c cs pp eb s =
     (case drawCards e pid 1 (place_mutated pid payload c cs pp s) of
        Inl err \<Rightarrow> Inl err
      | Inr s7 \<Rightarrow>
          (case maybeFinishRound e (Some pid) (advanceTurn e (syncBoardTelemetry s7)) of
             Inl err \<Rightarrow> Inl err
           | Inr s8 \<Rightarrow>
               Inr (s8, Success \<lparr>placed_card = c, res_roundEnded = (\<not> eb \<and> roundEnded s8),
                                  placerId = (if \<not> eb \<and> roundEnded s8 then Some pid else None)\<rparr>)))"
  by (simp add: place_commit_def place_mutated_def Let_def split: sum.splits)

lemma place_mutated_fields [simp]:
  "board (place_mutated pid payload c (Some cn) pp s) = placed_board (board s) pid payload c cn"
  "roundEnded (place_mutated pid payload c cs pp s) = roundEnded s"
  "deck (place_mutated pid payload c cs pp s) = deck s"
  "discard (place_mutated pid payload c cs pp s) = discard s @ [c]"
  "turnsTaken (metrics (place_mutated pid payload c cs pp s)) = turnsTaken (metrics s) + 1"
  "players_core (players (place_mutated pid payload c cs pp s)) = players_core (players s)"
  "winningTeam (board (place_mutated pid payload c cs pp s)) = winningTeam (board s)"
  by (simp_all add: place_mutated_def placed_board_def placed_tile_def [abs_def])

lemma placed_board_winningTeam [simp]:
  "winningTeam (placed_board b pid payload c cn) = winningTeam b"
  by (simp add: placed_board_def)

lemma place_commit_throws_iff:
  assumes "players s \<noteq> []"
  shows "place_commit e pid payload c (Some cn) pp eb s = Inl err
         \<longleftrightarrow> placement_slip s (placed_board (board s) pid payload c cn)"
proof -
  let ?m = "place_mutated pid payload c (Some cn) pp s"
  have nm: "players ?m \<noteq> []" using assms by (simp add: place_mutated_def)
  have hm: "has_miner ?m = has_miner s" by (rule has_miner_core) simp
  have st: "settlement_throws ?m \<longleftrightarrow>
      \<not> roundEnded s \<and> winningTeam (board s) = Some Miner \<and> \<not> has_miner s"
    unfolding settlement_throws_def hm using nm by simp
  show ?thesis
  proof (cases "drawCards e pid 1 ?m")
    case (Inl x)
    then have "settlement_throws ?m" by (simp add: drawCards_throws)
    with st have "placement_slip s (placed_board (board s) pid payload c cn)"
      by (simp add: placement_slip_def)
    moreover from Inl have "place_commit e pid payload c (Some cn) pp eb s = Inl err"
      by (cases err, cases x) (simp add: place_commit_eq)
    ultimately show ?thesis by simp
  next
    case (Inr s7)
    then have nst: "\<not> settlement_throws ?m"
      using drawCards_throws [of e pid 1 ?m] by simp
    note r = drawCards_result [OF Inr]
    note f = drawCards_fields [OF Inr]
    let ?y = "advanceTurn e (syncBoardTelemetry s7)"
    have core7: "players_core (players ?y) = players_core (players s)"
      using f(7) by simp
    have hm7: "has_miner ?y = has_miner s" using core7 by (rule has_miner_core)
    have "length (players_core ps) = length ps" for ps
      by (simp add: players_core_def)
    with core7 have "length (players ?y) = length (players s)" by metis
    with assms have ne7: "players ?y \<noteq> []" by auto
    have re7: "roundEnded ?y \<longleftrightarrow> roundEnded s \<or> winningTeam (board s) \<noteq> None \<or> length (deck s) \<le> 1"
      using r(2) by simp
    have eq: "place_commit e pid payload c (Some cn) pp eb s = Inl err \<longleftrightarrow> settlement_throws ?y"
    proof (cases "maybeFinishRound e (Some pid) ?y")
      case (Inl x)
      then have "settlement_throws ?y" by (simp add: maybeFinishRound_throws)
      moreover from Inl have "place_commit e pid payload c (Some cn) pp eb s = Inl err"
        unfolding place_commit_eq Inr by (cases err, cases x) simp
      ultimately show ?thesis by simp
    next
      case (Inr s8)
      then have "\<not> settlement_throws ?y"
        using maybeFinishRound_throws [of e "Some pid" ?y] by simp
      moreover from Inr have "place_commit e pid payload c (Some cn) pp eb s \<noteq> Inl err"
        unfolding place_commit_eq \<open>drawCards e pid 1 ?m = Inr s7\<close> by simp
      ultimately show ?thesis by simp
    qed
    show ?thesis
    proof (cases "\<not> roundEnded s \<and> winningTeam (board s) = None \<and> 2 \<le> length (deck s)")
      case True
      then have b7: "board s7 = placed_board (board s) pid payload c cn"
        using r(1) by (simp add: placed_board_def)
      have "winningTeam (board ?y) = Some Miner \<longleftrightarrow> gold_reached (placed_board (board s) pid payload c cn)"
        using True by (simp add: syncBoardTelemetry_Miner b7 placed_board_def)
      then have "settlement_throws ?y \<longleftrightarrow>
          gold_reached (placed_board (board s) pid payload c cn) \<and> \<not> has_miner s"
        unfolding settlement_throws_def hm7 re7 using ne7 True by auto
      with True show ?thesis unfolding eq by (auto simp: placement_slip_def)
    next
      case False
      show ?thesis
      proof (cases "roundEnded ?y")
        case True
        then have "\<not> settlement_throws ?y" by (simp add: settlement_throws_def)
        moreover have "\<not> placement_slip s (placed_board (board s) pid payload c cn)"
          using False True re7 nst st by (auto simp: placement_slip_def)
        ultimately show ?thesis unfolding eq by simp
      next
        case nre: False
        with re7 have "\<not> roundEnded s" "winningTeam (board s) = None" "\<not> length (deck s) \<le> 1"
          by auto
        with False show ?thesis by simp
      qed
    qed
  qed
qed

lemma hands_of_map_entry_score [simp]:
  "hands_of (AList.map_entry k (\<lambda>p. p\<lparr>score := f p\<rparr>) ps) = hands_of ps"
  by (induction ps) (auto simp: hands_of_def)

lemma hands_of_lookup: "map_of (hands_of ps) k = map_option hand (map_of ps k)"
  by (simp add: hands_of_def map_of_map)

lemma award_to_hands [simp]: "hands_of (fst (award_to k i v st)) = hands_of (fst st)"
  by (cases st) (simp add: award_to_def)

lemma fold_award_hands:
  assumes "\<And>x st. \<exists>k i v. f x st = award_to k i v st"
  shows "hands_of (fst (fold f xs st)) = hands_of (fst st)"
proof (induction xs arbitrary: st)
  case Nil
  show ?case by simp
next
  case (Cons x xs)
  obtain k i v where "f x st = award_to k i v st" using assms by blast
  then show ?case using Cons.IH [of "f x st"] by simp
qed

lemma deal_nuggets_hands [simp]:
  "hands_of (fst (deal_nuggets order ns st)) = hands_of (fst st)"
  unfolding deal_nuggets_def by (rule fold_award_hands) auto

lemma pay_saboteurs_hands [simp]:
  "hands_of (fst (pay_saboteurs sabos award st)) = hands_of (fst st)"
  unfolding pay_saboteurs_def by (rule fold_award_hands) auto

lemma applyRoundRewards_hands:
  assumes "applyRoundRewards e pl s = Inr (s', aw, ws)"
  shows "hands_of (players s') = hands_of (players s)"
proof -
  consider (miner) "winningTeam (board s) = Some Miner"
    | (sab) "winningTeam (board s) = Some Saboteur"
    | (none) "winningTeam (board s) = None"
    by (metis option.exhaust role.exhaust)
  then show ?thesis
  proof cases
    case miner
    let ?ns = "map (\<lambda>i. 1 + int (random_index (rand_nuggets e i) 3)) [0..<length (players s)]"
    let ?ord = "miner_order pl (filter (\<lambda>(k, p). role p = Miner) (players s))"
    let ?st = "deal_nuggets ?ord ?ns (players s, goldByPlayer (metrics s), Map.empty)"
    obtain ps g a where st: "?st = (ps, g, a)" by (cases ?st) auto
    have "hands_of (fst ?st) = hands_of (players s)" by simp
    with st have h: "hands_of ps = hands_of (players s)" by simp
    from assms miner st have "players s' = ps"
      by (auto simp: applyRoundRewards_def Let_def split: if_splits)
    with h show ?thesis by simp
  next
    case sab
    let ?sabos = "filter (\<lambda>(k, p). role p = Saboteur) (players s)"
    let ?aw = "if length ?sabos = 1 then 4 else if length ?sabos = 2 \<or> length ?sabos = 3 then 3 else (2::int)"
    let ?st = "pay_saboteurs ?sabos ?aw (players s, goldByPlayer (metrics s), Map.empty)"
    obtain ps g a where st: "?st = (ps, g, a)" by (cases ?st) auto
    have "hands_of (fst ?st) = hands_of (players s)" by simp
    with st have h: "hands_of ps = hands_of (players s)" by simp
    from assms sab st have "players s' = ps"
      by (auto simp: applyRoundRewards_def Let_def split: if_splits)
    with h show ?thesis by simp
  next
    case none
    with assms show ?thesis
      by (auto simp: applyRoundRewards_def Let_def)
  qed
qed

lemma maybeFinishRound_hands:
  assumes "maybeFinishRound e pl s = Inr s'"
  shows "hands_of (players s') = hands_of (players s)"
proof (cases "roundEnded s \<or> winningTeam (board s) = None")
  case True
  with assms have "s' = s" by (auto simp: maybeFinishRound_def split: if_splits)
  then show ?thesis by simp
next
  case False
  let ?s0 = "s\<lparr>roundEnded := True, lastWinnerId := pl\<rparr>"
  from False assms obtain s1 aw ws where r: "applyRoundRewards e pl ?s0 = Inr (s1, aw, ws)"
    and s': "s' = s1\<lparr>lastAwards := Some aw, lastWinners := Some ws, lastWinningTeam := winningTeam (board s1)\<rparr>"
    by (auto simp: maybeFinishRound_def split: sum.splits)
  from applyRoundRewards_hands [OF r] show ?thesis unfolding s' by simp
qed

lemma maybeFinishRound_turnsTaken:
  assumes "maybeFinishRound e pl s = Inr s'"
  shows "turnsTaken (metrics s') = turnsTaken (metrics s)"
proof -
  from maybeFinishRound_frame [OF assms]
  have eq: "s' = s\<lparr>players := players s', metrics := (metrics s)\<lparr>goldByPlayer := goldByPlayer (metrics s')\<rparr>,
                roundEnded := roundEnded s', lastWinnerId := lastWinnerId s',
                lastAwards := lastAwards s', lastWinners := lastWinners s',
                lastWinningTeam := lastWinningTeam s'\<rparr>" by (rule conjunct1)
  show ?thesis by (subst eq) simp
qed

lemma draw_loop_one: "snd (draw_loop (Suc 0) d h) = h @ (if d = [] then [] else [last d])"
  by simp

lemma drawCards_hand:
  assumes "drawCards e k n s = Inr s'" and "map_of (players s) k = Some p"
  shows "map_option hand (map_of (players s') k) = Some (snd (draw_loop n (deck s) (hand p)))"
proof -
  from maybeFinishRound_hands [OF assms(1) [unfolded drawCards_eq]]
  have "hands_of (players s')
        = hands_of (AList.map_entry k (\<lambda>q. q\<lparr>hand := snd (draw_loop n (deck s) (hand p))\<rparr>) (players s))"
    using assms(2) by simp
  then have "map_of (hands_of (players s')) k
        = map_of (hands_of (AList.map_entry k (\<lambda>q. q\<lparr>hand := snd (draw_loop n (deck s) (hand p))\<rparr>) (players s))) k"
    by simp
  then show ?thesis using assms(2) by (simp add: hands_of_lookup map_of_map_entry)
qed

lemma find_index_from_Suc:
  "find_index_from (Suc n) P xs = map_option Suc (find_index_from n P xs)"
  by (induction xs arbitrary: n) auto

lemma assign_first_Cons:
  "assign_first P f (x # xs) = (if P x then f x # xs else x # assign_first P f xs)"
  by (simp add: assign_first_def findIndex_def find_index_from_Suc split: option.splits)

lemma assign_first_Nil [simp]: "assign_first P f [] = []"
  by (simp add: assign_first_def findIndex_def)

lemma find_assign_first:
  assumes "\<And>x. P x \<Longrightarrow> P (f x)"
  shows "find P (assign_first P f xs) = map_option f (find P xs)"
  by (induction xs) (auto simp: assign_first_Cons assms)

lemma find_map_keep:
  assumes "\<And>x. P (g x) = P x"
  shows "find P (map g xs) = map_option g (find P xs)"
  by (induction xs) (auto simp: assms)

lemma placed_tile_id [simp]: "tile_id (placed_tile pid payload c cn t) = tile_id t"
  by (simp add: placed_tile_def)

lemma placed_tile_type [simp]: "tileType (placed_tile pid payload c cn t) = PathTile"
  by (simp add: placed_tile_def)

lemma findTile_placed_board:
  "findTile (placed_board b pid payload c cn) (targetTileId payload)
   = map_option (placed_tile pid payload c cn) (findTile b (targetTileId payload))"
  unfolding findTile_def placed_board_def by (simp add: find_assign_first)

lemma findTile_sync:
  "findTile (board (syncBoardTelemetry s)) i
   = map_option (\<lambda>t. if tileType t = Goal \<and> tile_id t \<in> snd (exploreBoard (board s))
                      then t\<lparr>revealed := True\<rparr> else t) (findTile (board s) i)"
  unfolding findTile_def syncBoardTelemetry_tiles by (rule find_map_keep) simp

lemma findTile_tiles: "tiles b' = tiles b \<Longrightarrow> findTile b' i = findTile b i"
  by (simp add: findTile_def)

lemma place_commit_effects:
  assumes pc: "place_commit e pid payload c (Some cn) pp eb s = Inr (s', r)"
    and t: "findTile (board s) (targetTileId payload) = Some t"
    and p: "map_of (players s) pid = Some player"
  shows "findTile (board s') (targetTileId payload) = Some (placed_tile pid payload c cn t)"
    and "discard s' = discard s @ [c]"
    and "deck s' = butlast (deck s)"
    and "turnsTaken (metrics s') = turnsTaken (metrics s) + 1"
    and "map_option hand (map_of (players s') pid)
         = Some (filter (\<lambda>x. instanceId x \<noteq> instanceId c) (hand player)
                 @ (if deck s = [] then [] else [last (deck s)]))"
    and "\<exists>x. r = Success x \<and> placed_card x = c"
proof -
  let ?m = "place_mutated pid payload c (Some cn) pp s"
  from pc obtain s7 where s7: "drawCards e pid 1 ?m = Inr s7"
    and s8: "maybeFinishRound e (Some pid) (advanceTurn e (syncBoardTelemetry s7)) = Inr s'"
    and r: "r = Success \<lparr>placed_card = c, res_roundEnded = (\<not> eb \<and> roundEnded s'),
                          placerId = (if \<not> eb \<and> roundEnded s' then Some pid else None)\<rparr>"
    unfolding place_commit_eq by (auto split: sum.splits)
  note d = drawCards_fields [OF s7]
  note dr = drawCards_result [OF s7]
  note f = maybeFinishRound_fields [OF s8]
  have "findTile (board s7) (targetTileId payload) = Some (placed_tile pid payload c cn t)"
    using findTile_tiles [OF d(1)] t by (simp add: findTile_placed_board)
  then have "findTile (board (syncBoardTelemetry s7)) (targetTileId payload)
             = Some (placed_tile pid payload c cn t)"
    by (simp add: findTile_sync)
  then show "findTile (board s') (targetTileId payload) = Some (placed_tile pid payload c cn t)"
    using f(1) by simp
  show "discard s' = discard s @ [c]" using f(3) d(2) by simp
  show "deck s' = butlast (deck s)" using f(2) dr(3) by (simp add: butlast_conv_take)
  show "turnsTaken (metrics s') = turnsTaken (metrics s) + 1"
    using maybeFinishRound_turnsTaken [OF s8] dr(4) by simp
  have pm: "map_of (players ?m) pid
            = Some (player\<lparr>hand := filter (\<lambda>x. instanceId x \<noteq> instanceId c) (hand player)\<rparr>)"
    using p by (simp add: place_mutated_def map_of_map_entry)
  from drawCards_hand [OF s7 pm]
  have h7: "map_option hand (map_of (players s7) pid)
            = Some (filter (\<lambda>x. instanceId x \<noteq> instanceId c) (hand player)
                    @ (if deck s = [] then [] else [last (deck s)]))"
    by (cases "deck s = []") simp_all
  from maybeFinishRound_hands [OF s8]
  have "map_of (hands_of (players s')) pid = map_of (hands_of (players s7)) pid" by simp
  with h7 show "map_option hand (map_of (players s') pid)
         = Some (filter (\<lambda>x. instanceId x \<noteq> instanceId c) (hand player)
                 @ (if deck s = [] then [] else [last (deck s)]))"
    by (simp add: hands_of_lookup)
  show "\<exists>x. r = Success x \<and> placed_card x = c" using r by simp
qed

lemma placeCard_commit_eq:
  assumes "\<not> (truthy (activePlayerId (metrics s)) \<and> activePlayerId (metrics s) \<noteq> Some playerId)"
    and "map_of (players s) playerId = Some player"
    and "\<not> toolBroken player"
    and "find (\<lambda>c. instanceId c = cardInstanceId payload) (hand player) = Some crd"
    and "map_of CARD_LIBRARY (cardKey crd) = Some d"
    and "category d = Path"
    and "findTile (board s) (targetTileId payload) = Some t"
    and "tileType t \<noteq> Start" and "tileType t \<noteq> Goal" and "tileType t \<noteq> PathTile"
    and "rotateConnectors (def_connectors d) (payload_rotation payload) = Some c"
  shows "placeCard e playerId payload s =
     (if connects_cleanly (board s) t c
      then place_commit e playerId payload crd (Some c) (progress (metrics s)) (roundEnded s) s
      else Inr (s, Error ''Card does not connect cleanly''))"
  using assms
  by (auto simp: placeCard_def Let_def attach_loop_eq connects_cleanly_def)

lemma place_commit_outcome:
  assumes "players s \<noteq> []"
  shows "\<not> is_error (place_commit e pid payload c (Some cn) pp eb s)"
    and "\<not> placement_slip s (placed_board (board s) pid payload c cn)
         \<Longrightarrow> is_success (place_commit e pid payload c (Some cn) pp eb s)"
proof -
  show ne: "\<not> is_error (place_commit e pid payload c (Some cn) pp eb s)"
    using place_commit_not_error [of e pid payload c "Some cn" pp eb s]
    by (auto simp: is_error_def split: sum.splits prod.splits result.splits)
  assume ns: "\<not> placement_slip s (placed_board (board s) pid payload c cn)"
  show "is_success (place_commit e pid payload c (Some cn) pp eb s)"
  proof (cases "place_commit e pid payload c (Some cn) pp eb s")
    case (Inl x)
    then have "place_commit e pid payload c (Some cn) pp eb s = Inl TypeError" by (cases x) simp
    with place_commit_throws_iff [OF assms, of e pid payload c cn pp eb TypeError] ns
    show ?thesis by simp
  next
    case (Inr y)
    obtain s' r where y: "y = (s', r)" by (cases y)
    show ?thesis
    proof (cases r)
      case (Error m)
      with Inr y place_commit_not_error [of e pid payload c "Some cn" pp eb s s' m]
      show ?thesis by simp
    next
      case (Success x)
      with Inr y show ?thesis by (simp add: is_success_def)
    qed
  qed
qed

lemma placeCard_slip_throws:
  assumes "\<not> (truthy (activePlayerId (metrics s)) \<and> activePlayerId (metrics s) \<noteq> Some playerId)"
    and "map_of (players s) playerId = Some player"
    and "\<not> toolBroken player"
    and "find (\<lambda>c. instanceId c = cardInstanceId payload) (hand player) = Some crd"
    and "map_of CARD_LIBRARY (cardKey crd) = Some d"
    and "category d = Path"
    and "findTile (board s) (targetTileId payload) = Some t"
    and "tileType t \<noteq> Start" and "tileType t \<noteq> Goal" and "tileType t \<noteq> PathTile"
    and "rotateConnectors (def_connectors d) (payload_rotation payload) = Some c"
    and "connects_cleanly (board s) t c"
  shows "placeCard e playerId payload s = Inl TypeError
         \<longleftrightarrow> placement_slip s (placed_board (board s) playerId payload crd c)"
proof -
  from assms(2) have ne: "players s \<noteq> []" by auto
  show ?thesis
    unfolding placeCard_commit_eq [OF assms(1-11)] using assms(12)
    by (simp add: place_commit_throws_iff [OF ne])
qed

text \<open>
  C1 (amended). For a \<^verbatim>\<open>placeCard\<close> call that passes the turn, player, tool, card,
  category and tile checks: a direction counts only when its neighbour exists and has
  connectors; it attaches when both sides are open and is a mismatch when exactly one
  side is open.  The call is rejected with the no-clean-connection error exactly when
  no direction attaches or some direction is a mismatch, and then the room is unchanged.
  Otherwise the call is not rejected and the placement is committed: every room the call
  returns comes with the success result for the card, has the target tile turned into the
  revealed path tile of the card with the rotated connectors and the placer as owner, has
  the card moved from the placer's hand to the discard pile, the last card of the deck (if
  any) drawn into that hand, and one more turn counted; and the call returns success
  unless the room has no miner, its round is not settled, and the miners have won or win
  by this placement.
\<close>

theorem placeCard_connection_rule:
  assumes "\<not> (truthy (activePlayerId (metrics s)) \<and> activePlayerId (metrics s) \<noteq> Some playerId)"
    and "map_of (players s) playerId = Some player"
    and "\<not> toolBroken player"
    and "find (\<lambda>c. instanceId c = cardInstanceId payload) (hand player) = Some crd"
    and "map_of CARD_LIBRARY (cardKey crd) = Some d"
    and "category d = Path"
    and "findTile (board s) (targetTileId payload) = Some t"
    and "tileType t \<noteq> Start" and "tileType t \<noteq> Goal" and "tileType t \<noteq> PathTile"
  shows "\<exists>c. rotateConnectors (def_connectors d) (payload_rotation payload) = Some c
     \<and> (if connects_cleanly (board s) t c
        then \<not> is_error (placeCard e playerId payload s)
             \<and> (\<not> placement_slip s (placed_board (board s) playerId payload crd c)
                \<longrightarrow> is_success (placeCard e playerId payload s))
             \<and> (\<forall>s' r. placeCard e playerId payload s = Inr (s', r) \<longrightarrow>
                   (\<exists>x. r = Success x \<and> placed_card x = crd)
                   \<and> findTile (board s') (targetTileId payload)
                       = Some (placed_tile playerId payload crd c t)
                   \<and> map_option hand (map_of (players s') playerId)
                       = Some (filter (\<lambda>x. instanceId x \<noteq> instanceId crd) (hand player)
                               @ (if deck s = [] then [] else [last (deck s)]))
                   \<and> discard s' = discard s @ [crd]
                   \<and> deck s' = butlast (deck s)
                   \<and> turnsTaken (metrics s') = turnsTaken (metrics s) + 1)
        else placeCard e playerId payload s = Inr (s, Error ''Card does not connect cleanly''))"
proof -
  from path_card_has_connectors [OF assms(5,6)] obtain c0 where "def_connectors d = Some c0" by blast
  then obtain c where c: "rotateConnectors (def_connectors d) (payload_rotation payload) = Some c"
    by (simp add: rotateConnectors_def Let_def)
  note eq = placeCard_commit_eq [OF assms c, of e]
  from assms(2) have ne: "players s \<noteq> []" by auto
  show ?thesis
  proof (cases "connects_cleanly (board s) t c")
    case False
    with eq c show ?thesis by simp
  next
    case True
    with eq have eq': "placeCard e playerId payload s
        = place_commit e playerId payload crd (Some c) (progress (metrics s)) (roundEnded s) s"
      by simp
    have a: "\<not> is_error (placeCard e playerId payload s)"
      unfolding eq' by (rule place_commit_outcome(1) [OF ne])
    have b: "\<not> placement_slip s (placed_board (board s) playerId payload crd c)
                \<longrightarrow> is_success (placeCard e playerId payload s)"
      unfolding eq' using place_commit_outcome(2) [OF ne] by blast
    have d: "(\<exists>x. r = Success x \<and> placed_card x = crd)
                   \<and> findTile (board s') (targetTileId payload)
                       = Some (placed_tile playerId payload crd c t)
                   \<and> map_option hand (map_of (players s') playerId)
                       = Some (filter (\<lambda>x. instanceId x \<noteq> instanceId crd) (hand player)
                               @ (if deck s = [] then [] else [last (deck s)]))
                   \<and> discard s' = discard s @ [crd]
                   \<and> deck s' = butlast (deck s)
                   \<and> turnsTaken (metrics s') = turnsTaken (metrics s) + 1"
      if "placeCard e playerId payload s = Inr (s', r)" for s' r
    proof -
      from that have pc: "place_commit e playerId payload crd (Some c) (progress (metrics s)) (roundEnded s) s
            = Inr (s', r)" unfolding eq' .
      note f = place_commit_effects [OF pc assms(7) assms(2)]
      from f(6) f(1) f(5) f(2) f(3) f(4) show ?thesis by blast
    qed
    from c True a b d show ?thesis by (intro exI [of _ c]) (simp only: if_True, blast)
  qed
qed

theorem placeCard_connection_rule_witness:
  "connects_cleanly (board alice_room) (the (findTile (board alice_room) ''3-1''))
      \<lparr>north = False, east = True, south = False, west = True\<rparr>
   \<and> \<not> placement_slip alice_room
        (placed_board (board alice_room) ''alice'' straight_to_3_1
           \<lparr>instanceId = ''card-0'', cardKey = ''straight'', rotation = 0\<rparr>
           \<lparr>north = False, east = True, south = False, west = True\<rparr>)
   \<and> (\<exists>s' x. placeCard demo_env ''alice'' straight_to_3_1 alice_room = Inr (s', Success x)
        \<and> placed_card x = \<lparr>instanceId = ''card-0'', cardKey = ''straight'', rotation = 0\<rparr>
        \<and> map_option tileType (findTile (board s') ''3-1'') = Some PathTile
        \<and> map_option tile_connectors (findTile (board s') ''3-1'')
            = Some (Some \<lparr>north = False, east = True, south = False, west = True\<rparr>)
        \<and> map_option ownerId (findTile (board s') ''3-1'') = Some (Some ''alice'')
        \<and> discard s' = discard alice_room @ [\<lparr>instanceId = ''card-0'', cardKey = ''straight'', rotation = 0\<rparr>]
        \<and> deck s' = butlast (deck alice_room)
        \<and> turnsTaken (metrics s') = turnsTaken (metrics alice_room) + 1)"
proof -
  let ?c = "\<lparr>north = False, east = True, south = False, west = True\<rparr>"
  let ?card = "\<lparr>instanceId = ''card-0'', cardKey = ''straight'', rotation = 0\<rparr>"
  let ?t = "the (findTile (createBoard 0) ''3-1'')"
  let ?d = "the (map_of CARD_LIBRARY ''straight'')"
  let ?p = "the (map_of (players alice_room) ''alice'')"
  let ?res = "placeCard demo_env ''alice'' straight_to_3_1 alice_room"
  have h1: "\<not> (truthy (activePlayerId (metrics alice_room))
              \<and> activePlayerId (metrics alice_room) \<noteq> Some ''alice'')"
    by (simp add: alice_room_active)
  have h2: "map_of (players alice_room) ''alice'' = Some ?p"
    by (simp add: alice_room_players)
  have h3: "\<not> toolBroken ?p"
    by (simp add: alice_room_players)
  have h4: "find (\<lambda>c. instanceId c = cardInstanceId straight_to_3_1) (hand ?p) = Some ?card"
    by (simp add: alice_room_players straight_to_3_1_def)
  have h5: "map_of CARD_LIBRARY (cardKey ?card) = Some ?d"
    by (simp add: CARD_LIBRARY_def)
  have h6: "category ?d = Path"
    by (simp add: CARD_LIBRARY_def)
  have f: "findTile (createBoard 0) ''3-1'' \<noteq> None" by code_simp
  have h7: "findTile (board alice_room) (targetTileId straight_to_3_1) = Some ?t"
    using f by (auto simp: alice_room_board straight_to_3_1_def)
  have h8: "tileType ?t \<noteq> Start" by code_simp
  have h9: "tileType ?t \<noteq> Goal" by code_simp
  have h10: "tileType ?t \<noteq> PathTile" by code_simp
  have r: "rotateConnectors (def_connectors ?d) (payload_rotation straight_to_3_1) = Some ?c"
    by code_simp
  have cc: "connects_cleanly (createBoard 0) ?t ?c" by code_simp
  have hm: "has_miner alice_room" by (simp add: has_miner_def alice_room_players)
  then have ns: "\<not> placement_slip alice_room b" for b by (simp add: placement_slip_def)
  from placeCard_connection_rule [OF h1 h2 h3 h4 h5 h6 h7 h8 h9 h10, of demo_env]
  obtain c where c: "rotateConnectors (def_connectors ?d) (payload_rotation straight_to_3_1) = Some c"
    and i: "if connects_cleanly (board alice_room) ?t c
        then \<not> is_error ?res
             \<and> (\<not> placement_slip alice_room (placed_board (board alice_room) ''alice'' straight_to_3_1 ?card c)
                \<longrightarrow> is_success ?res)
             \<and> (\<forall>s' r. ?res = Inr (s', r) \<longrightarrow>
                   (\<exists>x. r = Success x \<and> placed_card x = ?card)
                   \<and> findTile (board s') (targetTileId straight_to_3_1)
                       = Some (placed_tile ''alice'' straight_to_3_1 ?card c ?t)
                   \<and> map_option hand (map_of (players s') ''alice'')
                       = Some (filter (\<lambda>x. instanceId x \<noteq> instanceId ?card) (hand ?p)
                               @ (if deck alice_room = [] then [] else [last (deck alice_room)]))
                   \<and> discard s' = discard alice_room @ [?card]
                   \<and> deck s' = butlast (deck alice_room)
                   \<and> turnsTaken (metrics s') = turnsTaken (metrics alice_room) + 1)
        else ?res = Inr (alice_room, Error ''Card does not connect cleanly'')"
    by blast
  from c r have ceq: "c = ?c" by simp
  from cc have cc': "connects_cleanly (board alice_room) ?t c" unfolding ceq by (simp add: alice_room_board)
  from i cc' have s: "is_success ?res"
    and e: "\<forall>s' r. ?res = Inr (s', r) \<longrightarrow>
                   (\<exists>x. r = Success x \<and> placed_card x = ?card)
                   \<and> findTile (board s') (targetTileId straight_to_3_1)
                       = Some (placed_tile ''alice'' straight_to_3_1 ?card c ?t)
                   \<and> map_option hand (map_of (players s') ''alice'')
                       = Some (filter (\<lambda>x. instanceId x \<noteq> instanceId ?card) (hand ?p)
                               @ (if deck alice_room = [] then [] else [last (deck alice_room)]))
                   \<and> discard s' = discard alice_room @ [?card]
                   \<and> deck s' = butlast (deck alice_room)
                   \<and> turnsTaken (metrics s') = turnsTaken (metrics alice_room) + 1"
    using ns by simp_all
  from s obtain s' x where res: "?res = Inr (s', Success x)" by (rule is_successE)
  from e res have ef: "placed_card x = ?card"
      "findTile (board s') ''3-1'' = Some (placed_tile ''alice'' straight_to_3_1 ?card ?c ?t)"
      "discard s' = discard alice_room @ [?card]"
      "deck s' = butlast (deck alice_room)"
      "turnsTaken (metrics s') = turnsTaken (metrics alice_room) + 1"
    unfolding ceq by (simp_all add: straight_to_3_1_def)
  have "\<exists>s' x. ?res = Inr (s', Success x)
        \<and> placed_card x = ?card
        \<and> map_option tileType (findTile (board s') ''3-1'') = Some PathTile
        \<and> map_option tile_connectors (findTile (board s') ''3-1'') = Some (Some ?c)
        \<and> map_option ownerId (findTile (board s') ''3-1'') = Some (Some ''alice'')
        \<and> discard s' = discard alice_room @ [?card]
        \<and> deck s' = butlast (deck alice_room)
        \<and> turnsTaken (metrics s') = turnsTaken (metrics alice_room) + 1"
    using res ef by (intro exI [of _ s'] exI [of _ x]) (simp add: placed_tile_def)
  with cc ns show ?thesis by (simp add: alice_room_board)
qed

theorem placeCard_claimed_rule_counterexample:
  "is_success (placeCard demo_env ''alice'' straight_to_3_1 alice_room)
   \<and> claimed_mismatch (board alice_room) (the (findTile (board alice_room) ''3-1''))
        \<lparr>north = False, east = True, south = False, west = True\<rparr> (neighbors ! 2)
   \<and> \<not> claimed_connects (board alice_room) (the (findTile (board alice_room) ''3-1''))
        \<lparr>north = False, east = True, south = False, west = True\<rparr>"
proof -
  have "is_success (placeCard demo_env ''alice'' straight_to_3_1 alice_room)"
    by (rule alice_places_straight)
  moreover have "claimed_mismatch (createBoard 0) (the (findTile (createBoard 0) ''3-1''))
        \<lparr>north = False, east = True, south = False, west = True\<rparr> (neighbors ! 2)"
    by code_simp
  moreover have "\<not> claimed_connects (createBoard 0) (the (findTile (createBoard 0) ''3-1''))
        \<lparr>north = False, east = True, south = False, west = True\<rparr>"
    by code_simp
  ultimately show ?thesis by (simp add: alice_room_board)
qed

end
